(* ===== verification/Prelude.thy ===== *)
theory Prelude
  imports Main "HOL-Library.Word" "HOL-Library.Monad_Syntax"
begin

text \<open>
  Shared vocabulary of the development: machine integers, the SDK's opaque values,
  the two ways a call can fail, and the generic lemmas the components use.

  A host trap (a panic, a failed \<open>require_auth\<close>, a stored value of the wrong type)
  is \<open>None\<close>; the invocation is aborted and rolled back.  A Rust \<open>Result\<close> is a sum,
  \<open>Inl\<close> for \<open>Err\<close> and \<open>Inr\<close> for \<open>Ok\<close>.
\<close>

named_theorems op_defs "definitions of the storage operations"

type_synonym u8 = "8 word"
type_synonym u32 = "32 word"
type_synonym u64 = "64 word"
type_synonym i128 = "128 word"

text \<open>An \<open>Address\<close> is an opaque SDK handle of which the code only uses equality; it is
  represented by its strkey text.  A \<open>BytesN<32>\<close> is its list of bytes.\<close>

type_synonym Address = string
type_synonym bytes32 = "u8 list"

text \<open>A computation that may trap.\<close>

type_synonym 'a host = "'a option"

definition unwrap_or :: "'a option \<Rightarrow> 'a \<Rightarrow> 'a" where
  "unwrap_or x d = (case x of None \<Rightarrow> d | Some a \<Rightarrow> a)"

lemma unwrap_or_simps [simp]:
  "unwrap_or None d = d"
  "unwrap_or (Some a) d = a"
  by (simp_all add: unwrap_or_def)

lemma bind_Some_None: "Option.bind x (\<lambda>y. Some (f y)) = None \<longleftrightarrow> x = None"
  by (cases x) simp_all

text \<open>\<open>u32::saturating_add\<close>: the sum, or the greatest value when it does not fit.\<close>

definition sat_add32 :: "u32 \<Rightarrow> u32 \<Rightarrow> u32" where
  "sat_add32 a b = (if unat a + unat b < 2 ^ 32 then a + b else - 1)"

lemma unat_sat_add32: "unat (sat_add32 a b) = min (unat a + unat b) (2 ^ 32 - 1)"
  by (auto simp: sat_add32_def unat_word_ariths min_def unsigned_minus_1_eq_mask mask_eq_exp_minus_1)

text \<open>\<open>checked\<close> increment of a \<open>u64\<close>: the release profile sets
  \<open>overflow-checks = true\<close>, so \<open>id + 1\<close> panics at the greatest value.\<close>

definition incr64 :: "u64 \<Rightarrow> u64 host" where
  "incr64 a = (if a = - 1 then None else Some (a + 1))"

lemma incr64_unat: "incr64 a = Some b \<Longrightarrow> unat b = Suc (unat a)"
proof -
  assume "incr64 a = Some b"
  then have "a \<noteq> - 1" and b: "b = a + 1" by (auto simp: incr64_def split: if_splits)
  then have "a + 1 \<noteq> 0" by (metis add.commute add_eq_0_iff)
  with b show ?thesis by (metis add.commute unatSuc)
qed

lemma incr64_None [simp]: "incr64 a = None \<longleftrightarrow> a = - 1"
  by (simp add: incr64_def)

text \<open>The same for a \<open>u32\<close>.\<close>

definition incr32 :: "u32 \<Rightarrow> u32 host" where
  "incr32 a = (if a = - 1 then None else Some (a + 1))"

lemma incr32_unat: "incr32 a = Some b \<Longrightarrow> unat b = Suc (unat a)"
proof -
  assume "incr32 a = Some b"
  then have "a \<noteq> - 1" and b: "b = a + 1" by (auto simp: incr32_def split: if_splits)
  then have "a + 1 \<noteq> 0" by (metis add.commute add_eq_0_iff)
  with b show ?thesis by (metis add.commute unatSuc)
qed

lemma incr32_fits: "unat a < 2 ^ 32 - 1 \<Longrightarrow> \<exists>b. incr32 a = Some b \<and> unat b = Suc (unat a)"
  using incr32_unat [of a]
  by (auto simp: incr32_def unsigned_minus_1_eq_mask mask_eq_exp_minus_1)

lemma word_of_nat_unat: "w = word_of_nat (unat w)"
  by simp

lemma unat_of_nat32: "m < 2 ^ 32 \<Longrightarrow> unat (word_of_nat m :: u32) = m"
  by (simp add: unat_of_nat take_bit_eq_mod)

lemma unat_Suc_less:
  assumes "(i :: u32) < e"
  shows "unat (i + 1) = Suc (unat i)"
proof -
  from assms have "i \<noteq> - 1" by (metis word_not_simps(3) not_less word_n1_ge)
  then have "1 + i \<noteq> 0" by (metis add.commute add_eq_0_iff)
  then show ?thesis by (metis add.commute unatSuc)
qed

subsection \<open>Assertions and loops that may trap\<close>

definition assert_that :: "bool \<Rightarrow> unit host" where
  "assert_that b = (if b then Some () else None)"

lemma assert_that_simps [simp]:
  "assert_that True = Some ()"
  "assert_that b = Some () \<longleftrightarrow> b"
  "assert_that b = None \<longleftrightarrow> \<not> b"
  by (simp_all add: assert_that_def)

fun fold_host :: "('s \<Rightarrow> 'a \<Rightarrow> 's host) \<Rightarrow> 's \<Rightarrow> 'a list \<Rightarrow> 's host" where
  "fold_host f s [] = Some s"
| "fold_host f s (x # xs) = do { s' \<leftarrow> f s x; fold_host f s' xs }"

text \<open>A loop whose body keeps an invariant and does not trap under it does not trap.\<close>

lemma fold_host_inv:
  assumes "\<And>s x. x \<in> set xs \<Longrightarrow> I s \<Longrightarrow> \<exists>s'. f s x = Some s' \<and> I s'" "I s"
  shows "\<exists>s'. fold_host f s xs = Some s' \<and> I s'"
  using assms
proof (induction xs arbitrary: s)
  case Nil
  then show ?case by simp
next
  case (Cons x xs)
  from Cons.prems obtain s1 where "f s x = Some s1" "I s1" by (meson list.set_intros(1))
  with Cons.IH [of s1] Cons.prems(1) show ?case by simp
qed

subsection \<open>Lists\<close>

lemma distinct_snoc [simp]: "distinct (xs @ [x]) \<longleftrightarrow> distinct xs \<and> x \<notin> set xs"
  by auto

lemma filter_take_drop_step:
  "i < length xs \<Longrightarrow> take (Suc n) (drop i xs) = xs ! i # take n (drop (Suc i) xs)"
  by (simp add: Cons_nth_drop_Suc [symmetric])

lemma concat_map_concat:
  "concat (map (\<lambda>k. concat (map f (g k))) ks) = concat (map f (concat (map g ks)))"
  by (induction ks) simp_all

text \<open>Cutting a list into consecutive chunks loses nothing.\<close>

lemma concat_chunks:
  "concat (map (\<lambda>k. take l (drop (k * l) xs)) [0..<n]) = take (n * l) xs"
proof (induction n)
  case 0
  show ?case by simp
next
  case (Suc n)
  have "Suc n * l = n * l + l" by simp
  with Suc show ?case by (simp add: take_add del: mult_Suc)
qed

end
