(* ===== verification/Contract_Types.thy ===== *)
theory Contract_Types
  imports Prelude
begin

text \<open>
  The data of the storage layer.  \<open>src/types.rs\<close> is an empty file at this commit, so
  each type is reconstructed from the uses in the modules that import it: a struct has
  the fields the code reads or writes and, where the code never builds it by a literal,
  an open record extension \<open>'m\<close> for the fields nothing here mentions.
\<close>

text \<open>The statuses \<open>storage.rs\<close> names (as \<open>TxStatus\<close> and \<open>TransactionStatus\<close>).\<close>

datatype TransactionStatus =
  Pending | Processing | Completed | Failed | Cancelled | Retrying

instantiation TransactionStatus :: enum
begin

definition enum_TransactionStatus :: "TransactionStatus list" where
  "enum_TransactionStatus = [Pending, Processing, Completed, Failed, Cancelled, Retrying]"

definition enum_all_TransactionStatus :: "(TransactionStatus \<Rightarrow> bool) \<Rightarrow> bool" where
  "enum_all_TransactionStatus P \<longleftrightarrow> list_all P enum_class.enum"

definition enum_ex_TransactionStatus :: "(TransactionStatus \<Rightarrow> bool) \<Rightarrow> bool" where
  "enum_ex_TransactionStatus P \<longleftrightarrow> list_ex P enum_class.enum"

instance
proof
  show univ: "UNIV = set (enum_class.enum :: TransactionStatus list)"
    by (auto simp: enum_TransactionStatus_def) (metis TransactionStatus.exhaust)
  show "distinct (enum_class.enum :: TransactionStatus list)"
    by (simp add: enum_TransactionStatus_def)
  show "enum_class.enum_all P = Ball UNIV P" for P :: "TransactionStatus \<Rightarrow> bool"
    unfolding enum_all_TransactionStatus_def univ by (simp add: list_all_iff)
  show "enum_class.enum_ex P = Bex UNIV P" for P :: "TransactionStatus \<Rightarrow> bool"
    unfolding enum_ex_TransactionStatus_def univ by (simp add: list_ex_iff)
qed

end

text \<open>The payload of \<open>DataKey::Transaction\<close>: \<open>storage.rs\<close> uses a \<open>Symbol\<close>, a \<open>u64\<close> and
  a \<open>BytesN<32>\<close>, three different host values and so three different keys.\<close>

datatype TxId = TxSymbol string | TxU64 u64 | TxBytes bytes32

record Transaction =
  tx_id :: TxId
  tx_status :: TransactionStatus
  tx_caller :: Address
  tx_reason :: "string option"
  tx_relay_signer :: "Address option"
  tx_stellar_tx_hash :: "bytes32 option"

record PendingWithdrawal =
  pw_amount :: i128
  pw_destination :: Address
  pw_proposer :: Address

record TreasuryConfig =
  party_a :: Address
  party_b :: Address
  epoch_cap :: i128

record BondRecord =
  bond_signer :: Address
  bond_amount :: i128
  bonded_at :: u32

subsection \<open>Storage keys\<close>

datatype DataKey =
    Transaction_key TxId
  | TreasuryAccrued
  | Relayer Address
  | Admin
  | TransactionTags u64
  | RelaySigner
  | RelaySigners
  | RelayThreshold
  | RelayApprovals u64
  | StatusIndex TransactionStatus

datatype TreasuryKey =
    WithdrawalCounter
  | PendingWithdrawal_key u64
  | TreasuryConfig_key
  | TreasuryBalance
  | EpochWithdrawn

datatype BondKey = Bond Address | Unbond Address

text \<open>A key of the ledger is one of the three enums: their variant names are pairwise
  different, so the host never confuses two of them.\<close>

datatype StorageKey = DK DataKey | TK TreasuryKey | BK BondKey

subsection \<open>Stored values\<close>

text \<open>The value under a key, tagged with its Rust type.  \<open>'m\<close> is the part of the
  transaction record nothing here mentions, \<open>'u\<close> the unbond request, which the storage
  layer only passes on.\<close>

datatype ('m, 'u) Val =
    VTx "'m Transaction_scheme"
  | VBool bool
  | VI128 i128
  | VU32 u32
  | VU64 u64
  | VAddr Address
  | VAddrs "Address list"
  | VStrs "string list"
  | VIds "u64 list"
  | VWithdrawal PendingWithdrawal
  | VConfig TreasuryConfig
  | VBond BondRecord
  | VUnbond 'u

text \<open>\<open>Deposit\<close> is the one callback type the code of the repository names.\<close>

datatype CallbackType = Deposit

subsection \<open>Errors\<close>

datatype TransitionError = NotFound | InvalidSource

text \<open>The variants of \<open>ContractError\<close> that \<open>admin.rs\<close>, \<open>migration.rs\<close>, the
  \<open>register_callback\<close> text of \<open>lib.rs\<close> and the tests of the entry points name;
  \<open>OtherError\<close> stands for the variants only the callees of \<open>register_callback\<close> return, by
  discriminant.\<close>

datatype ContractError =
    NotAuthorized | UnknownMigration | MigrationFailed | ContractPaused | DuplicateRequest
  | NotInitialised | Unauthorised | TransactionNotFound | InvalidStatusTransition
  | InvalidStellarAccount | InvalidAssetCode | InvalidAssetIssuer | InvalidAmount
  | MissingIdempotencyKey | StringTooLong | InvalidPayload | AmountCeilingExceeded
  | InvalidBatchSize | BatchBudgetExceeded | InvalidParamValue | ParamNotFound
  | ArithmeticOverflow | TreasuryNotConfigured | InvalidWithdrawalAmount
  | InsufficientTreasuryBalance | NoPendingWithdrawal | WithdrawalNotRelaySigner
  | WithdrawalProposalMismatch | WithdrawalCapExceeded
  | OtherError u32

text \<open>How an entry point reports a refused transition, as the tests expect it.\<close>

fun contract_error :: "TransitionError \<Rightarrow> ContractError" where
  "contract_error NotFound = TransactionNotFound"
| "contract_error InvalidSource = InvalidStatusTransition"

text \<open>The variants of \<open>Error\<close> that \<open>storage.rs\<close> returns.\<close>

datatype StorageError = NotInitialized | Unauthorized | SignerAlreadyExists | InvalidLimit

end
