(* ===== verification/Event_Types.thy ===== *)
theory Event_Types
  imports Contract_Types
begin

text \<open>
  The events of \<open>src/events.rs\<close> as data: the payload structs, the topic constants and
  the value a \<open>publish\<close> call appends to the host's event log.
\<close>

record EventContractInitialized =
  init_admin :: Address
  init_relay_signer :: Address

record EventContractUpgraded =
  up_new_wasm_hash :: bytes32
  up_schema_version :: u32

record EventGuardianAdminRevoked =
  gr_guardian :: Address
  gr_revoked_admin :: Address
  gr_new_admin :: Address

record EventRelaySignerRotated =
  rot_old_signer :: Address
  rot_new_signer :: Address

record EventTransactionCancelled =
  cancelled_tx_id :: u64
  cancelled_reason :: string

record ForwardingIntent =
  fwd_tx_id :: bytes32
  fwd_caller :: Address

text \<open>A topic is a symbol, a transaction id or an address; the data is one of the payload
  structs or the plain value (or pair) the emitter passes; the generic \<open>emit\<close> of
  \<open>src/storage.rs\<close> also passes on a symbol.\<close>

datatype Topic = TSym string | TId u64 | TAddr Address

datatype Payload =
    PInit EventContractInitialized
  | PUpgraded EventContractUpgraded
  | PGuardian EventGuardianAdminRevoked
  | PRotated EventRelaySignerRotated
  | PCancelled EventTransactionCancelled
  | PForward ForwardingIntent
  | PAmount i128
  | PAmounts i128 i128
  | PUnbonded i128 u32
  | PReason string
  | PTxId u64
  | PStatus u32
  | PHash bytes32
  | PAddress Address
  | PSymbol string

type_synonym Event = "Topic list \<times> Payload"

subsection \<open>Topic constants\<close>

definition TOPIC_INIT :: string where "TOPIC_INIT = ''init''"
definition UPGRADE_TOPIC :: string where "UPGRADE_TOPIC = ''upgrade''"
definition GUARDIAN_REVOKE_TOPIC :: string where "GUARDIAN_REVOKE_TOPIC = ''guardian_revoke''"
definition RELAY_TOPIC :: string where "RELAY_TOPIC = ''relay''"
definition FORWARDING_INTENT :: string where "FORWARDING_INTENT = ''fwd_intent''"
definition COLLATERAL_BONDED :: string where "COLLATERAL_BONDED = ''bonded''"
definition COLLATERAL_UNBONDED :: string where "COLLATERAL_UNBONDED = ''unbonded''"
definition UNBOND_CLAIMED :: string where "UNBOND_CLAIMED = ''claimed''"
definition FAIL_TOPIC :: string where "FAIL_TOPIC = ''fail''"
definition CANCEL_TOPIC :: string where "CANCEL_TOPIC = ''cancel''"
definition REG_TOPIC :: string where "REG_TOPIC = ''reg''"
definition TOPIC_STATUS :: string where "TOPIC_STATUS = ''status''"
definition TOPIC_DONE :: string where "TOPIC_DONE = ''done''"

lemmas topic_defs =
  TOPIC_INIT_def UPGRADE_TOPIC_def GUARDIAN_REVOKE_TOPIC_def RELAY_TOPIC_def
  FORWARDING_INTENT_def COLLATERAL_BONDED_def COLLATERAL_UNBONDED_def UNBOND_CLAIMED_def
  FAIL_TOPIC_def CANCEL_TOPIC_def REG_TOPIC_def TOPIC_STATUS_def TOPIC_DONE_def

end
