(* ===== verification/Host.thy ===== *)
theory Host
  imports Event_Types
begin

text \<open>
  The SDK's \<open>Env\<close> as the state the storage layer passes along: three storage tiers, the
  event log, the authorisations of the current invocation and the ledger sequence.  The
  laws of a storage tier are the locale \<open>kv_tier\<close>, the laws of a setting kept under one
  key the locale \<open>cell\<close>; the components interpret them for their own accessors.
\<close>

record ('m, 'u) Env =
  persistent :: "StorageKey \<rightharpoonup> ('m, 'u) Val"
  inst :: "StorageKey \<rightharpoonup> ('m, 'u) Val"
  temporary :: "StorageKey \<rightharpoonup> ('m, 'u) Val"
  events :: "Event list"
  authorized :: "Address \<Rightarrow> bool"
  sequence :: u32

subsection \<open>The three storage tiers\<close>

definition persistent_get :: "('m, 'u) Env \<Rightarrow> StorageKey \<Rightarrow> ('m, 'u) Val option" where
  "persistent_get env k = persistent env k"

definition persistent_set :: "('m, 'u) Env \<Rightarrow> StorageKey \<Rightarrow> ('m, 'u) Val \<Rightarrow> ('m, 'u) Env" where
  "persistent_set env k v = env\<lparr>persistent := (persistent env)(k \<mapsto> v)\<rparr>"

definition persistent_remove :: "('m, 'u) Env \<Rightarrow> StorageKey \<Rightarrow> ('m, 'u) Env" where
  "persistent_remove env k = env\<lparr>persistent := (persistent env)(k := None)\<rparr>"

definition instance_get :: "('m, 'u) Env \<Rightarrow> StorageKey \<Rightarrow> ('m, 'u) Val option" where
  "instance_get env k = inst env k"

definition instance_set :: "('m, 'u) Env \<Rightarrow> StorageKey \<Rightarrow> ('m, 'u) Val \<Rightarrow> ('m, 'u) Env" where
  "instance_set env k v = env\<lparr>inst := (inst env)(k \<mapsto> v)\<rparr>"

definition instance_remove :: "('m, 'u) Env \<Rightarrow> StorageKey \<Rightarrow> ('m, 'u) Env" where
  "instance_remove env k = env\<lparr>inst := (inst env)(k := None)\<rparr>"

definition temporary_get :: "('m, 'u) Env \<Rightarrow> StorageKey \<Rightarrow> ('m, 'u) Val option" where
  "temporary_get env k = temporary env k"

definition temporary_set :: "('m, 'u) Env \<Rightarrow> StorageKey \<Rightarrow> ('m, 'u) Val \<Rightarrow> ('m, 'u) Env" where
  "temporary_set env k v = env\<lparr>temporary := (temporary env)(k \<mapsto> v)\<rparr>"

definition temporary_remove :: "('m, 'u) Env \<Rightarrow> StorageKey \<Rightarrow> ('m, 'u) Env" where
  "temporary_remove env k = env\<lparr>temporary := (temporary env)(k := None)\<rparr>"

lemmas tier_defs =
  persistent_get_def persistent_set_def persistent_remove_def
  instance_get_def instance_set_def instance_remove_def
  temporary_get_def temporary_set_def temporary_remove_def

text \<open>The contract of a tier, and what follows from it for any tier.\<close>

locale kv_tier =
  fixes get :: "'s \<Rightarrow> 'k \<Rightarrow> 'v option"
    and set :: "'s \<Rightarrow> 'k \<Rightarrow> 'v \<Rightarrow> 's"
    and remove :: "'s \<Rightarrow> 'k \<Rightarrow> 's"
  assumes get_set: "get (set s k v) k' = (if k' = k then Some v else get s k')"
    and get_remove: "get (remove s k) k' = (if k' = k then None else get s k')"
    and set_set: "set (set s k v) k w = set s k w"
    and set_commute: "k \<noteq> k' \<Longrightarrow> set (set s k v) k' w = set (set s k' w) k v"
begin

lemma get_set_same [simp]: "get (set s k v) k = Some v"
  by (simp add: get_set)

lemma get_set_other [simp]: "k' \<noteq> k \<Longrightarrow> get (set s k v) k' = get s k'"
  by (simp add: get_set)

lemma get_remove_same [simp]: "get (remove s k) k = None"
  by (simp add: get_remove)

text \<open>The last of several writes to a key is the one that is read.\<close>

lemma foldl_set_same: "foldl (\<lambda>s v. set s k v) s (vs @ [v]) = set s k v"
proof (induction vs arbitrary: s)
  case Nil
  show ?case by simp
next
  case (Cons w vs)
  then show ?case by (simp add: set_set)
qed

lemma get_foldl_other: "k' \<noteq> k \<Longrightarrow> get (foldl (\<lambda>s v. set s k v) s vs) k' = get s k'"
  by (induction vs arbitrary: s) simp_all

end

interpretation persistent_tier: kv_tier persistent_get persistent_set persistent_remove
  by unfold_locales (auto simp: tier_defs fun_upd_twist)

interpretation instance_tier: kv_tier instance_get instance_set instance_remove
  by unfold_locales (auto simp: tier_defs fun_upd_twist)

interpretation temporary_tier: kv_tier temporary_get temporary_set temporary_remove
  by unfold_locales (auto simp: tier_defs fun_upd_twist)

text \<open>A write to one tier is invisible in the others, in the log and in the
  authorisations.\<close>

lemma tier_frame [simp]:
  "instance_get (persistent_set env k v) = instance_get env"
  "temporary_get (persistent_set env k v) = temporary_get env"
  "instance_get (persistent_remove env k) = instance_get env"
  "temporary_get (persistent_remove env k) = temporary_get env"
  "persistent_get (instance_set env k v) = persistent_get env"
  "temporary_get (instance_set env k v) = temporary_get env"
  "persistent_get (temporary_set env k v) = persistent_get env"
  "instance_get (temporary_set env k v) = instance_get env"
  "persistent_get (temporary_remove env k) = persistent_get env"
  "instance_get (temporary_remove env k) = instance_get env"
  by (simp_all add: tier_defs fun_eq_iff)

lemma env_frame [simp]:
  "events (persistent_set env k v) = events env"
  "events (persistent_remove env k) = events env"
  "events (instance_set env k v) = events env"
  "events (temporary_set env k v) = events env"
  "events (temporary_remove env k) = events env"
  "authorized (persistent_set env k v) = authorized env"
  "authorized (persistent_remove env k) = authorized env"
  "authorized (instance_set env k v) = authorized env"
  "authorized (temporary_set env k v) = authorized env"
  "authorized (temporary_remove env k) = authorized env"
  "sequence (persistent_set env k v) = sequence env"
  "sequence (instance_set env k v) = sequence env"
  "sequence (temporary_set env k v) = sequence env"
  by (simp_all add: tier_defs)

subsection \<open>Typed reads\<close>

text \<open>\<open>storage.get::<K, V>\<close> decodes the stored value and traps when it is not a \<open>V\<close>.\<close>

definition decode :: "(('m, 'u) Val \<Rightarrow> 'a option) \<Rightarrow> ('m, 'u) Val option \<Rightarrow> 'a option host" where
  "decode d v = (case v of None \<Rightarrow> Some None | Some x \<Rightarrow> map_option Some (d x))"

lemma decode_simps [simp]:
  "decode d None = Some None"
  "decode d (Some x) = map_option Some (d x)"
  by (simp_all add: decode_def)

fun as_tx :: "('m, 'u) Val \<Rightarrow> 'm Transaction_scheme option" where
  "as_tx (VTx x) = Some x" | "as_tx _ = None"
fun as_bool :: "('m, 'u) Val \<Rightarrow> bool option" where
  "as_bool (VBool x) = Some x" | "as_bool _ = None"
fun as_i128 :: "('m, 'u) Val \<Rightarrow> i128 option" where
  "as_i128 (VI128 x) = Some x" | "as_i128 _ = None"
fun as_u32 :: "('m, 'u) Val \<Rightarrow> u32 option" where
  "as_u32 (VU32 x) = Some x" | "as_u32 _ = None"
fun as_u64 :: "('m, 'u) Val \<Rightarrow> u64 option" where
  "as_u64 (VU64 x) = Some x" | "as_u64 _ = None"
fun as_addr :: "('m, 'u) Val \<Rightarrow> Address option" where
  "as_addr (VAddr x) = Some x" | "as_addr _ = None"
fun as_addrs :: "('m, 'u) Val \<Rightarrow> Address list option" where
  "as_addrs (VAddrs x) = Some x" | "as_addrs _ = None"
fun as_strs :: "('m, 'u) Val \<Rightarrow> string list option" where
  "as_strs (VStrs x) = Some x" | "as_strs _ = None"
fun as_ids :: "('m, 'u) Val \<Rightarrow> u64 list option" where
  "as_ids (VIds x) = Some x" | "as_ids _ = None"
fun as_withdrawal :: "('m, 'u) Val \<Rightarrow> PendingWithdrawal option" where
  "as_withdrawal (VWithdrawal x) = Some x" | "as_withdrawal _ = None"
fun as_config :: "('m, 'u) Val \<Rightarrow> TreasuryConfig option" where
  "as_config (VConfig x) = Some x" | "as_config _ = None"
fun as_bond :: "('m, 'u) Val \<Rightarrow> BondRecord option" where
  "as_bond (VBond x) = Some x" | "as_bond _ = None"
fun as_unbond :: "('m, 'u) Val \<Rightarrow> 'u option" where
  "as_unbond (VUnbond x) = Some x" | "as_unbond _ = None"

subsection \<open>Authorisation and events\<close>

definition require_auth :: "('m, 'u) Env \<Rightarrow> Address \<Rightarrow> unit host" where
  "require_auth env a = (if authorized env a then Some () else None)"

definition publish :: "('m, 'u) Env \<Rightarrow> Topic list \<Rightarrow> Payload \<Rightarrow> ('m, 'u) Env" where
  "publish env topics payload = env\<lparr>events := events env @ [(topics, payload)]\<rparr>"

lemma publish_frame [simp]:
  "persistent_get (publish env ts p) = persistent_get env"
  "instance_get (publish env ts p) = instance_get env"
  "temporary_get (publish env ts p) = temporary_get env"
  "authorized (publish env ts p) = authorized env"
  "sequence (publish env ts p) = sequence env"
  "events (publish env ts p) = events env @ [(ts, p)]"
  by (simp_all add: publish_def tier_defs fun_eq_iff)

text \<open>The host at the start of the contract's life: nothing stored, nothing emitted.\<close>

definition empty_env :: "(Address \<Rightarrow> bool) \<Rightarrow> ('m, 'u) Env" where
  "empty_env auths = \<lparr>persistent = Map.empty, inst = Map.empty, temporary = Map.empty,
     events = [], authorized = auths, sequence = 0\<rparr>"

lemma empty_env_get [simp]:
  "persistent_get (empty_env a) = Map.empty"
  "instance_get (empty_env a) = Map.empty"
  "temporary_get (empty_env a) = Map.empty"
  "events (empty_env a) = []"
  "authorized (empty_env a) = a"
  by (simp_all add: empty_env_def tier_defs fun_eq_iff)

subsection \<open>A setting kept under one key\<close>

text \<open>\<open>read\<close> may trap; a write makes the value readable, and only the last one counts.\<close>

locale cell =
  fixes read :: "'s \<Rightarrow> 'a option"
    and "write" :: "'s \<Rightarrow> 'a \<Rightarrow> 's"
  assumes read_write: "read (write s a) = Some a"
    and write_write: "write (write s a) b = write s b"
begin

lemma last_write_wins: "read (foldl write s (as @ [a])) = Some a"
  by (simp add: read_write)

lemma foldl_write: "foldl write s (as @ [a]) = write s a"
proof (induction as arbitrary: s)
  case Nil
  show ?case by simp
next
  case (Cons b as)
  then show ?case by (simp add: write_write)
qed

lemma write_inj: "write s a = write s b \<Longrightarrow> a = b"
  by (metis option.inject read_write)

end

end
