(* ===== verification/Treasury.thy ===== *)
theory Treasury
  imports Host
begin

text \<open>
  The treasury part of \<open>src/storage.rs\<close>: balance, configuration and epoch total in the
  instance tier, pending withdrawals in the persistent tier, the counter that numbers
  them, and the accrued-fee total.
\<close>

definition treasury_balance :: "('m, 'u) Env \<Rightarrow> i128 host" where [op_defs]:
  "treasury_balance env = do {
     o' \<leftarrow> decode as_i128 (instance_get env (TK TreasuryBalance));
     Some (unwrap_or o' 0) }"

definition set_treasury_balance :: "('m, 'u) Env \<Rightarrow> i128 \<Rightarrow> ('m, 'u) Env" where [op_defs]:
  "set_treasury_balance env balance = instance_set env (TK TreasuryBalance) (VI128 balance)"

definition treasury_config :: "('m, 'u) Env \<Rightarrow> TreasuryConfig option host" where [op_defs]:
  "treasury_config env = decode as_config (instance_get env (TK TreasuryConfig_key))"

definition set_treasury_config :: "('m, 'u) Env \<Rightarrow> TreasuryConfig \<Rightarrow> ('m, 'u) Env" where [op_defs]:
  "set_treasury_config env config = instance_set env (TK TreasuryConfig_key) (VConfig config)"

definition epoch_withdrawn :: "('m, 'u) Env \<Rightarrow> i128 host" where [op_defs]:
  "epoch_withdrawn env = do {
     o' \<leftarrow> decode as_i128 (instance_get env (TK EpochWithdrawn));
     Some (unwrap_or o' 0) }"

definition set_epoch_withdrawn :: "('m, 'u) Env \<Rightarrow> i128 \<Rightarrow> ('m, 'u) Env" where [op_defs]:
  "set_epoch_withdrawn env amount = instance_set env (TK EpochWithdrawn) (VI128 amount)"

definition next_withdrawal_id :: "('m, 'u) Env \<Rightarrow> (u64 \<times> ('m, 'u) Env) host" where [op_defs]:
  "next_withdrawal_id env = do {
     o' \<leftarrow> decode as_u64 (instance_get env (TK WithdrawalCounter));
     let id' = unwrap_or o' 0;
     next' \<leftarrow> incr64 id';
     Some (id', instance_set env (TK WithdrawalCounter) (VU64 next')) }"

definition set_pending_withdrawal ::
    "('m, 'u) Env \<Rightarrow> u64 \<Rightarrow> PendingWithdrawal \<Rightarrow> ('m, 'u) Env" where [op_defs]:
  "set_pending_withdrawal env i withdrawal =
     persistent_set env (TK (PendingWithdrawal_key i)) (VWithdrawal withdrawal)"

definition pending_withdrawal :: "('m, 'u) Env \<Rightarrow> u64 \<Rightarrow> PendingWithdrawal option host"
  where [op_defs]:
  "pending_withdrawal env i =
     decode as_withdrawal (persistent_get env (TK (PendingWithdrawal_key i)))"

definition remove_pending_withdrawal :: "('m, 'u) Env \<Rightarrow> u64 \<Rightarrow> ('m, 'u) Env" where [op_defs]:
  "remove_pending_withdrawal env i = persistent_remove env (TK (PendingWithdrawal_key i))"

definition get_treasury_accrued :: "('m, 'u) Env \<Rightarrow> i128 host" where [op_defs]:
  "get_treasury_accrued env = do {
     o' \<leftarrow> decode as_i128 (persistent_get env (DK TreasuryAccrued));
     Some (unwrap_or o' 0) }"

definition set_treasury_accrued :: "('m, 'u) Env \<Rightarrow> i128 \<Rightarrow> ('m, 'u) Env" where [op_defs]:
  "set_treasury_accrued env amount = persistent_set env (DK TreasuryAccrued) (VI128 amount)"

text \<open>The fee hook is a documented placeholder: it does nothing.\<close>

definition accrue_completion_fee :: "('m, 'u) Env \<Rightarrow> TxId \<Rightarrow> ('m, 'u) Env" where [op_defs]:
  "accrue_completion_fee env tx = env"

subsection \<open>Settings\<close>

interpretation balance_cell: cell treasury_balance set_treasury_balance
  by unfold_locales (simp_all add: op_defs instance_tier.set_set)

interpretation epoch_cell: cell epoch_withdrawn set_epoch_withdrawn
  by unfold_locales (simp_all add: op_defs instance_tier.set_set)

interpretation accrued_cell: cell get_treasury_accrued set_treasury_accrued
  by unfold_locales (simp_all add: op_defs persistent_tier.set_set)

interpretation config_cell: cell "\<lambda>env. Option.bind (treasury_config env) id" set_treasury_config
  by unfold_locales (simp_all add: op_defs instance_tier.set_set)

interpretation withdrawal_cell:
  cell "\<lambda>env. Option.bind (pending_withdrawal env i) id"
    "\<lambda>env. set_pending_withdrawal env i" for i
  by unfold_locales (simp_all add: op_defs persistent_tier.set_set)

subsection \<open>Withdrawal ids\<close>

text \<open>The value of the counter, \<open>0\<close> before the first allocation.\<close>

definition withdrawal_counter :: "('m, 'u) Env \<Rightarrow> u64 host" where
  "withdrawal_counter env = map_option (\<lambda>o'. unwrap_or o' 0)
     (decode as_u64 (instance_get env (TK WithdrawalCounter)))"

lemma next_withdrawal_id_cases:
  "next_withdrawal_id env = Some (i, env') \<longleftrightarrow>
     (\<exists>j. withdrawal_counter env = Some i \<and> incr64 i = Some j \<and>
          env' = instance_set env (TK WithdrawalCounter) (VU64 j))"
  by (auto simp: next_withdrawal_id_def withdrawal_counter_def Let_def bind_eq_Some_conv)

lemma next_withdrawal_id_counter:
  assumes "next_withdrawal_id env = Some (i, env')"
  shows "withdrawal_counter env = Some i \<and>
         (\<exists>j. withdrawal_counter env' = Some j \<and> unat j = Suc (unat i))"
  using assms unfolding next_withdrawal_id_cases
  by (auto simp: withdrawal_counter_def dest: incr64_unat)


subsection \<open>Properties\<close>

text \<open>Pending withdrawals are a map from ids: after a proposal is stored it is read back
  under its id until it is removed, removal leaves nothing, and neither touches another
  id.\<close>

theorem pending_withdrawal_map:
  "pending_withdrawal (set_pending_withdrawal env i w) j =
     (if j = i then Some (Some w) else pending_withdrawal env j) \<and>
   pending_withdrawal (remove_pending_withdrawal env i) j =
     (if j = i then Some None else pending_withdrawal env j) \<and>
   pending_withdrawal (remove_pending_withdrawal (set_pending_withdrawal env i w) i) j =
     pending_withdrawal (remove_pending_withdrawal env i) j"
  by (simp add: op_defs persistent_tier.get_set persistent_tier.get_remove)

text \<open>The treasury settings are separate cells: of any writes to one of them only the last
  is read, and it disturbs neither the others nor the id counter nor the pending
  withdrawals.\<close>

theorem treasury_cells:
  "treasury_balance (foldl set_treasury_balance env (bs @ [b])) = Some b \<and>
   epoch_withdrawn (foldl set_epoch_withdrawn env (bs @ [b])) = Some b \<and>
   get_treasury_accrued (foldl set_treasury_accrued env (bs @ [b])) = Some b \<and>
   treasury_config (set_treasury_balance env b) = treasury_config env \<and>
   epoch_withdrawn (set_treasury_balance env b) = epoch_withdrawn env \<and>
   treasury_balance (set_epoch_withdrawn env b) = treasury_balance env \<and>
   treasury_balance (set_treasury_config env c) = treasury_balance env \<and>
   epoch_withdrawn (set_treasury_config env c) = epoch_withdrawn env \<and>
   withdrawal_counter (set_treasury_balance env b) = withdrawal_counter env \<and>
   withdrawal_counter (set_epoch_withdrawn env b) = withdrawal_counter env \<and>
   pending_withdrawal (set_treasury_accrued env b) i = pending_withdrawal env i"
proof (intro conjI)
  show "treasury_balance (foldl set_treasury_balance env (bs @ [b])) = Some b"
    by (rule balance_cell.last_write_wins)
  show "epoch_withdrawn (foldl set_epoch_withdrawn env (bs @ [b])) = Some b"
    by (rule epoch_cell.last_write_wins)
  show "get_treasury_accrued (foldl set_treasury_accrued env (bs @ [b])) = Some b"
    by (rule accrued_cell.last_write_wins)
qed (simp_all add: op_defs withdrawal_counter_def)

end
