(* ===== verification/Lifecycle.thy ===== *)
theory Lifecycle
  imports Host
begin

text \<open>
  The transaction records and the status transitions of \<open>src/storage.rs\<close>: the guard
  \<open>transition_status\<close> and the four lifecycle operations built on it, their abstract
  state machine, and the refinement between the two.

  \<open>MAX_REASON_LEN\<close> and \<open>put_transaction\<close> are named by the code but defined nowhere
  under \<open>src/\<close>; they are the parameters \<open>max_reason\<close> and \<open>put\<close>.
\<close>

subsection \<open>Records\<close>

text \<open>The body of \<open>get_transaction\<close> stands under a second \<open>set_transaction\<close> header.\<close>

definition get_transaction :: "('m, 'u) Env \<Rightarrow> TxId \<Rightarrow> 'm Transaction_scheme option host"
  where [op_defs]:
  "get_transaction env i = decode as_tx (persistent_get env (DK (Transaction_key i)))"

definition set_transaction :: "('m, 'u) Env \<Rightarrow> 'm Transaction_scheme \<Rightarrow> ('m, 'u) Env"
  where [op_defs]:
  "set_transaction env tx = persistent_set env (DK (Transaction_key (tx_id tx))) (VTx tx)"

definition has_transaction :: "('m, 'u) Env \<Rightarrow> TxId \<Rightarrow> bool" where [op_defs]:
  "has_transaction env i = (persistent_get env (DK (Transaction_key i)) \<noteq> None)"

definition get_registering_relay :: "('m, 'u) Env \<Rightarrow> TxId \<Rightarrow> Address option host"
  where [op_defs]:
  "get_registering_relay env i = do {
     o' \<leftarrow> get_transaction env i;
     Some (Option.bind o' tx_relay_signer) }"

definition set_stellar_tx_hash ::
    "(('m, 'u) Env \<Rightarrow> 'm Transaction_scheme \<Rightarrow> ('m, 'u) Env) \<Rightarrow>
     ('m, 'u) Env \<Rightarrow> TxId \<Rightarrow> bytes32 \<Rightarrow> ('m, 'u) Env host" where
  "set_stellar_tx_hash put env i stellar_tx_hash = do {
     o' \<leftarrow> get_transaction env i;
     tx \<leftarrow> o';
     Some (put env (tx\<lparr>tx_stellar_tx_hash := Some stellar_tx_hash\<rparr>)) }"

text \<open>The call passes \<open>set_transaction\<close> a third argument, the id; the record goes under
  the id it carries.\<close>

definition set_transaction_status ::
    "('m, 'u) Env \<Rightarrow> u64 \<Rightarrow> TransactionStatus \<Rightarrow> ('m, 'u) Env host" where
  "set_transaction_status env i status = do {
     o' \<leftarrow> get_transaction env (TxU64 i);
     Some (case o' of None \<Rightarrow> env | Some tx \<Rightarrow> set_transaction env (tx\<lparr>tx_status := status\<rparr>)) }"

subsection \<open>Transitions\<close>

definition transition_status ::
    "('m, 'u) Env \<Rightarrow> TxId \<Rightarrow> TransactionStatus list \<Rightarrow> TransactionStatus \<Rightarrow> Address \<Rightarrow>
     string option \<Rightarrow> ((TransitionError + 'm Transaction_scheme) \<times> ('m, 'u) Env) host" where
  "transition_status env i valid_sources target c reason = do {
     o' \<leftarrow> get_transaction env i;
     Some (case o' of
       None \<Rightarrow> (Inl NotFound, env)
     | Some tx \<Rightarrow>
         (if tx_status tx \<notin> set valid_sources then (Inl InvalidSource, env)
          else let tx' = tx\<lparr>tx_status := target, tx_caller := c, tx_reason := reason\<rparr>
               in (Inr tx', set_transaction env tx'))) }"

definition assert_status_and_transition ::
    "('m, 'u) Env \<Rightarrow> TxId \<Rightarrow> TransactionStatus \<Rightarrow> TransactionStatus \<Rightarrow> Address \<Rightarrow>
     string option \<Rightarrow> ((TransitionError + 'm Transaction_scheme) \<times> ('m, 'u) Env) host" where
  "assert_status_and_transition env i from_status to_status c reason =
     transition_status env i [from_status] to_status c reason"

definition start_processing ::
    "('m, 'u) Env \<Rightarrow> TxId \<Rightarrow> Address \<Rightarrow>
     ((TransitionError + 'm Transaction_scheme) \<times> ('m, 'u) Env) host" where
  "start_processing env i c = assert_status_and_transition env i Pending Processing c None"

definition complete_transaction ::
    "('m, 'u) Env \<Rightarrow> TxId \<Rightarrow> Address \<Rightarrow>
     ((TransitionError + 'm Transaction_scheme) \<times> ('m, 'u) Env) host" where
  "complete_transaction env i c = assert_status_and_transition env i Processing Completed c None"

definition cancel_transaction ::
    "nat \<Rightarrow> ('m, 'u) Env \<Rightarrow> TxId \<Rightarrow> string \<Rightarrow> Address \<Rightarrow>
     ((TransitionError + 'm Transaction_scheme) \<times> ('m, 'u) Env) host" where
  "cancel_transaction max_reason env i reason c =
     (if length reason > max_reason then Some (Inl InvalidSource, env)
      else transition_status env i [Pending, Processing] Cancelled c (Some reason))"

definition fail_transaction ::
    "nat \<Rightarrow> ('m, 'u) Env \<Rightarrow> TxId \<Rightarrow> string \<Rightarrow> Address \<Rightarrow>
     ((TransitionError + 'm Transaction_scheme) \<times> ('m, 'u) Env) host" where
  "fail_transaction max_reason env i reason c =
     (if length reason > max_reason then Some (Inl InvalidSource, env)
      else transition_status env i [Pending, Processing] Failed c (Some reason))"

subsection \<open>The invariant of the transaction records\<close>

text \<open>Every value under a transaction key is a record, and it carries the id it is filed
  under.  The second half matters: \<open>transition_status\<close> looks a record up under one id and
  writes it back under the id the record carries.\<close>

definition tx_wf :: "('m, 'u) Env \<Rightarrow> bool" where
  "tx_wf env \<longleftrightarrow> (\<forall>i v. persistent_get env (DK (Transaction_key i)) = Some v \<longrightarrow>
     (\<exists>tx. v = VTx tx \<and> tx_id tx = i))"

definition status_of :: "('m, 'u) Env \<Rightarrow> TxId \<Rightarrow> TransactionStatus option" where
  "status_of env i = Option.bind (persistent_get env (DK (Transaction_key i)))
     (\<lambda>v. map_option tx_status (as_tx v))"

lemma tx_wf_empty [simp]: "tx_wf (empty_env a)"
  by (simp add: tx_wf_def)

lemma tx_wf_get:
  assumes "tx_wf env"
  obtains "get_transaction env i = Some None" "status_of env i = None"
        "persistent_get env (DK (Transaction_key i)) = None"
  | tx where "get_transaction env i = Some (Some tx)" "status_of env i = Some (tx_status tx)"
        "tx_id tx = i" "persistent_get env (DK (Transaction_key i)) = Some (VTx tx)"
proof (cases "persistent_get env (DK (Transaction_key i))")
  case None
  then show ?thesis using that(1) by (simp add: get_transaction_def status_of_def)
next
  case (Some v)
  with assms obtain tx where "v = VTx tx" "tx_id tx = i" by (auto simp: tx_wf_def)
  with Some show ?thesis using that(2) by (simp add: get_transaction_def status_of_def)
qed

lemma tx_wf_set_transaction: "tx_wf env \<Longrightarrow> tx_wf (set_transaction env tx)"
  by (auto simp: tx_wf_def set_transaction_def persistent_tier.get_set)

lemma status_of_set_transaction [simp]:
  "status_of (set_transaction env tx) = (status_of env)(tx_id tx \<mapsto> tx_status tx)"
  by (auto simp: fun_eq_iff status_of_def set_transaction_def persistent_tier.get_set)

lemma get_set_transaction [simp]:
  "get_transaction (set_transaction env tx) i =
     (if i = tx_id tx then Some (Some tx) else get_transaction env i)"
  by (simp add: get_transaction_def set_transaction_def persistent_tier.get_set)

lemma authorized_set_transaction [simp]: "authorized (set_transaction env tx) = authorized env"
  by (simp add: set_transaction_def)

subsection \<open>A store for the witnesses\<close>

definition example_tx :: Transaction where
  "example_tx = \<lparr>tx_id = TxSymbol ''t1'', tx_status = Pending, tx_caller = ''GRELAY'',
     tx_reason = None, tx_relay_signer = Some ''GRELAY'', tx_stellar_tx_hash = None\<rparr>"

definition example_env :: "(unit, unit) Env" where
  "example_env = set_transaction (empty_env (\<lambda>_. True)) example_tx"

lemma example_env_facts:
  "tx_wf example_env"
  "status_of example_env (TxSymbol ''t1'') = Some Pending"
  "status_of example_env (TxSymbol ''t2'') = None"
  by (simp_all add: example_env_def tx_wf_set_transaction example_tx_def, simp add: status_of_def)

text \<open>Recording the payment hash: under a store whose client writes with
  \<open>set_transaction\<close>, the call traps exactly when the transaction is missing or unreadable;
  otherwise it sets the hash of that record, keeps its status, caller, reason and signer, and
  changes no other record.\<close>

theorem set_stellar_tx_hash_spec:
  assumes "tx_wf env"
  shows "case status_of env i of
      None \<Rightarrow> set_stellar_tx_hash set_transaction env i h = None
    | Some s \<Rightarrow> \<exists>tx env'. get_transaction env i = Some (Some tx) \<and>
        set_stellar_tx_hash set_transaction env i h = Some env' \<and>
        get_transaction env' i = Some (Some (tx\<lparr>tx_stellar_tx_hash := Some h\<rparr>)) \<and>
        status_of env' = status_of env \<and>
        (\<forall>j. j \<noteq> i \<longrightarrow> get_transaction env' j = get_transaction env j)"
  using assms
proof (cases rule: tx_wf_get [where i = i])
  case 1
  then show ?thesis by (simp add: set_stellar_tx_hash_def)
next
  case (2 tx)
  then have "(status_of env)(i \<mapsto> tx_status tx) = status_of env" by (simp add: fun_upd_idem)
  with 2 show ?thesis by (simp add: set_stellar_tx_hash_def)
qed

theorem set_stellar_tx_hash_spec_witness:
  "set_stellar_tx_hash set_transaction example_env (TxSymbol ''t2'') [1] = None \<and>
   (\<exists>env'. set_stellar_tx_hash set_transaction example_env (TxSymbol ''t1'') [1] = Some env' \<and>
      status_of env' = status_of example_env)"
  using set_stellar_tx_hash_spec [OF example_env_facts(1), of "TxSymbol ''t2''" "[1]"]
    set_stellar_tx_hash_spec [OF example_env_facts(1), of "TxSymbol ''t1''" "[1]"]
  by (auto simp: example_env_facts(2) example_env_facts(3))

end
