(* ===== verification/Lifecycle_Spec.thy ===== *)
theory Lifecycle_Spec
  imports Lifecycle
begin

text \<open>
  What the lifecycle operations promise: an abstract machine over the map from transaction
  ids to statuses, the locale that states the promise once for all four operations, its
  four interpretations, and sequences of calls.
\<close>

subsection \<open>The abstract machine\<close>

text \<open>The transitions the repository documents (README, THREAT_MODEL, the comment of
  \<open>assert_status_and_transition\<close>).\<close>

inductive lifecycle :: "TransactionStatus \<Rightarrow> TransactionStatus \<Rightarrow> bool" where
  start: "lifecycle Pending Processing"
| complete: "lifecycle Processing Completed"
| fail: "s \<in> {Pending, Processing} \<Longrightarrow> lifecycle s Failed"
| cancel: "s \<in> {Pending, Processing} \<Longrightarrow> lifecycle s Cancelled"

code_pred lifecycle .

inductive_cases lifecycle_from: "lifecycle s t"
inductive_simps lifecycle_to: "lifecycle s t"

definition terminal :: "TransactionStatus \<Rightarrow> bool" where
  "terminal s \<longleftrightarrow> s \<in> {Completed, Failed, Cancelled}"

lemma terminal_no_lifecycle: "terminal s \<Longrightarrow> \<not> lifecycle s t"
  by (auto simp: terminal_def lifecycle_to)

text \<open>What is left of a transaction's life: every transition lowers it.\<close>

fun rank :: "TransactionStatus \<Rightarrow> nat" where
  "rank Pending = 2"
| "rank Processing = 1"
| "rank _ = 0"

lemma lifecycle_rank: "lifecycle s t \<Longrightarrow> rank t < rank s"
  by (auto elim: lifecycle_from)

lemma rank_le: "rank s \<le> 2"
  by (cases s) simp_all

type_synonym status_map = "TxId \<Rightarrow> TransactionStatus option"

definition spec_transition ::
    "bool \<Rightarrow> TransactionStatus set \<Rightarrow> TransactionStatus \<Rightarrow> status_map \<Rightarrow> TxId \<Rightarrow>
     TransitionError option \<times> status_map" where
  "spec_transition guard sources target m i =
     (if \<not> guard then (Some InvalidSource, m)
      else case m i of
        None \<Rightarrow> (Some NotFound, m)
      | Some s \<Rightarrow> if s \<in> sources then (None, m(i \<mapsto> target)) else (Some InvalidSource, m))"

definition error_of :: "'e + 'a \<Rightarrow> 'e option" where
  "error_of r = (case r of Inl e \<Rightarrow> Some e | Inr _ \<Rightarrow> None)"

lemma error_of_simps [simp]:
  "error_of (Inl e) = Some e"
  "error_of (Inr a) = None"
  by (simp_all add: error_of_def)

subsection \<open>The contract of a lifecycle operation\<close>

locale guarded_transition =
  fixes op :: "('m, 'u) Env \<Rightarrow> TxId \<Rightarrow> Address \<Rightarrow>
      ((TransitionError + 'm Transaction_scheme) \<times> ('m, 'u) Env) host"
    and guard :: bool
    and sources :: "TransactionStatus set"
    and target :: TransactionStatus
    and reason :: "string option"
  assumes unguarded: "\<not> guard \<Longrightarrow> op env i c = Some (Inl InvalidSource, env)"
    and missing: "guard \<Longrightarrow> get_transaction env i = Some None \<Longrightarrow>
      op env i c = Some (Inl NotFound, env)"
    and blocked: "guard \<Longrightarrow> get_transaction env i = Some (Some tx) \<Longrightarrow>
      tx_status tx \<notin> sources \<Longrightarrow> op env i c = Some (Inl InvalidSource, env)"
    and moves: "guard \<Longrightarrow> get_transaction env i = Some (Some tx) \<Longrightarrow> tx_status tx \<in> sources \<Longrightarrow>
      op env i c = Some (Inr (tx\<lparr>tx_status := target, tx_caller := c, tx_reason := reason\<rparr>),
        set_transaction env (tx\<lparr>tx_status := target, tx_caller := c, tx_reason := reason\<rparr>))"
begin

lemma outcome:
  assumes "tx_wf env"
  obtains (refused) e where "op env i c = Some (Inl e, env)"
      "spec_transition guard sources target (status_of env) i = (Some e, status_of env)"
  | (moved) tx tx' where "op env i c = Some (Inr tx', set_transaction env tx')"
      "tx' = tx\<lparr>tx_status := target, tx_caller := c, tx_reason := reason\<rparr>"
      "get_transaction env i = Some (Some tx)" "tx_id tx = i" "tx_status tx \<in> sources"
      "status_of env i = Some (tx_status tx)" "guard"
  using assms
proof (cases rule: tx_wf_get [where i = i])
  case 1
  then show ?thesis using refused
    by (cases guard) (auto simp: unguarded missing spec_transition_def)
next
  case (2 tx)
  show ?thesis
  proof (cases "guard \<and> tx_status tx \<in> sources")
    case True
    with 2 show ?thesis using moved moves by blast
  next
    case False
    with 2 show ?thesis using refused
      by (cases guard) (auto simp: unguarded blocked spec_transition_def)
  qed
qed

lemma total: "tx_wf env \<Longrightarrow> \<exists>r env'. op env i c = Some (r, env')"
  by (rule outcome [of env i c]) auto

lemma refines:
  assumes "tx_wf env" and "op env i c = Some (r, env')"
  shows "(error_of r, status_of env') = spec_transition guard sources target (status_of env) i"
  using assms(1)
proof (cases rule: outcome [where i = i and c = c])
  case (refused e)
  with assms(2) show ?thesis by auto
next
  case (moved tx tx')
  with assms(2) show ?thesis by (auto simp: spec_transition_def)
qed

lemma keeps_wf: "tx_wf env \<Longrightarrow> op env i c = Some (r, env') \<Longrightarrow> tx_wf env'"
  by (rule outcome [of env i c]) (auto intro: tx_wf_set_transaction)

lemma error_unchanged: "tx_wf env \<Longrightarrow> op env i c = Some (Inl e, env') \<Longrightarrow> env' = env"
  by (rule outcome [of env i c]) auto

lemma frame:
  assumes "tx_wf env" and "op env i c = Some (r, env')"
  shows "k \<noteq> DK (Transaction_key i) \<Longrightarrow> persistent_get env' k = persistent_get env k"
    and "instance_get env' = instance_get env"
    and "temporary_get env' = temporary_get env"
    and "events env' = events env"
    and "authorized env' = authorized env"
  using assms by (cases rule: outcome [OF assms(1), where i = i and c = c];
      auto simp: set_transaction_def)+

lemma result:
  assumes "tx_wf env" and "op env i c = Some (Inr tx', env')"
  shows "get_transaction env' i = Some (Some tx')"
    and "\<exists>tx. get_transaction env i = Some (Some tx) \<and> tx_status tx \<in> sources \<and>
      tx' = tx\<lparr>tx_status := target, tx_caller := c, tx_reason := reason\<rparr>"
  using assms by (cases rule: outcome [OF assms(1), where i = i and c = c]; auto)+

end

lemmas transition_defs = transition_status_def assert_status_and_transition_def
  start_processing_def complete_transaction_def cancel_transaction_def fail_transaction_def

interpretation start_op: guarded_transition start_processing True "{Pending}" Processing None
  by unfold_locales (auto simp: transition_defs Let_def)

interpretation complete_op:
  guarded_transition complete_transaction True "{Processing}" Completed None
  by unfold_locales (auto simp: transition_defs Let_def)

interpretation cancel_op:
  guarded_transition "\<lambda>env i c. cancel_transaction max_reason env i reason c"
    "length reason \<le> max_reason" "{Pending, Processing}" Cancelled "Some reason"
  for max_reason reason
  by unfold_locales (auto simp: transition_defs Let_def)

interpretation fail_op:
  guarded_transition "\<lambda>env i c. fail_transaction max_reason env i reason c"
    "length reason \<le> max_reason" "{Pending, Processing}" Failed "Some reason"
  for max_reason reason
  by unfold_locales (auto simp: transition_defs Let_def)

end
