(* ===== verification/Lifecycle_Calls.thy ===== *)
theory Lifecycle_Calls
  imports Lifecycle_Spec
begin

text \<open>
  Sequences of lifecycle calls by any callers on any transactions: their execution on the
  store, their execution on the abstract machine, the refinement between the two, and the
  properties every sequence has.
\<close>

datatype lifecycle_call =
    Start TxId Address
  | Complete TxId Address
  | Cancel TxId string Address
  | Fail TxId string Address

fun call_tx :: "lifecycle_call \<Rightarrow> TxId" where
  "call_tx (Start i _) = i"
| "call_tx (Complete i _) = i"
| "call_tx (Cancel i _ _) = i"
| "call_tx (Fail i _ _) = i"

fun exec_call :: "nat \<Rightarrow> ('m, 'u) Env \<Rightarrow> lifecycle_call \<Rightarrow>
    ((TransitionError + 'm Transaction_scheme) \<times> ('m, 'u) Env) host" where
  "exec_call max_reason env (Start i c) = start_processing env i c"
| "exec_call max_reason env (Complete i c) = complete_transaction env i c"
| "exec_call max_reason env (Cancel i r c) = cancel_transaction max_reason env i r c"
| "exec_call max_reason env (Fail i r c) = fail_transaction max_reason env i r c"

fun spec_call :: "nat \<Rightarrow> status_map \<Rightarrow> lifecycle_call \<Rightarrow> TransitionError option \<times> status_map" where
  "spec_call max_reason m (Start i _) = spec_transition True {Pending} Processing m i"
| "spec_call max_reason m (Complete i _) = spec_transition True {Processing} Completed m i"
| "spec_call max_reason m (Cancel i r _) =
     spec_transition (length r \<le> max_reason) {Pending, Processing} Cancelled m i"
| "spec_call max_reason m (Fail i r _) =
     spec_transition (length r \<le> max_reason) {Pending, Processing} Failed m i"

fun exec_calls :: "nat \<Rightarrow> ('m, 'u) Env \<Rightarrow> lifecycle_call list \<Rightarrow>
    (TransitionError option list \<times> ('m, 'u) Env) host" where
  "exec_calls max_reason env [] = Some ([], env)"
| "exec_calls max_reason env (x # xs) = do {
     (r, env1) \<leftarrow> exec_call max_reason env x;
     (es, env2) \<leftarrow> exec_calls max_reason env1 xs;
     Some (error_of r # es, env2) }"

fun spec_calls :: "nat \<Rightarrow> status_map \<Rightarrow> lifecycle_call list \<Rightarrow> TransitionError option list \<times> status_map"
  where
  "spec_calls max_reason m [] = ([], m)"
| "spec_calls max_reason m (x # xs) =
     (case spec_call max_reason m x of (e, m1) \<Rightarrow>
       case spec_calls max_reason m1 xs of (es, m2) \<Rightarrow> (e # es, m2))"

subsection \<open>One call\<close>

lemma exec_call_total: "tx_wf env \<Longrightarrow> \<exists>r env'. exec_call max_reason env x = Some (r, env')"
  by (cases x) (simp_all add: start_op.total complete_op.total cancel_op.total fail_op.total)

lemma exec_call_refines:
  "tx_wf env \<Longrightarrow> exec_call max_reason env x = Some (r, env') \<Longrightarrow>
     spec_call max_reason (status_of env) x = (error_of r, status_of env')"
  by (cases x) (simp_all add: start_op.refines complete_op.refines cancel_op.refines fail_op.refines)

lemma exec_call_wf:
  "tx_wf env \<Longrightarrow> exec_call max_reason env x = Some (r, env') \<Longrightarrow> tx_wf env'"
  by (cases x)
    (auto intro: start_op.keeps_wf complete_op.keeps_wf cancel_op.keeps_wf fail_op.keeps_wf)

lemma exec_call_frame:
  assumes "tx_wf env" "exec_call max_reason env x = Some (r, env')"
  shows "k \<noteq> DK (Transaction_key (call_tx x)) \<Longrightarrow> persistent_get env' k = persistent_get env k"
    and "instance_get env' = instance_get env"
    and "temporary_get env' = temporary_get env"
    and "events env' = events env"
    and "authorized env' = authorized env"
  using assms
  by (cases x; simp add: start_op.frame complete_op.frame cancel_op.frame fail_op.frame)+

lemma spec_transition_cases:
  "(\<exists>e. spec_transition g S t m i = (Some e, m)) \<or>
   (\<exists>s \<in> S. spec_transition g S t m i = (None, m(i \<mapsto> t)) \<and> m i = Some s)"
  by (cases "m i") (auto simp: spec_transition_def)

lemma spec_call_cases:
  obtains e where "spec_call max_reason m x = (Some e, m)"
  | s t where "spec_call max_reason m x = (None, m(call_tx x \<mapsto> t))" "m (call_tx x) = Some s"
      "lifecycle s t"
proof -
  have "(\<exists>e. spec_call max_reason m x = (Some e, m)) \<or>
    (\<exists>s t. spec_call max_reason m x = (None, m(call_tx x \<mapsto> t)) \<and> m (call_tx x) = Some s \<and>
      lifecycle s t)"
  proof (cases x)
    case (Start i c)
    with spec_transition_cases [of True "{Pending}" Processing m i] show ?thesis
      by (auto intro: lifecycle.intros)
  next
    case (Complete i c)
    with spec_transition_cases [of True "{Processing}" Completed m i] show ?thesis
      by (auto intro: lifecycle.intros)
  next
    case (Cancel i r c)
    with spec_transition_cases [of "length r \<le> max_reason" "{Pending, Processing}" Cancelled m i]
    show ?thesis by (auto intro: lifecycle.intros)
  next
    case (Fail i r c)
    with spec_transition_cases [of "length r \<le> max_reason" "{Pending, Processing}" Failed m i]
    show ?thesis by (auto intro: lifecycle.intros)
  qed
  then show ?thesis using that by blast
qed

subsection \<open>Sequences\<close>

lemma exec_calls_refines:
  "tx_wf env \<Longrightarrow> \<exists>env'. exec_calls max_reason env xs =
       Some (fst (spec_calls max_reason (status_of env) xs), env') \<and> tx_wf env' \<and>
     status_of env' = snd (spec_calls max_reason (status_of env) xs)"
proof (induction xs arbitrary: env)
  case Nil
  then show ?case by simp
next
  case (Cons x xs)
  from exec_call_total [OF Cons.prems] obtain r env1
    where x: "exec_call max_reason env x = Some (r, env1)" by blast
  note r = exec_call_refines [OF Cons.prems x]
  from Cons.IH [OF exec_call_wf [OF Cons.prems x]] x r show ?case
    by (auto split: prod.splits)
qed

lemma spec_calls_Cons:
  "fst (spec_calls max_reason m (x # xs)) =
     fst (spec_call max_reason m x) # fst (spec_calls max_reason (snd (spec_call max_reason m x)) xs)"
  "snd (spec_calls max_reason m (x # xs)) =
     snd (spec_calls max_reason (snd (spec_call max_reason m x)) xs)"
  by (simp_all split: prod.splits)

text \<open>Per transaction: a call leaves the status alone or takes one lifecycle step, so a
  sequence moves it along lifecycle steps only.\<close>

lemma spec_call_step:
  "snd (spec_call max_reason m x) i = m i \<or>
     (\<exists>s t. m i = Some s \<and> snd (spec_call max_reason m x) i = Some t \<and> lifecycle s t)"
  by (rule spec_call_cases [of max_reason m x]; cases "call_tx x = i"; simp)

lemma spec_calls_path:
  "case m i of None \<Rightarrow> snd (spec_calls max_reason m xs) i = None
   | Some s \<Rightarrow> \<exists>t. snd (spec_calls max_reason m xs) i = Some t \<and> lifecycle\<^sup>*\<^sup>* s t"
proof (induction xs arbitrary: m)
  case Nil
  show ?case by (simp split: option.split)
next
  case (Cons x xs)
  from spec_call_step [of max_reason m x i] Cons.IH [of "snd (spec_call max_reason m x)"]
  show ?case unfolding spec_calls_Cons
    by (auto split: option.splits intro: converse_rtranclp_into_rtranclp)
qed

lemma terminal_stays: "lifecycle\<^sup>*\<^sup>* s t \<Longrightarrow> terminal s \<Longrightarrow> t = s"
  by (erule converse_rtranclpE) (auto dest: terminal_no_lifecycle)

text \<open>How many calls of a sequence succeeded on a transaction.\<close>

fun successes :: "TxId \<Rightarrow> lifecycle_call list \<Rightarrow> TransitionError option list \<Rightarrow> nat" where
  "successes i (x # xs) (e # es) =
     (if call_tx x = i \<and> e = None then 1 else 0) + successes i xs es"
| "successes i _ _ = 0"

definition life_left :: "status_map \<Rightarrow> TxId \<Rightarrow> nat" where
  "life_left m i = (case m i of None \<Rightarrow> 0 | Some s \<Rightarrow> rank s)"

lemma spec_call_life:
  "(if call_tx x = i \<and> fst (spec_call max_reason m x) = None then 1 else 0) +
     life_left (snd (spec_call max_reason m x)) i \<le> life_left m i"
  by (rule spec_call_cases [of max_reason m x])
    (auto simp: life_left_def Suc_le_eq dest!: lifecycle_rank)

lemma spec_calls_successes:
  "successes i xs (fst (spec_calls max_reason m xs)) \<le> life_left m i"
proof (induction xs arbitrary: m)
  case Nil
  show ?case by simp
next
  case (Cons x xs)
  from Cons.IH [of "snd (spec_call max_reason m x)"] spec_call_life [of x i max_reason m]
  show ?case unfolding spec_calls_Cons successes.simps by linarith
qed

subsection \<open>The reason of a record\<close>

text \<open>A failed or cancelled record carries a reason that fits; a processing or completed one
  carries none.\<close>

definition reason_ok :: "nat \<Rightarrow> 'm Transaction_scheme \<Rightarrow> bool" where
  "reason_ok max_reason tx \<longleftrightarrow> (case tx_status tx of
     Failed \<Rightarrow> \<exists>r. tx_reason tx = Some r \<and> length r \<le> max_reason
   | Cancelled \<Rightarrow> \<exists>r. tx_reason tx = Some r \<and> length r \<le> max_reason
   | Processing \<Rightarrow> tx_reason tx = None
   | Completed \<Rightarrow> tx_reason tx = None
   | _ \<Rightarrow> True)"

definition reasons_ok :: "nat \<Rightarrow> ('m, 'u) Env \<Rightarrow> bool" where
  "reasons_ok max_reason env \<longleftrightarrow>
     (\<forall>i tx. get_transaction env i = Some (Some tx) \<longrightarrow> reason_ok max_reason tx)"

lemma exec_call_writes:
  assumes "exec_call max_reason env x = Some (r, env')"
  shows "env' = env \<or> (\<exists>tx. env' = set_transaction env tx \<and> reason_ok max_reason tx)"
  using assms
  by (cases x) (auto simp: transition_defs bind_eq_Some_conv Let_def reason_ok_def
      split: if_splits option.splits)

lemma exec_call_reasons:
  "exec_call max_reason env x = Some (r, env') \<Longrightarrow> reasons_ok max_reason env \<Longrightarrow>
     reasons_ok max_reason env'"
  using exec_call_writes by (fastforce simp: reasons_ok_def)

lemma exec_calls_reasons:
  "exec_calls max_reason env xs = Some (es, env') \<Longrightarrow> reasons_ok max_reason env \<Longrightarrow>
     reasons_ok max_reason env'"
proof (induction xs arbitrary: env es)
  case Nil
  then show ?case by simp
next
  case (Cons x xs)
  then show ?case by (auto simp: bind_eq_Some_conv dest: exec_call_reasons)
qed

lemma exec_calls_untouched:
  assumes "exec_calls max_reason env xs = Some (es, env')" "tx_wf env" "\<forall>x \<in> set xs. call_tx x \<noteq> i"
  shows "persistent_get env' (DK (Transaction_key i)) = persistent_get env (DK (Transaction_key i)) \<and>
    instance_get env' = instance_get env \<and> temporary_get env' = temporary_get env \<and>
    events env' = events env"
  using assms
proof (induction xs arbitrary: env es)
  case Nil
  then show ?case by simp
next
  case (Cons x xs)
  then obtain r env1 es' where x: "exec_call max_reason env x = Some (r, env1)"
    and xs: "exec_calls max_reason env1 xs = Some (es', env')"
    by (auto simp: bind_eq_Some_conv)
  from exec_call_frame(1) [OF Cons.prems(2) x, of "DK (Transaction_key i)"] Cons.prems(3)
  have "persistent_get env1 (DK (Transaction_key i)) = persistent_get env (DK (Transaction_key i))"
    by auto
  with Cons.IH [OF xs exec_call_wf [OF Cons.prems(2) x]] Cons.prems(3)
    exec_call_frame(2-4) [OF Cons.prems(2) x] show ?case by simp
qed

subsection \<open>Properties\<close>

text \<open>C1. Refinement: on a well-formed store every sequence of lifecycle calls, by any
  callers on any transactions, runs to the end without a trap, returns exactly the errors of
  the abstract machine over statuses, and leaves a well-formed store with its statuses.\<close>

theorem lifecycle_refinement:
  assumes "tx_wf env"
  shows "\<exists>env'. exec_calls max_reason env xs =
      Some (fst (spec_calls max_reason (status_of env) xs), env') \<and> tx_wf env' \<and>
    status_of env' = snd (spec_calls max_reason (status_of env) xs)"
  by (rule exec_calls_refines [OF assms])

theorem lifecycle_refinement_witness:
  "\<exists>env'. exec_calls 64 example_env [Complete (TxSymbol ''t1'') ''GR'', Start (TxSymbol ''t1'') ''GR'',
       Cancel (TxSymbol ''t1'') ''late'' ''GA'', Fail (TxSymbol ''t1'') ''late'' ''GA'',
       Start (TxSymbol ''t2'') ''GR'']
     = Some ([Some InvalidSource, None, None, Some InvalidSource, Some NotFound], env') \<and>
     status_of env' (TxSymbol ''t1'') = Some Cancelled"
  using lifecycle_refinement [OF example_env_facts(1), of 64 "[Complete (TxSymbol ''t1'') ''GR'',
      Start (TxSymbol ''t1'') ''GR'', Cancel (TxSymbol ''t1'') ''late'' ''GA'',
      Fail (TxSymbol ''t1'') ''late'' ''GA'', Start (TxSymbol ''t2'') ''GR'']"]
  by (auto simp: spec_transition_def example_env_facts)

text \<open>C2. Through any sequence of calls the status of every transaction moves along lifecycle
  transitions only, a completed, failed or cancelled transaction keeps its status for ever,
  and no call creates a transaction.\<close>

theorem lifecycle_path:
  assumes "tx_wf env" "exec_calls max_reason env xs = Some (es, env')"
  shows "case status_of env i of
      None \<Rightarrow> status_of env' i = None
    | Some s \<Rightarrow> \<exists>t. status_of env' i = Some t \<and> lifecycle\<^sup>*\<^sup>* s t \<and> (terminal s \<longrightarrow> t = s)"
  using exec_calls_refines [OF assms(1), of max_reason xs] assms(2)
    spec_calls_path [where m = "status_of env" and i = i and max_reason = max_reason and xs = xs]
  by (auto split: option.splits dest: terminal_stays)

theorem lifecycle_path_witness:
  "\<exists>es env' t. exec_calls 64 example_env [Start (TxSymbol ''t1'') ''GR''] = Some (es, env') \<and>
     status_of env' (TxSymbol ''t1'') = Some t \<and> lifecycle\<^sup>*\<^sup>* Pending t"
proof -
  obtain es env' where e: "exec_calls 64 example_env [Start (TxSymbol ''t1'') ''GR''] = Some (es, env')"
    using exec_calls_refines [OF example_env_facts(1), of 64 "[Start (TxSymbol ''t1'') ''GR'']"] by blast
  from e lifecycle_path [OF example_env_facts(1) e, of "TxSymbol ''t1''"] show ?thesis
    unfolding example_env_facts(2) option.case by blast
qed

text \<open>At most two calls of any sequence succeed on one transaction: at most two from
  \<open>Pending\<close>, one from \<open>Processing\<close>, none from any other status or on a missing record.\<close>

theorem lifecycle_at_most_two:
  assumes "tx_wf env" "exec_calls max_reason env xs = Some (es, env')"
  shows "successes i xs es \<le> (case status_of env i of None \<Rightarrow> 0 | Some s \<Rightarrow> rank s) \<and>
    successes i xs es \<le> 2"
proof -
  from exec_calls_refines [OF assms(1), of max_reason xs] assms(2)
  have "es = fst (spec_calls max_reason (status_of env) xs)" by simp
  with spec_calls_successes [of i xs max_reason "status_of env"] show ?thesis
    by (cases "status_of env i") (simp_all add: life_left_def order.trans [OF _ rank_le])
qed

theorem lifecycle_at_most_two_witness:
  "\<exists>es env'. exec_calls 64 example_env (concat (replicate 5 [Start (TxSymbol ''t1'') ''GR'', Complete (TxSymbol ''t1'') ''GR''])) = Some (es, env') \<and>
     successes (TxSymbol ''t1'') (concat (replicate 5 [Start (TxSymbol ''t1'') ''GR'', Complete (TxSymbol ''t1'') ''GR''])) es \<le> 2"
proof -
  obtain es env' where e: "exec_calls 64 example_env (concat (replicate 5 [Start (TxSymbol ''t1'') ''GR'', Complete (TxSymbol ''t1'') ''GR''])) = Some (es, env')"
    using exec_calls_refines [OF example_env_facts(1), of 64 "(concat (replicate 5 [Start (TxSymbol ''t1'') ''GR'', Complete (TxSymbol ''t1'') ''GR'']))"] by blast
  with lifecycle_at_most_two [OF example_env_facts(1) e] show ?thesis by blast
qed

text \<open>Frame: a sequence of calls leaves every transaction it does not name, both other
  storage tiers and the event log as they were.\<close>

theorem lifecycle_frame:
  assumes "tx_wf env" "exec_calls max_reason env xs = Some (es, env')"
    "\<forall>x \<in> set xs. call_tx x \<noteq> i"
  shows "get_transaction env' i = get_transaction env i \<and>
    instance_get env' = instance_get env \<and> temporary_get env' = temporary_get env \<and>
    events env' = events env"
  using exec_calls_untouched [OF assms(2,1,3)] by (simp add: get_transaction_def)

theorem lifecycle_frame_witness:
  "\<exists>es env'. exec_calls 64 example_env [Start (TxSymbol ''t2'') ''GR''] = Some (es, env') \<and>
     get_transaction env' (TxSymbol ''t1'') = get_transaction example_env (TxSymbol ''t1'')"
proof -
  obtain es env' where e: "exec_calls 64 example_env [Start (TxSymbol ''t2'') ''GR''] = Some (es, env')"
    using exec_calls_refines [OF example_env_facts(1), of 64 "[Start (TxSymbol ''t2'') ''GR'']"] by blast
  from e lifecycle_frame [OF example_env_facts(1) e, of "TxSymbol ''t1''"] show ?thesis by auto
qed

text \<open>C25. A successful call returns the record it stored, and that record differs from the
  one before only in the status, which moved one lifecycle step, the caller and the
  reason.\<close>

theorem lifecycle_success:
  assumes "tx_wf env" "exec_call max_reason env x = Some (Inr tx', env')"
  shows "get_transaction env' (call_tx x) = Some (Some tx') \<and>
    (\<exists>tx. get_transaction env (call_tx x) = Some (Some tx) \<and>
      lifecycle (tx_status tx) (tx_status tx') \<and>
      tx' = tx\<lparr>tx_status := tx_status tx', tx_caller := tx_caller tx', tx_reason := tx_reason tx'\<rparr>)"
proof (cases x)
  case (Start i c)
  with start_op.result [OF assms(1), of i c tx' env'] assms(2) show ?thesis
    by (auto intro: lifecycle.intros)
next
  case (Complete i c)
  with complete_op.result [OF assms(1), of i c tx' env'] assms(2) show ?thesis
    by (auto intro: lifecycle.intros)
next
  case (Cancel i r c)
  with cancel_op.result [OF assms(1), of max_reason i r c tx' env'] assms(2) show ?thesis
    by (auto intro: lifecycle.intros)
next
  case (Fail i r c)
  with fail_op.result [OF assms(1), of max_reason i r c tx' env'] assms(2) show ?thesis
    by (auto intro: lifecycle.intros)
qed

theorem lifecycle_success_witness:
  "\<exists>tx' env'. exec_call 64 example_env (Start (TxSymbol ''t1'') ''GR'') = Some (Inr tx', env') \<and>
     get_transaction env' (TxSymbol ''t1'') = Some (Some tx')"
proof -
  have "get_transaction example_env (TxSymbol ''t1'') = Some (Some example_tx)"
    "tx_status example_tx \<in> {Pending}"
    by (simp_all add: example_env_def example_tx_def)
  from start_op.moves [OF TrueI this] obtain tx' env' where
    e: "exec_call 64 example_env (Start (TxSymbol ''t1'') ''GR'') = Some (Inr tx', env')" by simp
  with lifecycle_success [OF example_env_facts(1) e] show ?thesis by auto
qed

text \<open>C33. The reasons on record: from a store where it holds, any sequence of calls keeps
  the invariant that a failed or cancelled record carries a reason of at most
  \<open>MAX_REASON_LEN\<close> characters and a processing or completed one none.\<close>

theorem lifecycle_reasons:
  assumes "exec_calls max_reason env xs = Some (es, env')"
    "\<forall>i tx. get_transaction env i = Some (Some tx) \<longrightarrow> reason_ok max_reason tx"
    "get_transaction env' i = Some (Some tx')"
  shows "reason_ok max_reason tx'"
  using exec_calls_reasons [OF assms(1)] assms(2,3) by (auto simp: reasons_ok_def)

theorem lifecycle_reasons_witness:
  "\<exists>es env' tx'. exec_calls 3 example_env [Cancel (TxSymbol ''t1'') ''abc'' ''GR''] = Some (es, env') \<and>
     get_transaction env' (TxSymbol ''t1'') = Some (Some tx') \<and> reason_ok 3 tx'"
proof -
  let ?x = "[Cancel (TxSymbol ''t1'') ''abc'' ''GR'']"
  obtain env' where e: "exec_calls 3 example_env ?x =
      Some (fst (spec_calls 3 (status_of example_env) ?x), env')" "tx_wf env'"
      "status_of env' = snd (spec_calls 3 (status_of example_env) ?x)"
    using exec_calls_refines [OF example_env_facts(1), of 3 ?x] by blast
  have r: "\<forall>i tx. get_transaction example_env i = Some (Some tx) \<longrightarrow> reason_ok 3 tx"
    by (auto simp: example_env_def get_transaction_def set_transaction_def persistent_tier.get_set
        example_tx_def reason_ok_def split: if_splits)
  have "status_of env' (TxSymbol ''t1'') \<noteq> None"
    unfolding e(3) by (simp add: spec_transition_def example_env_facts)
  with tx_wf_get [OF e(2), of "TxSymbol ''t1''"] obtain tx'
    where "get_transaction env' (TxSymbol ''t1'') = Some (Some tx')" by metis
  with e(1) lifecycle_reasons [OF e(1) r this] show ?thesis by blast
qed

end
