(* ===== verification/Accounts.thy ===== *)
theory Accounts
  imports Host
begin

text \<open>
  The identity and metadata records of \<open>src/storage.rs\<close>: authorized relayers, the admin
  address, address-keyed flags, transaction tags and bond records; and the role checks of
  \<open>src/admin.rs\<close>.
\<close>

subsection \<open>Relayers, admin, flags\<close>

definition is_relayer :: "('m, 'u) Env \<Rightarrow> Address \<Rightarrow> bool host" where [op_defs]:
  "is_relayer env addr = do {
     o' \<leftarrow> decode as_bool (persistent_get env (DK (Relayer addr)));
     Some (unwrap_or o' False) }"

definition set_relayer :: "('m, 'u) Env \<Rightarrow> Address \<Rightarrow> ('m, 'u) Env" where [op_defs]:
  "set_relayer env addr = persistent_set env (DK (Relayer addr)) (VBool True)"

definition get_admin :: "('m, 'u) Env \<Rightarrow> Address option host" where [op_defs]:
  "get_admin env = decode as_addr (persistent_get env (DK Admin))"

definition set_admin :: "('m, 'u) Env \<Rightarrow> Address \<Rightarrow> ('m, 'u) Env" where [op_defs]:
  "set_admin env admin = persistent_set env (DK Admin) (VAddr admin)"

definition set_flag :: "('m, 'u) Env \<Rightarrow> DataKey \<Rightarrow> bool \<Rightarrow> ('m, 'u) Env" where [op_defs]:
  "set_flag env key v = persistent_set env (DK key) (VBool v)"

definition get_flag :: "('m, 'u) Env \<Rightarrow> DataKey \<Rightarrow> bool host" where [op_defs]:
  "get_flag env key = do {
     o' \<leftarrow> decode as_bool (persistent_get env (DK key));
     Some (unwrap_or o' False) }"

interpretation admin_cell: cell "\<lambda>env. Option.bind (get_admin env) id" set_admin
  by unfold_locales (simp_all add: op_defs persistent_tier.set_set)

interpretation flag_cell: cell "\<lambda>env. get_flag env key" "\<lambda>env. set_flag env key" for key
  by unfold_locales (simp_all add: op_defs persistent_tier.set_set)

subsection \<open>Tags\<close>

definition MAX_TAGS_PER_TRANSACTION :: u32 where
  "MAX_TAGS_PER_TRANSACTION = 10"

definition get_transaction_tags :: "('m, 'u) Env \<Rightarrow> u64 \<Rightarrow> string list host" where [op_defs]:
  "get_transaction_tags env tx = do {
     o' \<leftarrow> decode as_strs (persistent_get env (DK (TransactionTags tx)));
     Some (unwrap_or o' []) }"

definition add_transaction_tag :: "('m, 'u) Env \<Rightarrow> u64 \<Rightarrow> string \<Rightarrow> ('m, 'u) Env host"
  where [op_defs]:
  "add_transaction_tag env tx tag = do {
     tags \<leftarrow> get_transaction_tags env tx;
     Some (persistent_set env (DK (TransactionTags tx)) (VStrs (tags @ [tag]))) }"

definition transaction_tag_count :: "('m, 'u) Env \<Rightarrow> u64 \<Rightarrow> u32 host" where [op_defs]:
  "transaction_tag_count env tx = do {
     tags \<leftarrow> get_transaction_tags env tx;
     Some (word_of_nat (length tags)) }"

text \<open>Adding a sequence of tags, as a client would.\<close>

fun add_tags :: "('m, 'u) Env \<Rightarrow> u64 \<Rightarrow> string list \<Rightarrow> ('m, 'u) Env host" where
  "add_tags env tx [] = Some env"
| "add_tags env tx (t # ts) = do { env' \<leftarrow> add_transaction_tag env tx t; add_tags env' tx ts }"

lemma add_transaction_tag_tags:
  "get_transaction_tags env tx = Some tags \<Longrightarrow>
     \<exists>env'. add_transaction_tag env tx t = Some env' \<and>
       get_transaction_tags env' tx = Some (tags @ [t])"
  by (simp add: add_transaction_tag_def get_transaction_tags_def)

lemma add_tags_tags:
  "get_transaction_tags env tx = Some tags \<Longrightarrow>
     \<exists>env'. add_tags env tx ts = Some env' \<and> get_transaction_tags env' tx = Some (tags @ ts)"
proof (induction ts arbitrary: env tags)
  case Nil
  then show ?case by simp
next
  case (Cons t ts)
  from add_transaction_tag_tags [OF Cons.prems, of t] obtain env1
    where 1: "add_transaction_tag env tx t = Some env1"
      and 2: "get_transaction_tags env1 tx = Some (tags @ [t])" by blast
  from Cons.IH [OF 2] 1 show ?case by auto
qed

lemma add_transaction_tag_frame:
  assumes "add_transaction_tag env tx t = Some env'"
  shows "k \<noteq> DK (TransactionTags tx) \<Longrightarrow> persistent_get env' k = persistent_get env k"
    and "instance_get env' = instance_get env"
    and "temporary_get env' = temporary_get env"
  using assms by (auto simp: add_transaction_tag_def bind_eq_Some_conv)

subsection \<open>Bond records\<close>

definition get_bond_record :: "('m, 'u) Env \<Rightarrow> Address \<Rightarrow> BondRecord host" where [op_defs]:
  "get_bond_record env signer = do {
     o' \<leftarrow> decode as_bond (persistent_get env (BK (Bond signer)));
     Some (unwrap_or o' \<lparr>bond_signer = signer, bond_amount = 0, bonded_at = 0\<rparr>) }"

definition get_unbond_request :: "('m, 'u) Env \<Rightarrow> Address \<Rightarrow> 'u option host" where [op_defs]:
  "get_unbond_request env signer = decode as_unbond (persistent_get env (BK (Unbond signer)))"

subsection \<open>Role checks (\<open>src/admin.rs\<close>)\<close>

definition require_admin :: "('m, 'u) Env \<Rightarrow> Address \<Rightarrow> Address \<Rightarrow> (ContractError + unit) host"
  where [op_defs]:
  "require_admin env c admin = do {
     require_auth env c;
     if c \<noteq> admin then Some (Inl NotAuthorized) else Some (Inr ()) }"

definition require_relay_or_admin ::
    "('m, 'u) Env \<Rightarrow> Address \<Rightarrow> Address \<Rightarrow> Address \<Rightarrow> (ContractError + unit) host" where [op_defs]:
  "require_relay_or_admin env c admin relay_signer = do {
     require_auth env c;
     if c \<noteq> admin \<and> c \<noteq> relay_signer then Some (Inl NotAuthorized) else Some (Inr ()) }"

definition require_pending_admin ::
    "('m, 'u) Env \<Rightarrow> Address \<Rightarrow> Address \<Rightarrow> (ContractError + unit) host" where [op_defs]:
  "require_pending_admin env c pending_admin = do {
     require_auth env c;
     if c \<noteq> pending_admin then Some (Inl NotAuthorized) else Some (Inr ()) }"

definition require_guardian :: "('m, 'u) Env \<Rightarrow> Address \<Rightarrow> Address \<Rightarrow> (ContractError + unit) host"
  where [op_defs]:
  "require_guardian env c guardian = do {
     require_auth env c;
     if c \<noteq> guardian then Some (Inl NotAuthorized) else Some (Inr ()) }"

text \<open>The contract every role check promises, over the set of identities it accepts.\<close>

locale role_check =
  fixes check :: "Address \<Rightarrow> (ContractError + unit) host"
    and auth :: "Address \<Rightarrow> bool"
    and roles :: "Address set"
  assumes unauthenticated: "\<not> auth c \<Longrightarrow> check c = None"
    and accepted: "auth c \<Longrightarrow> c \<in> roles \<Longrightarrow> check c = Some (Inr ())"
    and refused: "auth c \<Longrightarrow> c \<notin> roles \<Longrightarrow> check c = Some (Inl NotAuthorized)"
begin

lemma passes_iff: "check c = Some (Inr ()) \<longleftrightarrow> auth c \<and> c \<in> roles"
  using unauthenticated accepted refused
  by (metis Inl_Inr_False option.discI option.inject)

lemma traps_iff: "check c = None \<longleftrightarrow> \<not> auth c"
  using unauthenticated accepted refused by (metis option.discI)

end

interpretation admin_check: role_check "\<lambda>c. require_admin env c admin" "authorized env" "{admin}"
  for env admin
  by unfold_locales (auto simp: op_defs require_auth_def)

interpretation relay_or_admin_check:
  role_check "\<lambda>c. require_relay_or_admin env c admin relay" "authorized env" "{admin, relay}"
  for env admin relay
  by unfold_locales (auto simp: op_defs require_auth_def)

interpretation pending_admin_check:
  role_check "\<lambda>c. require_pending_admin env c p" "authorized env" "{p}" for env p
  by unfold_locales (auto simp: op_defs require_auth_def)

interpretation guardian_check: role_check "\<lambda>c. require_guardian env c g" "authorized env" "{g}"
  for env g
  by unfold_locales (auto simp: op_defs require_auth_def)


lemma add_tags_frame:
  "add_tags env tx ts = Some env' \<Longrightarrow> k \<noteq> DK (TransactionTags tx) \<Longrightarrow>
     persistent_get env' k = persistent_get env k"
proof (induction ts arbitrary: env)
  case Nil
  then show ?case by simp
next
  case (Cons t ts)
  then show ?case by (auto simp: bind_eq_Some_conv add_transaction_tag_frame(1))
qed

subsection \<open>Properties\<close>

text \<open>Each role check traps exactly when the caller did not authenticate, and passes
  exactly for an authenticated caller who is the identity of the role (the admin, the relay
  signer or the admin, the pending admin, the guardian).\<close>

theorem role_checks:
  "(require_admin env c admin = None \<longleftrightarrow> \<not> authorized env c) \<and>
   (require_admin env c admin = Some (Inr ()) \<longleftrightarrow> authorized env c \<and> c = admin) \<and>
   (require_relay_or_admin env c admin relay = None \<longleftrightarrow> \<not> authorized env c) \<and>
   (require_relay_or_admin env c admin relay = Some (Inr ()) \<longleftrightarrow>
      authorized env c \<and> c \<in> {admin, relay}) \<and>
   (require_pending_admin env c pend = None \<longleftrightarrow> \<not> authorized env c) \<and>
   (require_pending_admin env c pend = Some (Inr ()) \<longleftrightarrow> authorized env c \<and> c = pend) \<and>
   (require_guardian env c guardian = None \<longleftrightarrow> \<not> authorized env c) \<and>
   (require_guardian env c guardian = Some (Inr ()) \<longleftrightarrow> authorized env c \<and> c = guardian)"
  by (simp add: admin_check.passes_iff admin_check.traps_iff relay_or_admin_check.passes_iff
      relay_or_admin_check.traps_iff pending_admin_check.passes_iff pending_admin_check.traps_iff
      guardian_check.passes_iff guardian_check.traps_iff)

text \<open>Tags are appended in order: adding tags one by one to a transaction whose tags can be
  read succeeds, the tags are then the old ones followed by the new, the count is their
  number, and the tags of other transactions are as before.\<close>

theorem tags_append:
  assumes "get_transaction_tags env tx = Some tags"
  shows "\<exists>env'. add_tags env tx ts = Some env' \<and>
    get_transaction_tags env' tx = Some (tags @ ts) \<and>
    transaction_tag_count env' tx = Some (word_of_nat (length tags + length ts)) \<and>
    (\<forall>tx'. tx' \<noteq> tx \<longrightarrow> get_transaction_tags env' tx' = get_transaction_tags env tx')"
proof -
  from add_tags_tags [OF assms, of ts] obtain env' where e: "add_tags env tx ts = Some env'"
    "get_transaction_tags env' tx = Some (tags @ ts)" by blast
  moreover have "get_transaction_tags env' tx' = get_transaction_tags env tx'" if "tx' \<noteq> tx" for tx'
    using add_tags_frame [OF e(1), of "DK (TransactionTags tx')"] that
    by (simp add: get_transaction_tags_def)
  ultimately show ?thesis by (auto simp: transaction_tag_count_def)
qed

theorem tags_append_witness:
  "\<exists>env'. add_tags (empty_env (\<lambda>_. True)) 5 [''a'', ''b'', ''c''] = Some env' \<and>
     get_transaction_tags env' 5 = Some [''a'', ''b'', ''c''] \<and>
     transaction_tag_count env' 5 = Some 3"
  using tags_append [of "empty_env (\<lambda>_. True)" 5 "[]" "[''a'', ''b'', ''c'']"]
  by (auto simp: get_transaction_tags_def)

text \<open>The documented cap is not enforced by \<open>add_transaction_tag\<close>: eleven tags are
  accepted on a fresh transaction, one more than \<open>MAX_TAGS_PER_TRANSACTION\<close>.\<close>

theorem tag_cap_not_enforced:
  "\<exists>env' n. add_tags (empty_env auths :: ('m, 'u) Env) tx (replicate 11 tag) = Some env' \<and>
     transaction_tag_count env' tx = Some n \<and> MAX_TAGS_PER_TRANSACTION < n"
proof -
  have "get_transaction_tags (empty_env auths :: ('m, 'u) Env) tx = Some []" by (simp add: get_transaction_tags_def)
  from add_tags_tags [OF this, of "replicate 11 tag"] obtain env'
    where e: "add_tags (empty_env auths :: ('m, 'u) Env) tx (replicate 11 tag) = Some env'"
      "get_transaction_tags env' tx = Some (replicate 11 tag)" by auto
  then have "transaction_tag_count env' tx = Some 11" by (simp add: transaction_tag_count_def)
  moreover have "MAX_TAGS_PER_TRANSACTION < 11" by (simp add: MAX_TAGS_PER_TRANSACTION_def)
  ultimately show ?thesis using e(1) by blast
qed

text \<open>The relayer list and the flags are one store: a relayer added is a relayer and no
  other address changes, and clearing its flag revokes it again.\<close>

theorem relayer_flags:
  "is_relayer (set_relayer env a) b = (if b = a then Some True else is_relayer env b) \<and>
   is_relayer (set_flag env (Relayer a) v) b = (if b = a then Some v else is_relayer env b) \<and>
   get_flag env (Relayer a) = is_relayer env a \<and>
   get_admin (set_relayer env a) = get_admin env \<and>
   is_relayer (set_admin env c) b = is_relayer env b"
  by (simp add: op_defs persistent_tier.get_set)

end
