(* ===== verification/Relay.thy ===== *)
theory Relay
  imports Accounts
begin

text \<open>
  The relay-signer set and the approval quorum of \<open>src/storage.rs\<close>.  Named by the code
  but defined nowhere under \<open>src/\<close>, and so parameters here: \<open>get_relay_signer_set\<close>, the
  \<open>Option\<close>-valued threshold read that \<open>relay_threshold\<close> matches on, and
  \<open>events::relay_signer_added\<close>.
\<close>

text \<open>The membership loops of the code: walk the vector, stop at the first match.\<close>

fun vec_contains :: "'a \<Rightarrow> 'a list \<Rightarrow> bool" where
  "vec_contains x [] = False"
| "vec_contains x (y # ys) = (if y = x then True else vec_contains x ys)"

lemma vec_contains_iff [simp]: "vec_contains x ys \<longleftrightarrow> x \<in> set ys"
  by (induction ys) auto

subsection \<open>The signer set\<close>

definition get_relay_signer :: "('m, 'u) Env \<Rightarrow> Address option host" where [op_defs]:
  "get_relay_signer env = decode as_addr (instance_get env (DK RelaySigner))"

definition relay_signer_set ::
    "(('m, 'u) Env \<Rightarrow> Address list option host) \<Rightarrow> ('m, 'u) Env \<Rightarrow> Address list host" where
  "relay_signer_set get_relay_signer_set env = do {
     o' \<leftarrow> get_relay_signer_set env;
     case o' of
       Some s \<Rightarrow> Some s
     | None \<Rightarrow> do {
         b \<leftarrow> get_relay_signer env;
         Some (case b of Some signer \<Rightarrow> [] @ [signer] | None \<Rightarrow> []) } }"

definition get_relay_signers :: "('m, 'u) Env \<Rightarrow> Address list host" where
  "get_relay_signers env = do {
     o' \<leftarrow> decode as_addrs (instance_get env (DK RelaySigners));
     case o' of
       Some signers \<Rightarrow> Some signers
     | None \<Rightarrow> do {
         b \<leftarrow> decode as_addr (instance_get env (DK RelaySigner));
         Some (case b of Some signer \<Rightarrow> [] @ [signer] | None \<Rightarrow> []) } }"

definition add_relay_signer ::
    "(('m, 'u) Env \<Rightarrow> Address \<Rightarrow> ('m, 'u) Env) \<Rightarrow> ('m, 'u) Env \<Rightarrow> Address \<Rightarrow> Address \<Rightarrow>
     ((StorageError + unit) \<times> ('m, 'u) Env) host" where
  "add_relay_signer relay_signer_added env c new_signer = do {
     require_auth env c;
     o' \<leftarrow> decode as_addr (instance_get env (DK Admin));
     case o' of
       None \<Rightarrow> Some (Inl NotInitialized, env)
     | Some admin \<Rightarrow>
         if c \<noteq> admin then Some (Inl Unauthorized, env)
         else do {
           signers \<leftarrow> get_relay_signers env;
           if vec_contains new_signer signers then Some (Inl SignerAlreadyExists, env)
           else let env' = instance_set env (DK RelaySigners) (VAddrs (signers @ [new_signer]))
                in Some (Inr (), relay_signer_added env' new_signer) } }"

subsection \<open>The threshold\<close>

definition relay_threshold ::
    "(('m, 'u) Env \<Rightarrow> u32 option host) \<Rightarrow> ('m, 'u) Env \<Rightarrow> u32 host" where
  "relay_threshold get_threshold env = do {
     o' \<leftarrow> get_threshold env;
     case o' of
       Some threshold \<Rightarrow> Some threshold
     | None \<Rightarrow> do {
         b \<leftarrow> get_relay_signer env;
         Some (if b \<noteq> None then 1 else 0) } }"

definition get_relay_threshold :: "('m, 'u) Env \<Rightarrow> u32 host" where
  "get_relay_threshold env = do {
     o' \<leftarrow> decode as_u32 (instance_get env (DK RelayThreshold));
     Some (unwrap_or o' 1) }"

subsection \<open>Approvals\<close>

definition get_relay_approvals :: "('m, 'u) Env \<Rightarrow> u64 \<Rightarrow> Address list host" where
  "get_relay_approvals env call_id = do {
     o' \<leftarrow> decode as_addrs (temporary_get env (DK (RelayApprovals call_id)));
     Some (unwrap_or o' []) }"

text \<open>\<open>approvals.len()\<close> is a \<open>u32\<close> and the host bounds every vector by it, so it is
  compared as a number.\<close>

definition approve_relay_call ::
    "('m, 'u) Env \<Rightarrow> u64 \<Rightarrow> Address \<Rightarrow> ((StorageError + bool) \<times> ('m, 'u) Env) host" where
  "approve_relay_call env call_id c = do {
     require_auth env c;
     signers \<leftarrow> get_relay_signers env;
     if \<not> vec_contains c signers then Some (Inl Unauthorized, env)
     else do {
       approvals0 \<leftarrow> get_relay_approvals env call_id;
       let approvals = (if vec_contains c approvals0 then approvals0 else approvals0 @ [c]);
       threshold \<leftarrow> get_relay_threshold env;
       let quorum_met = (unat threshold \<le> length approvals);
       let env' = (if quorum_met then temporary_remove env (DK (RelayApprovals call_id))
                   else temporary_set env (DK (RelayApprovals call_id)) (VAddrs approvals));
       Some (Inr quorum_met, env') } }"

subsection \<open>Reads after a step\<close>

lemma get_relay_signers_cong:
  assumes "instance_get env' = instance_get env"
  shows "get_relay_signers env' = get_relay_signers env"
  unfolding get_relay_signers_def assms by (rule refl)

lemma get_relay_threshold_cong:
  assumes "instance_get env' = instance_get env"
  shows "get_relay_threshold env' = get_relay_threshold env"
  unfolding get_relay_threshold_def assms by (rule refl)

lemma relay_reads_temporary [simp]:
  "get_relay_signers (temporary_set env k v) = get_relay_signers env"
  "get_relay_signers (temporary_remove env k) = get_relay_signers env"
  "get_relay_threshold (temporary_set env k v) = get_relay_threshold env"
  "get_relay_threshold (temporary_remove env k) = get_relay_threshold env"
  by (rule get_relay_signers_cong get_relay_threshold_cong; simp)+

lemma get_relay_approvals_set:
  "get_relay_approvals (temporary_set env (DK (RelayApprovals j)) (VAddrs as)) i =
     (if i = j then Some as else get_relay_approvals env i)"
  by (simp add: get_relay_approvals_def temporary_tier.get_set)

lemma get_relay_approvals_remove:
  "get_relay_approvals (temporary_remove env (DK (RelayApprovals j))) i =
     (if i = j then Some [] else get_relay_approvals env i)"
  by (simp add: get_relay_approvals_def temporary_tier.get_remove)

text \<open>The outcome of a call by an authenticated signer, in one equation.\<close>

lemma approve_relay_call_eq:
  assumes "authorized env c" "get_relay_signers env = Some signers" "c \<in> set signers"
    "get_relay_approvals env i = Some as" "get_relay_threshold env = Some t"
    and as': "as' = (if c \<in> set as then as else as @ [c])"
  shows "approve_relay_call env i c =
    (if unat t \<le> length as' then Some (Inr True, temporary_remove env (DK (RelayApprovals i)))
     else Some (Inr False, temporary_set env (DK (RelayApprovals i)) (VAddrs as')))"
  using assms by (simp add: approve_relay_call_def require_auth_def Let_def)

lemma approve_relay_call_unauthenticated:
  "\<not> authorized env c \<Longrightarrow> approve_relay_call env i c = None"
  by (simp add: approve_relay_call_def require_auth_def)

lemma approve_relay_call_outsider:
  assumes "authorized env c" "get_relay_signers env = Some signers" "c \<notin> set signers"
  shows "approve_relay_call env i c = Some (Inl Unauthorized, env)"
  using assms by (simp add: approve_relay_call_def require_auth_def)

lemma add_relay_signer_refused:
  assumes "authorized env c" "decode as_addr (instance_get env (DK Admin)) = Some o'"
  shows "o' = None \<Longrightarrow> add_relay_signer added env c n = Some (Inl NotInitialized, env)"
    and "o' = Some admin \<Longrightarrow> c \<noteq> admin \<Longrightarrow>
      add_relay_signer added env c n = Some (Inl Unauthorized, env)"
    and "o' = Some c \<Longrightarrow> get_relay_signers env = Some signers \<Longrightarrow> n \<in> set signers \<Longrightarrow>
      add_relay_signer added env c n = Some (Inl SignerAlreadyExists, env)"
  using assms by (simp_all add: add_relay_signer_def require_auth_def)

lemma add_relay_signer_added:
  assumes "authorized env c" "decode as_addr (instance_get env (DK Admin)) = Some (Some c)"
    "get_relay_signers env = Some signers" "n \<notin> set signers"
  shows "add_relay_signer added env c n =
    Some (Inr (), added (instance_set env (DK RelaySigners) (VAddrs (signers @ [n]))) n)"
  using assms by (simp add: add_relay_signer_def require_auth_def Let_def)

lemma add_relay_signer_cases:
  assumes "add_relay_signer added env c n = Some (Inr u, env')"
  shows "\<exists>signers. authorized env c \<and>
    decode as_addr (instance_get env (DK Admin)) = Some (Some c) \<and>
    get_relay_signers env = Some signers \<and> n \<notin> set signers \<and>
    env' = added (instance_set env (DK RelaySigners) (VAddrs (signers @ [n]))) n"
  using assms unfolding add_relay_signer_def require_auth_def
  by (auto simp: bind_eq_Some_conv Let_def split: if_splits option.splits)


subsection \<open>Properties\<close>

text \<open>Adding a relay signer succeeds exactly when the caller authenticated, is the admin
  the instance tier records, and the signer is not yet listed; the stored set is then the
  old list with the new signer at its end, so a set without duplicates stays so.\<close>

theorem add_relay_signer_success:
  "add_relay_signer added env c n = Some (Inr (), env') \<longleftrightarrow>
     authorized env c \<and> decode as_addr (instance_get env (DK Admin)) = Some (Some c) \<and>
     (\<exists>signers. get_relay_signers env = Some signers \<and> n \<notin> set signers \<and>
        env' = added (instance_set env (DK RelaySigners) (VAddrs (signers @ [n]))) n \<and>
        get_relay_signers (instance_set env (DK RelaySigners) (VAddrs (signers @ [n]))) =
          Some (signers @ [n]) \<and>
        distinct (signers @ [n]) = distinct signers)"
proof -
  have "get_relay_signers (instance_set env (DK RelaySigners) (VAddrs s)) = Some s" for s
    by (simp add: get_relay_signers_def)
  moreover have "distinct (s @ [n]) = distinct s" if "n \<notin> set s" for s using that by simp
  ultimately show ?thesis
    using add_relay_signer_cases [of added env c n "()" env'] add_relay_signer_added [of env c]
    by blast
qed

end
