(* ===== verification/Relay_Quorum.thy ===== *)
theory Relay_Quorum
  imports Relay
begin

text \<open>
  Sequences of approvals, by any callers for any call ids, interleaved with the expiry of
  temporary entries; their abstract specification over sets of approvers; the refinement
  between the two; and the safety and exactness of the quorum.
\<close>

datatype relay_step = Approve u64 Address | Expire u64

text \<open>A trapped invocation is rolled back, so it leaves the store as it was.\<close>

fun exec_relay :: "('m, 'u) Env \<Rightarrow> relay_step \<Rightarrow> (StorageError + bool) option \<times> ('m, 'u) Env" where
  "exec_relay env (Approve i c) =
     (case approve_relay_call env i c of None \<Rightarrow> (None, env) | Some (r, env') \<Rightarrow> (Some r, env'))"
| "exec_relay env (Expire i) = (None, temporary_remove env (DK (RelayApprovals i)))"

fun exec_relays :: "('m, 'u) Env \<Rightarrow> relay_step list \<Rightarrow>
    (StorageError + bool) option list \<times> ('m, 'u) Env" where
  "exec_relays env [] = ([], env)"
| "exec_relays env (x # xs) =
     (let (r, env1) = exec_relay env x; (rs, env2) = exec_relays env1 xs in (r # rs, env2))"

subsection \<open>The abstract quorum\<close>

type_synonym support = "u64 \<Rightarrow> Address set"

fun quorum_step :: "(Address \<Rightarrow> bool) \<Rightarrow> Address set \<Rightarrow> nat \<Rightarrow> support \<Rightarrow> relay_step \<Rightarrow>
    (StorageError + bool) option \<times> support" where
  "quorum_step auth S t m (Approve i c) =
     (if \<not> auth c then (None, m)
      else if c \<notin> S then (Some (Inl Unauthorized), m)
      else let A = insert c (m i) in
        if t \<le> card A then (Some (Inr True), m(i := {}))
        else (Some (Inr False), m(i := A)))"
| "quorum_step auth S t m (Expire i) = (None, m(i := {}))"

text \<open>The store is in order when the signers, the threshold and every approval list can be
  read and no list counts a signer twice.\<close>

definition relay_ok :: "('m, 'u) Env \<Rightarrow> Address list \<Rightarrow> u32 \<Rightarrow> bool" where
  "relay_ok env signers t \<longleftrightarrow>
     get_relay_signers env = Some signers \<and> get_relay_threshold env = Some t \<and>
     (\<forall>i. \<exists>as. get_relay_approvals env i = Some as \<and> distinct as)"

definition approvals_of :: "('m, 'u) Env \<Rightarrow> support" where
  "approvals_of env i = (case get_relay_approvals env i of None \<Rightarrow> {} | Some as \<Rightarrow> set as)"

lemma relay_ok_approvals:
  assumes "relay_ok env signers t"
  obtains as where "get_relay_approvals env i = Some as" "distinct as" "approvals_of env i = set as"
proof -
  from assms obtain as where "get_relay_approvals env i = Some as \<and> distinct as"
    unfolding relay_ok_def by blast
  with that [of as] show ?thesis by (simp add: approvals_of_def)
qed

lemma relay_ok_set:
  assumes "relay_ok env signers t" "distinct as"
  shows "relay_ok (temporary_set env (DK (RelayApprovals i)) (VAddrs as)) signers t"
  using assms
  by (simp add: relay_ok_def get_relay_approvals_set)

lemma relay_ok_remove:
  assumes "relay_ok env signers t"
  shows "relay_ok (temporary_remove env (DK (RelayApprovals i))) signers t"
  using assms
  by (simp add: relay_ok_def get_relay_approvals_remove)

lemma approvals_of_set:
  "approvals_of (temporary_set env (DK (RelayApprovals i)) (VAddrs as)) =
     (approvals_of env)(i := set as)"
  by (simp add: fun_eq_iff approvals_of_def get_relay_approvals_set)

lemma approvals_of_remove:
  "approvals_of (temporary_remove env (DK (RelayApprovals i))) = (approvals_of env)(i := {})"
  by (simp add: fun_eq_iff approvals_of_def get_relay_approvals_remove)

subsection \<open>Refinement\<close>

lemma exec_relay_refines:
  assumes ok: "relay_ok env signers t"
  shows "fst (exec_relay env x) =
      fst (quorum_step (authorized env) (set signers) (unat t) (approvals_of env) x)"
    and "approvals_of (snd (exec_relay env x)) =
      snd (quorum_step (authorized env) (set signers) (unat t) (approvals_of env) x)"
    and "relay_ok (snd (exec_relay env x)) signers t"
    and "authorized (snd (exec_relay env x)) = authorized env"
proof -
  from ok have sig: "get_relay_signers env = Some signers"
    and thr: "get_relay_threshold env = Some t" by (simp_all add: relay_ok_def)
  have "fst (exec_relay env x) =
      fst (quorum_step (authorized env) (set signers) (unat t) (approvals_of env) x) \<and>
    approvals_of (snd (exec_relay env x)) =
      snd (quorum_step (authorized env) (set signers) (unat t) (approvals_of env) x) \<and>
    relay_ok (snd (exec_relay env x)) signers t \<and>
    authorized (snd (exec_relay env x)) = authorized env"
  proof (cases x)
    case (Expire i)
    with ok show ?thesis by (simp add: approvals_of_remove relay_ok_remove)
  next
    case (Approve i c)
    show ?thesis
    proof (cases "authorized env c \<and> c \<in> set signers")
      case False
      then show ?thesis using Approve ok
        by (cases "authorized env c")
          (simp_all add: approve_relay_call_outsider [OF _ sig]
            approve_relay_call_unauthenticated)
    next
      case True
      from ok obtain as where as: "get_relay_approvals env i = Some as" "distinct as"
        "approvals_of env i = set as" by (rule relay_ok_approvals)
      define as' where "as' = (if c \<in> set as then as else as @ [c])"
      have d: "distinct as'" and s: "set as' = insert c (approvals_of env i)"
        using as by (auto simp: as'_def)
      then have l: "length as' = card (insert c (approvals_of env i))"
        by (metis distinct_card)
      show ?thesis using True Approve ok d s l
        by (simp add: approve_relay_call_eq [OF _ sig _ as(1) thr as'_def] Let_def
            approvals_of_remove approvals_of_set relay_ok_remove relay_ok_set)
    qed
  qed
  then show "fst (exec_relay env x) =
      fst (quorum_step (authorized env) (set signers) (unat t) (approvals_of env) x)"
    and "approvals_of (snd (exec_relay env x)) =
      snd (quorum_step (authorized env) (set signers) (unat t) (approvals_of env) x)"
    and "relay_ok (snd (exec_relay env x)) signers t"
    and "authorized (snd (exec_relay env x)) = authorized env" by blast+
qed

text \<open>The support after a sequence comes from the approvals in it and from signers.\<close>

lemma exec_relays_Cons:
  "fst (exec_relays env (x # xs)) = fst (exec_relay env x) # fst (exec_relays (snd (exec_relay env x)) xs)"
  "snd (exec_relays env (x # xs)) = snd (exec_relays (snd (exec_relay env x)) xs)"
  by (simp_all split: prod.splits)

lemma exec_relays_ok:
  assumes "relay_ok env signers t"
  shows "relay_ok (snd (exec_relays env xs)) signers t \<and>
    authorized (snd (exec_relays env xs)) = authorized env"
  using assms
proof (induction xs arbitrary: env)
  case Nil
  then show ?case by simp
next
  case (Cons x xs)
  from Cons.IH [OF exec_relay_refines(3) [OF Cons.prems]] exec_relay_refines(4) [OF Cons.prems]
  show ?case unfolding exec_relays_Cons by simp
qed

lemma quorum_step_support:
  "snd (quorum_step auth S t m x) i \<subseteq> m i \<union> {c \<in> S. auth c \<and> x = Approve i c}"
  by (cases x) (auto simp: Let_def split: if_splits)

lemma exec_relays_support:
  assumes "relay_ok env signers t"
  shows "approvals_of (snd (exec_relays env xs)) i \<subseteq>
    approvals_of env i \<union> {c \<in> set signers. authorized env c \<and> Approve i c \<in> set xs}"
  using assms
proof (induction xs arbitrary: env)
  case Nil
  then show ?case by simp
next
  case (Cons x xs)
  note step = exec_relay_refines [OF Cons.prems, of x]
  from Cons.IH [OF step(3)]
    quorum_step_support [of "authorized env" "set signers" "unat t" "approvals_of env" x i]
  show ?case unfolding exec_relays_Cons step(2,4) by auto
qed

subsection \<open>Rounds of distinct approvers\<close>

lemma exec_relays_round:
  assumes "relay_ok env signers t" "distinct ds" "set ds \<subseteq> set signers"
    "\<forall>d \<in> set ds. authorized env d" "approvals_of env i \<inter> set ds = {}"
    "finite (approvals_of env i)" "card (approvals_of env i) + length ds < unat t"
  shows "fst (exec_relays env (map (Approve i) ds)) = replicate (length ds) (Some (Inr False)) \<and>
    approvals_of (snd (exec_relays env (map (Approve i) ds))) i = approvals_of env i \<union> set ds"
  using assms
proof (induction ds arbitrary: env)
  case Nil
  show ?case by simp
next
  case (Cons d ds)
  note p = Cons.prems and step = exec_relay_refines [OF Cons.prems(1), of "Approve i d"]
  let ?e = "snd (exec_relay env (Approve i d))"
  have c: "card (insert d (approvals_of env i)) = Suc (card (approvals_of env i))"
    using p by simp
  have r: "fst (exec_relay env (Approve i d)) = Some (Inr False)"
    and a: "approvals_of ?e i = insert d (approvals_of env i)"
    using p c unfolding step(1,2) by (simp_all add: Let_def)
  have "relay_ok ?e signers t" "distinct ds" "set ds \<subseteq> set signers"
    "\<forall>d \<in> set ds. authorized ?e d" "approvals_of ?e i \<inter> set ds = {}"
    "finite (approvals_of ?e i)" "card (approvals_of ?e i) + length ds < unat t"
    using p step(3,4) c a by auto
  note IH = Cons.IH [OF this]
  show ?case using r a IH by (simp add: exec_relays_Cons del: exec_relays.simps exec_relay.simps)
qed

lemma exec_relays_append:
  "fst (exec_relays env (xs @ ys)) =
     fst (exec_relays env xs) @ fst (exec_relays (snd (exec_relays env xs)) ys)"
  "snd (exec_relays env (xs @ ys)) = snd (exec_relays (snd (exec_relays env xs)) ys)"
  by (induction xs arbitrary: env) (simp_all add: exec_relays_Cons del: exec_relays.simps(2))


fun quorum_steps :: "(Address \<Rightarrow> bool) \<Rightarrow> Address set \<Rightarrow> nat \<Rightarrow> support \<Rightarrow> relay_step list \<Rightarrow>
    (StorageError + bool) option list \<times> support" where
  "quorum_steps auth S t m [] = ([], m)"
| "quorum_steps auth S t m (x # xs) =
     (let (r, m1) = quorum_step auth S t m x; (rs, m2) = quorum_steps auth S t m1 xs
      in (r # rs, m2))"

lemma quorum_steps_Cons:
  "fst (quorum_steps auth S t m (x # xs)) = fst (quorum_step auth S t m x) #
     fst (quorum_steps auth S t (snd (quorum_step auth S t m x)) xs)"
  "snd (quorum_steps auth S t m (x # xs)) =
     snd (quorum_steps auth S t (snd (quorum_step auth S t m x)) xs)"
  by (simp_all split: prod.splits)

lemma exec_relays_refines:
  assumes "relay_ok env signers t"
  shows "fst (exec_relays env xs) =
      fst (quorum_steps (authorized env) (set signers) (unat t) (approvals_of env) xs) \<and>
    approvals_of (snd (exec_relays env xs)) =
      snd (quorum_steps (authorized env) (set signers) (unat t) (approvals_of env) xs)"
  using assms
proof (induction xs arbitrary: env)
  case Nil
  then show ?case by simp
next
  case (Cons x xs)
  note s = exec_relay_refines [OF Cons.prems, of x]
  from Cons.IH [OF s(3)] s show ?case
    unfolding exec_relays_Cons quorum_steps_Cons by simp
qed

text \<open>A whole round: the last of \<open>t\<close> distinct approvals meets the quorum and clears it.\<close>

lemma exec_relays_full_round:
  assumes ok: "relay_ok env signers t" and d: "distinct (ds @ [d])" "set (ds @ [d]) \<subseteq> set signers"
    "\<forall>x \<in> set (ds @ [d]). authorized env x" and e: "approvals_of env i = {}"
    and n: "Suc (length ds) = unat t"
  shows "fst (exec_relays env (map (Approve i) (ds @ [d]))) =
      replicate (length ds) (Some (Inr False)) @ [Some (Inr True)] \<and>
    approvals_of (snd (exec_relays env (map (Approve i) (ds @ [d])))) i = {}"
proof -
  let ?e = "snd (exec_relays env (map (Approve i) ds))"
  have r: "fst (exec_relays env (map (Approve i) ds)) = replicate (length ds) (Some (Inr False))"
    and a: "approvals_of ?e i = set ds"
    using exec_relays_round [OF ok, of ds i] d e n by auto
  have ok': "relay_ok ?e signers t" and au: "authorized ?e = authorized env"
    using exec_relays_ok [OF ok, of "map (Approve i) ds"] by simp_all
  have c: "card (insert d (set ds)) = unat t"
    using d(1) n by (simp add: distinct_card)
  have "fst (exec_relay ?e (Approve i d)) = Some (Inr True)"
    "approvals_of (snd (exec_relay ?e (Approve i d))) i = {}"
    using exec_relay_refines(1,2) [OF ok', of "Approve i d"] d(2,3) au a c
    by (simp_all add: Let_def)
  with r show ?thesis
    by (simp add: exec_relays_append exec_relays_Cons del: exec_relays.simps(2) exec_relay.simps)
qed

subsection \<open>Properties\<close>

text \<open>A store with three signers and a threshold of two, for the witnesses.\<close>

definition example_relay_env :: "(unit, unit) Env" where
  "example_relay_env = instance_set (instance_set (empty_env (\<lambda>a. a \<noteq> ''X''))
     (DK RelaySigners) (VAddrs [''A'', ''B'', ''C'']))
     (DK RelayThreshold) (VU32 2)"

lemma example_relay_env_facts:
  "relay_ok example_relay_env [''A'', ''B'', ''C''] 2"
  "approvals_of example_relay_env i = {}"
  "authorized example_relay_env = (\<lambda>a. a \<noteq> ''X'')"
  by (simp_all add: example_relay_env_def relay_ok_def get_relay_signers_def
      get_relay_threshold_def get_relay_approvals_def approvals_of_def)

text \<open>C3. Refinement of the quorum: on a store whose relay state can be read, every sequence
  of approvals, by any callers for any call ids, interleaved with the expiry of temporary
  entries, gives the results of the abstract quorum over sets of approvers and ends in its
  state.\<close>

theorem quorum_refinement:
  assumes "relay_ok env signers t"
  shows "fst (exec_relays env xs) =
      fst (quorum_steps (authorized env) (set signers) (unat t) (approvals_of env) xs) \<and>
    approvals_of (snd (exec_relays env xs)) =
      snd (quorum_steps (authorized env) (set signers) (unat t) (approvals_of env) xs)"
  by (rule exec_relays_refines [OF assms])

theorem quorum_refinement_witness:
  "fst (exec_relays example_relay_env [Approve 1 ''A'', Approve 1 ''A'', Approve 2 ''B'',
      Approve 1 ''X'', Approve 1 ''D'', Expire 2, Approve 1 ''B'']) =
     [Some (Inr False), Some (Inr False), Some (Inr False), None, Some (Inl Unauthorized), None,
      Some (Inr True)]"
  unfolding quorum_refinement [OF example_relay_env_facts(1), THEN conjunct1]
    example_relay_env_facts(3)
  by (simp add: example_relay_env_facts(2) card_insert_if)

text \<open>C4. Safety of the quorum: an approval reports that the quorum is met only when at least
  the threshold's number of distinct current signers, every one authenticated, approved that
  call id in the sequence.\<close>

theorem quorum_safety:
  assumes ok: "relay_ok env signers t" and e: "approvals_of env i = {}"
    and r: "last (fst (exec_relays env (xs @ [Approve i c]))) = Some (Inr True)"
  shows "\<exists>D. D \<subseteq> set signers \<and> unat t \<le> card D \<and>
    (\<forall>d \<in> D. authorized env d \<and> Approve i d \<in> set (xs @ [Approve i c]))"
proof -
  let ?e = "snd (exec_relays env xs)"
  have ok': "relay_ok ?e signers t" and au: "authorized ?e = authorized env"
    using exec_relays_ok [OF ok, of xs] by simp_all
  have "fst (exec_relay ?e (Approve i c)) = Some (Inr True)"
    using r by (simp add: exec_relays_append exec_relays_Cons del: exec_relays.simps(2) exec_relay.simps)
  then have q: "authorized env c" "c \<in> set signers" "unat t \<le> card (insert c (approvals_of ?e i))"
    unfolding exec_relay_refines(1) [OF ok'] au by (auto simp: Let_def split: if_splits)
  with exec_relays_support [OF ok, of xs i] e show ?thesis
    by (intro exI [of _ "insert c (approvals_of ?e i)"]) auto
qed

theorem quorum_safety_witness:
  "\<exists>D. D \<subseteq> set [''A'', ''B'', ''C''] \<and> unat (2 :: u32) \<le> card D \<and>
     D \<subseteq> {d. authorized example_relay_env d \<and>
        Approve 1 d \<in> set ([Approve 1 ''A''] @ [Approve 1 ''C''])}"
proof -
  have "last (fst (exec_relays example_relay_env ([Approve 1 ''A''] @ [Approve 1 ''C'']))) =
      Some (Inr True)"
    unfolding exec_relays_refines [OF example_relay_env_facts(1), THEN conjunct1]
      example_relay_env_facts(3)
    by (simp add: example_relay_env_facts(2) card_insert_if)
  from quorum_safety [OF example_relay_env_facts(1,2) this] show ?thesis
    unfolding subset_eq [of _ "{d. P d}" for P] mem_Collect_eq .
qed

text \<open>C17. Liveness and exactness of the quorum: when no approval is on record, as many
  distinct authenticated signers as the threshold, in any order, meet it exactly with the
  last approval, which clears the record.\<close>

theorem quorum_exact_round:
  assumes "relay_ok env signers t" "distinct (ds @ [d])" "set (ds @ [d]) \<subseteq> set signers"
    "\<forall>x \<in> set (ds @ [d]). authorized env x" "approvals_of env i = {}" "Suc (length ds) = unat t"
  shows "fst (exec_relays env (map (Approve i) (ds @ [d]))) =
      replicate (length ds) (Some (Inr False)) @ [Some (Inr True)] \<and>
    approvals_of (snd (exec_relays env (map (Approve i) (ds @ [d])))) i = {}"
  by (rule exec_relays_full_round [OF assms])

theorem quorum_exact_round_witness:
  "fst (exec_relays example_relay_env (map (Approve 9) ([''C''] @ [''A'']))) =
     replicate (length [''C'']) (Some (Inr False)) @ [Some (Inr True)] \<and>
   approvals_of (snd (exec_relays example_relay_env (map (Approve 9) ([''C''] @ [''A''])))) 9 = {}"
  by (rule quorum_exact_round [OF example_relay_env_facts(1)])
    (simp_all add: example_relay_env_facts)

text \<open>C36. A met quorum does not consume the call id: the same signers can approve the same id
  again, and the second round reports success as the first did.\<close>

theorem quorum_replay:
  assumes ok: "relay_ok env signers t" and d: "distinct (ds @ [d])" "set (ds @ [d]) \<subseteq> set signers"
    "\<forall>x \<in> set (ds @ [d]). authorized env x" "approvals_of env i = {}" "Suc (length ds) = unat t"
  shows "fst (exec_relays env (map (Approve i) (ds @ [d]) @ map (Approve i) (ds @ [d]))) =
    (replicate (length ds) (Some (Inr False)) @ [Some (Inr True)]) @
    (replicate (length ds) (Some (Inr False)) @ [Some (Inr True)])"
proof -
  let ?e = "snd (exec_relays env (map (Approve i) (ds @ [d])))"
  have ok': "relay_ok ?e signers t" and au: "authorized ?e = authorized env"
    using exec_relays_ok [OF ok] by blast+
  note first = exec_relays_full_round [OF ok d]
  have "\<forall>x \<in> set (ds @ [d]). authorized ?e x" using d(3) au by simp
  from exec_relays_full_round [OF ok' d(1,2) this _ d(5)] first
  show ?thesis unfolding exec_relays_append(1) by simp
qed

theorem quorum_replay_witness:
  "fst (exec_relays example_relay_env
     (map (Approve 9) ([''C''] @ [''A'']) @ map (Approve 9) ([''C''] @ [''A'']))) =
   (replicate (length [''C'']) (Some (Inr False)) @ [Some (Inr True)]) @
   (replicate (length [''C'']) (Some (Inr False)) @ [Some (Inr True)])"
  by (rule quorum_replay [OF example_relay_env_facts(1)])
    (simp_all add: example_relay_env_facts)

end
