(* ===== verification/Status_Index.thy ===== *)
theory Status_Index
  imports Lifecycle
begin

text \<open>
  The status index and the paginated query of \<open>src/storage.rs\<close>.
  \<open>MAX_STATUS_PAGE_LIMIT\<close> is named by the code but defined nowhere under \<open>src/\<close>; it is the
  parameter \<open>max_limit\<close>.
\<close>

definition get_status_index :: "('m, 'u) Env \<Rightarrow> TransactionStatus \<Rightarrow> u64 list host" where
  "get_status_index env status = do {
     o' \<leftarrow> decode as_ids (persistent_get env (DK (StatusIndex status)));
     Some (unwrap_or o' []) }"

text \<open>The \<open>while i < end\<close> loop; \<open>i\<close> is below \<open>end\<close>, so \<open>i += 1\<close> does not overflow.\<close>

function page_loop ::
    "('m, 'u) Env \<Rightarrow> TransactionStatus \<Rightarrow> u64 list \<Rightarrow> u32 \<Rightarrow> u32 \<Rightarrow> 'm Transaction_scheme list \<Rightarrow>
     'm Transaction_scheme list host" where
  "page_loop env status index i e page =
     (if i < e then do {
        let tx_id = index ! unat i;
        o' \<leftarrow> decode as_tx (persistent_get env (DK (Transaction_key (TxU64 tx_id))));
        page_loop env status index (i + 1) e
          (case o' of
             None \<Rightarrow> page
           | Some tx \<Rightarrow> if tx_status tx = status then page @ [tx] else page) }
      else Some page)"
  by pat_completeness auto

termination
  by (relation "measure (\<lambda>(env, status, index, i, e, page). unat e - unat i)")
    (auto simp: unat_Suc_less word_less_nat_alt)

declare page_loop.simps [simp del]

definition get_transactions_by_status ::
    "u32 \<Rightarrow> ('m, 'u) Env \<Rightarrow> TransactionStatus \<Rightarrow> u32 \<Rightarrow> u32 \<Rightarrow>
     (StorageError + 'm Transaction_scheme list) host" where
  "get_transactions_by_status max_limit env status offset limit =
     (if limit = 0 \<or> limit > max_limit then Some (Inl InvalidLimit)
      else do {
        index \<leftarrow> get_status_index env status;
        let total = word_of_nat (length index);
        if total \<le> offset then Some (Inr [])
        else do {
          let e = min (sat_add32 offset limit) total;
          page \<leftarrow> page_loop env status index offset e [];
          Some (Inr page) } })"

subsection \<open>What a page holds\<close>

text \<open>The record of an id, if it exists and is in the status.\<close>

definition resolve :: "('m, 'u) Env \<Rightarrow> TransactionStatus \<Rightarrow> u64 \<Rightarrow> 'm Transaction_scheme list" where
  "resolve env status i = (case get_transaction env (TxU64 i) of
     Some (Some tx) \<Rightarrow> if tx_status tx = status then [tx] else []
   | _ \<Rightarrow> [])"

lemma page_loop_eq:
  assumes "tx_wf env" "unat e \<le> length index" "unat i \<le> unat e"
  shows "page_loop env status index i e page =
    Some (page @ concat (map (resolve env status) (take (unat e - unat i) (drop (unat i) index))))"
  using assms
proof (induction env status index i e page rule: page_loop.induct)
  case (1 env status index i e page)
  show ?case
  proof (cases "i < e")
    case False
    with "1.prems" have "unat e - unat i = 0" by (simp add: word_less_nat_alt)
    with False show ?thesis by (subst page_loop.simps) simp
  next
    case True
    then have lt: "unat i < length index" using "1.prems" by (simp add: word_less_nat_alt)
    from "1.prems"(1) obtain o' where o': "get_transaction env (TxU64 (index ! unat i)) = Some o'"
      by (rule tx_wf_get [where i = "TxU64 (index ! unat i)"])
    let ?page = "case o' of None \<Rightarrow> page
      | Some tx \<Rightarrow> if tx_status tx = status then page @ [tx] else page"
    have page: "?page = page @ resolve env status (index ! unat i)"
      by (simp add: resolve_def o' split: option.split)
    have d: "unat e - unat i = Suc (unat e - unat (i + 1))"
      using True by (simp add: unat_Suc_less word_less_nat_alt)
    have tk: "take (unat e - unat i) (drop (unat i) index) =
        index ! unat i # take (unat e - unat (i + 1)) (drop (unat (i + 1)) index)"
      unfolding d using True lt by (simp add: filter_take_drop_step unat_Suc_less)
    have "page_loop env status index (i + 1) e ?page =
      Some (?page @ concat (map (resolve env status)
        (take (unat e - unat (i + 1)) (drop (unat (i + 1)) index))))"
      by (rule "1.IH" [OF True refl _ "1.prems"(1,2)])
        (use True o' in \<open>simp_all add: unat_Suc_less word_less_nat_alt get_transaction_def\<close>)
    then show ?thesis using True o' page tk
      by (subst page_loop.simps) (simp add: get_transaction_def)
  qed
qed

lemma page_window:
  assumes "length index < 2 ^ 32" "\<not> word_of_nat (length index) \<le> (offset :: u32)"
    and e: "e = min (sat_add32 offset limit) (word_of_nat (length index))"
  shows "unat e = min (unat offset + unat limit) (length index)"
    and "unat e \<le> length index" and "unat offset \<le> unat e"
proof -
  have l: "unat (word_of_nat (length index) :: u32) = length index"
    using assms(1) by (simp add: unat_of_nat take_bit_eq_mod)
  then have "unat e = min (unat (sat_add32 offset limit)) (length index)"
    unfolding e by (metis min_def word_le_nat_alt)
  with assms(1) show w: "unat e = min (unat offset + unat limit) (length index)"
    by (auto simp: unat_sat_add32)
  then show "unat e \<le> length index" by simp
  from assms(2) l have "unat offset < length index" by (metis not_le word_less_nat_alt)
  with w show "unat offset \<le> unat e" by simp
qed

lemma get_transactions_by_status_eq:
  assumes "tx_wf env" "get_status_index env status = Some index" "length index < 2 ^ 32"
    "limit \<noteq> 0" "limit \<le> max_limit"
  shows "get_transactions_by_status max_limit env status offset limit =
    Some (Inr (concat (map (resolve env status)
      (take (unat limit) (drop (unat offset) index)))))"
proof (cases "word_of_nat (length index) \<le> offset")
  case True
  have "unat (word_of_nat (length index) :: u32) = length index"
    using assms(3) by (simp add: unat_of_nat take_bit_eq_mod)
  with True have "length index \<le> unat offset" by (metis word_le_nat_alt)
  with True assms show ?thesis
    by (simp add: get_transactions_by_status_def Let_def not_less)
next
  case False
  let ?e = "min (sat_add32 offset limit) (word_of_nat (length index))"
  note w = page_window [OF assms(3) False refl, of limit]
  have "take (unat ?e - unat offset) (drop (unat offset) index) =
      take (unat limit) (drop (unat offset) index)"
    unfolding w(1) by (cases "unat offset + unat limit \<le> length index") auto
  then show ?thesis using False assms page_loop_eq [OF assms(1) w(2,3), of status "[]"]
    by (simp add: get_transactions_by_status_def Let_def not_less)
qed

lemma resolve_status: "tx \<in> set (resolve env status i) \<Longrightarrow> tx_status tx = status"
  by (auto simp: resolve_def split: option.splits if_splits)

lemma length_resolve: "length (resolve env status i) \<le> 1"
  by (simp add: resolve_def split: option.split)

lemma length_resolves: "length (concat (map (resolve env status) ids)) \<le> length ids"
proof (induction ids)
  case (Cons i ids)
  then show ?case using length_resolve [of env status i] by simp
qed simp


subsection \<open>Properties\<close>

text \<open>C12. A page is exactly the window of the index: with a limit in range, the result is the
  records of the ids from \<open>offset\<close> up to \<open>limit\<close> ids further, in index order, less the ids
  whose record is missing or has moved to another status; it has at most \<open>limit\<close> records,
  all of them in the status asked for, and neither the saturating end of the window nor the
  loop ever traps.\<close>

theorem status_page_window:
  assumes "tx_wf env" "get_status_index env status = Some index" "length index < 2 ^ 32"
    "limit \<noteq> 0" "limit \<le> max_limit"
  shows "\<exists>page. get_transactions_by_status max_limit env status offset limit = Some (Inr page) \<and>
    page = concat (map (resolve env status) (take (unat limit) (drop (unat offset) index))) \<and>
    length page \<le> unat limit \<and> (\<forall>tx \<in> set page. tx_status tx = status)"
proof -
  let ?ids = "take (unat limit) (drop (unat offset) index)"
  have "length (concat (map (resolve env status) ?ids)) \<le> unat limit"
    using length_resolves [of env status ?ids] by simp
  moreover have "\<forall>tx \<in> set (concat (map (resolve env status) ?ids)). tx_status tx = status"
    by (auto dest: resolve_status)
  ultimately show ?thesis using get_transactions_by_status_eq [OF assms, of offset] by blast
qed

definition example_index_env :: "(unit, unit) Env" where
  "example_index_env = set_transaction
     (persistent_set (empty_env (\<lambda>_. True)) (DK (StatusIndex Pending)) (VIds [7, 8]))
     (example_tx\<lparr>tx_id := TxU64 8\<rparr>)"

lemma example_index_env_facts:
  "tx_wf example_index_env"
  "get_status_index example_index_env Pending = Some [7, 8]"
proof -
  have "tx_wf (persistent_set (empty_env (\<lambda>_. True) :: (unit, unit) Env)
      (DK (StatusIndex Pending)) (VIds [7, 8]))"
    by (simp add: tx_wf_def persistent_tier.get_set)
  then show "tx_wf example_index_env"
    unfolding example_index_env_def by (rule tx_wf_set_transaction)
  show "get_status_index example_index_env Pending = Some [7, 8]"
    by (simp add: example_index_env_def get_status_index_def set_transaction_def)
qed

theorem status_page_window_witness:
  "get_transactions_by_status 50 example_index_env Pending 1 4294967295 = Some (Inl InvalidLimit) \<and>
   (\<exists>page. get_transactions_by_status 50 example_index_env Pending 1 50 = Some (Inr page) \<and>
      page = [example_tx\<lparr>tx_id := TxU64 8\<rparr>])"
proof
  show "get_transactions_by_status 50 example_index_env Pending 1 4294967295 = Some (Inl InvalidLimit)"
    by (simp add: get_transactions_by_status_def)
  have "get_transaction example_index_env (TxU64 8) = Some (Some (example_tx\<lparr>tx_id := TxU64 8\<rparr>))"
    by (simp add: example_index_env_def)
  moreover have "tx_status example_tx = Pending" by (simp add: example_tx_def)
  ultimately show "\<exists>page. get_transactions_by_status 50 example_index_env Pending 1 50 = Some (Inr page) \<and>
      page = [example_tx\<lparr>tx_id := TxU64 8\<rparr>]"
    using status_page_window [OF example_index_env_facts, of 50 50 1]
    by (auto simp: resolve_def)
qed

text \<open>C32. Pagination is complete: reading the pages at offsets \<open>0\<close>, \<open>limit\<close>, \<open>2 * limit\<close> and
  so on, while the offset fits in 32 bits, yields together the records of the whole index
  prefix they span, each index entry read once; once the pages span the index, that is every
  record under it.\<close>

theorem status_pages_complete:
  assumes "tx_wf env" "get_status_index env status = Some index" "length index < 2 ^ 32"
    "limit \<noteq> 0" "limit \<le> max_limit" "n * unat limit < 2 ^ 32" "length index \<le> n * unat limit"
  shows "\<exists>pages. map (\<lambda>k. get_transactions_by_status max_limit env status
        (word_of_nat (k * unat limit)) limit) [0..<n] = map (Some \<circ> Inr) pages \<and>
    concat pages = concat (map (resolve env status) index)"
proof -
  let ?chunk = "\<lambda>k. take (unat limit) (drop (k * unat limit) index)"
  let ?pages = "map (\<lambda>k. concat (map (resolve env status) (?chunk k))) [0..<n]"
  have u: "unat (word_of_nat (k * unat limit) :: u32) = k * unat limit" if "k < n" for k
  proof (rule unat_of_nat32)
    from that have "k * unat limit \<le> n * unat limit" by simp
    with assms(6) show "k * unat limit < 2 ^ 32" by linarith
  qed
  have p: "get_transactions_by_status max_limit env status (word_of_nat (k * unat limit)) limit =
      Some (Inr (concat (map (resolve env status) (?chunk k))))" if "k < n" for k
    unfolding get_transactions_by_status_eq [OF assms(1-5)] u [OF that] by (rule refl)
  have "concat ?pages = concat (map (resolve env status) (concat (map ?chunk [0..<n])))"
    by (rule concat_map_concat)
  also have "concat (map ?chunk [0..<n]) = index" unfolding concat_chunks using assms(7) by simp
  finally have "concat ?pages = concat (map (resolve env status) index)" .
  moreover have "map (\<lambda>k. get_transactions_by_status max_limit env status
        (word_of_nat (k * unat limit)) limit) [0..<n] = map (Some \<circ> Inr) ?pages"
    using p by (simp del: of_nat_mult)
  ultimately show ?thesis by blast
qed

theorem status_pages_complete_witness:
  "\<exists>pages. map (\<lambda>k. get_transactions_by_status 50 example_index_env Pending
       (word_of_nat (k * unat (1 :: u32))) 1) [0..<2] = map (Some \<circ> Inr) pages \<and>
     concat pages = concat (map (resolve example_index_env Pending) [7, 8])"
  by (rule status_pages_complete [OF example_index_env_facts]) simp_all

text \<open>The limit is checked first: it is refused exactly when it is zero or above the
  maximum, whatever the store holds.\<close>

theorem status_page_limit:
  "get_transactions_by_status max_limit env status offset limit = Some (Inl e) \<longleftrightarrow>
     e = InvalidLimit \<and> (limit = 0 \<or> max_limit < limit)"
  by (auto simp: get_transactions_by_status_def Let_def bind_eq_Some_conv split: if_splits)

end
