(* ===== verification/Events.thy ===== *)
theory Events
  imports Host
begin

text \<open>
  The emission helpers of \<open>src/events.rs\<close> (and \<open>emit\<close> of \<open>src/storage.rs\<close>): each publishes
  a fixed sequence of events and touches nothing else.  The locale \<open>emitter\<close> is that
  contract; every helper interprets it.
\<close>

definition emit_contract_initialized ::
    "('m, 'u) Env \<Rightarrow> Address \<Rightarrow> Address \<Rightarrow> ('m, 'u) Env" where
  "emit_contract_initialized env admin relay_signer =
     publish env [TSym TOPIC_INIT]
       (PInit \<lparr>init_admin = admin, init_relay_signer = relay_signer\<rparr>)"

definition emit_contract_upgraded :: "('m, 'u) Env \<Rightarrow> bytes32 \<Rightarrow> u32 \<Rightarrow> ('m, 'u) Env" where
  "emit_contract_upgraded env new_wasm_hash schema_version =
     publish env [TSym UPGRADE_TOPIC]
       (PUpgraded \<lparr>up_new_wasm_hash = new_wasm_hash, up_schema_version = schema_version\<rparr>)"

definition emit_guardian_admin_revoked ::
    "('m, 'u) Env \<Rightarrow> Address \<Rightarrow> Address \<Rightarrow> Address \<Rightarrow> ('m, 'u) Env" where
  "emit_guardian_admin_revoked env guardian revoked_admin new_admin =
     publish env [TSym GUARDIAN_REVOKE_TOPIC]
       (PGuardian \<lparr>gr_guardian = guardian, gr_revoked_admin = revoked_admin,
                   gr_new_admin = new_admin\<rparr>)"

definition emit_relay_signer_rotated ::
    "('m, 'u) Env \<Rightarrow> Address \<Rightarrow> Address \<Rightarrow> ('m, 'u) Env" where
  "emit_relay_signer_rotated env old_signer new_signer =
     publish env [TSym RELAY_TOPIC]
       (PRotated \<lparr>rot_old_signer = old_signer, rot_new_signer = new_signer\<rparr>)"

definition emit_forwarding_intent :: "('m, 'u) Env \<Rightarrow> bytes32 \<Rightarrow> Address \<Rightarrow> ('m, 'u) Env" where
  "emit_forwarding_intent env i c =
     publish env [TSym FORWARDING_INTENT] (PForward \<lparr>fwd_tx_id = i, fwd_caller = c\<rparr>)"

definition emit_collateral_bonded ::
    "('m, 'u) Env \<Rightarrow> Address \<Rightarrow> i128 \<Rightarrow> i128 \<Rightarrow> ('m, 'u) Env" where
  "emit_collateral_bonded env signer amount total' =
     publish env [TSym COLLATERAL_BONDED, TAddr signer] (PAmounts amount total')"

definition emit_collateral_unbonded ::
    "('m, 'u) Env \<Rightarrow> Address \<Rightarrow> i128 \<Rightarrow> u32 \<Rightarrow> ('m, 'u) Env" where
  "emit_collateral_unbonded env signer amount unlock_ledger =
     publish env [TSym COLLATERAL_UNBONDED, TAddr signer] (PUnbonded amount unlock_ledger)"

definition emit_unbond_claimed :: "('m, 'u) Env \<Rightarrow> Address \<Rightarrow> i128 \<Rightarrow> ('m, 'u) Env" where
  "emit_unbond_claimed env signer amount =
     publish env [TSym UNBOND_CLAIMED, TAddr signer] (PAmount amount)"

definition emit_fail :: "('m, 'u) Env \<Rightarrow> u64 \<Rightarrow> string \<Rightarrow> ('m, 'u) Env" where
  "emit_fail env i reason = publish env [TSym FAIL_TOPIC, TId i] (PReason reason)"

definition emit_reg :: "('m, 'u) Env \<Rightarrow> u64 \<Rightarrow> ('m, 'u) Env" where
  "emit_reg env i = publish env [TSym REG_TOPIC] (PTxId i)"

definition emit_cancel :: "('m, 'u) Env \<Rightarrow> u64 \<Rightarrow> string \<Rightarrow> ('m, 'u) Env" where
  "emit_cancel env i reason =
     publish env [TSym CANCEL_TOPIC, TId i]
       (PCancelled \<lparr>cancelled_tx_id = i, cancelled_reason = reason\<rparr>)"

definition emit_status :: "('m, 'u) Env \<Rightarrow> u64 \<Rightarrow> u32 \<Rightarrow> ('m, 'u) Env" where
  "emit_status env i status = publish env [TSym TOPIC_STATUS, TId i] (PStatus status)"

definition emit_done :: "('m, 'u) Env \<Rightarrow> u64 \<Rightarrow> bytes32 \<Rightarrow> ('m, 'u) Env" where
  "emit_done env i stellar_tx_hash =
     publish env [TSym TOPIC_DONE, TId i] (PHash stellar_tx_hash)"

definition emit_status_then_done ::
    "('m, 'u) Env \<Rightarrow> u64 \<Rightarrow> u32 \<Rightarrow> bytes32 \<Rightarrow> ('m, 'u) Env" where
  "emit_status_then_done env i status stellar_tx_hash =
     emit_done (emit_status env i status) i stellar_tx_hash"

definition emit_single :: "('m, 'u) Env \<Rightarrow> string \<Rightarrow> u64 \<Rightarrow> Payload \<Rightarrow> ('m, 'u) Env" where
  "emit_single env topic i payload = publish env [TSym topic, TId i] payload"

definition emit_address :: "('m, 'u) Env \<Rightarrow> string \<Rightarrow> u64 \<Rightarrow> Address \<Rightarrow> ('m, 'u) Env" where
  "emit_address env topic i payload = publish env [TSym topic, TId i] (PAddress payload)"

definition emit :: "('m, 'u) Env \<Rightarrow> string list \<Rightarrow> Payload \<Rightarrow> ('m, 'u) Env" where
  "emit env topics data = publish env (map TSym topics) data"

lemmas emit_defs =
  emit_contract_initialized_def emit_contract_upgraded_def emit_guardian_admin_revoked_def
  emit_relay_signer_rotated_def emit_forwarding_intent_def emit_collateral_bonded_def
  emit_collateral_unbonded_def emit_unbond_claimed_def emit_fail_def emit_reg_def emit_cancel_def
  emit_status_def emit_done_def emit_status_then_done_def emit_single_def emit_address_def
  emit_def

subsection \<open>The contract of an emitter\<close>

locale emitter =
  fixes emitted :: "('m, 'u) Env \<Rightarrow> ('m, 'u) Env"
    and log :: "Event list"
  assumes appends: "emitted env = env\<lparr>events := events env @ log\<rparr>"
begin

lemma log_grows: "events (emitted env) = events env @ log"
  by (simp add: appends)

lemma storage_frame:
  "persistent_get (emitted env) = persistent_get env"
  "instance_get (emitted env) = instance_get env"
  "temporary_get (emitted env) = temporary_get env"
  by (simp_all add: appends tier_defs fun_eq_iff)

lemma auth_frame: "authorized (emitted env) = authorized env"
  by (simp add: appends)

lemma only_log: "e \<in> set (events (emitted env)) \<Longrightarrow> e \<notin> set (events env) \<Longrightarrow> e \<in> set log"
  by (simp add: appends)

end

interpretation ev_init: emitter "\<lambda>env. emit_contract_initialized env a r"
  "[([TSym ''init''], PInit \<lparr>init_admin = a, init_relay_signer = r\<rparr>)]" for a r
  by unfold_locales (simp add: emit_defs publish_def topic_defs)

interpretation ev_upgrade: emitter "\<lambda>env. emit_contract_upgraded env h v"
  "[([TSym ''upgrade''], PUpgraded \<lparr>up_new_wasm_hash = h, up_schema_version = v\<rparr>)]" for h v
  by unfold_locales (simp add: emit_defs publish_def topic_defs)

interpretation ev_guardian: emitter "\<lambda>env. emit_guardian_admin_revoked env g old new"
  "[([TSym ''guardian_revoke''],
     PGuardian \<lparr>gr_guardian = g, gr_revoked_admin = old, gr_new_admin = new\<rparr>)]" for g old new
  by unfold_locales (simp add: emit_defs publish_def topic_defs)

interpretation ev_rotated: emitter "\<lambda>env. emit_relay_signer_rotated env old new"
  "[([TSym ''relay''], PRotated \<lparr>rot_old_signer = old, rot_new_signer = new\<rparr>)]" for old new
  by unfold_locales (simp add: emit_defs publish_def topic_defs)

interpretation ev_forward: emitter "\<lambda>env. emit_forwarding_intent env i c"
  "[([TSym ''fwd_intent''], PForward \<lparr>fwd_tx_id = i, fwd_caller = c\<rparr>)]" for i c
  by unfold_locales (simp add: emit_defs publish_def topic_defs)

interpretation ev_bonded: emitter "\<lambda>env. emit_collateral_bonded env s a t"
  "[([TSym ''bonded'', TAddr s], PAmounts a t)]" for s a t
  by unfold_locales (simp add: emit_defs publish_def topic_defs)

interpretation ev_unbonded: emitter "\<lambda>env. emit_collateral_unbonded env s a l"
  "[([TSym ''unbonded'', TAddr s], PUnbonded a l)]" for s a l
  by unfold_locales (simp add: emit_defs publish_def topic_defs)

interpretation ev_claimed: emitter "\<lambda>env. emit_unbond_claimed env s a"
  "[([TSym ''claimed'', TAddr s], PAmount a)]" for s a
  by unfold_locales (simp add: emit_defs publish_def topic_defs)

interpretation ev_fail: emitter "\<lambda>env. emit_fail env i r" "[([TSym ''fail'', TId i], PReason r)]"
  for i r
  by unfold_locales (simp add: emit_defs publish_def topic_defs)

interpretation ev_reg: emitter "\<lambda>env. emit_reg env i" "[([TSym ''reg''], PTxId i)]" for i
  by unfold_locales (simp add: emit_defs publish_def topic_defs)

interpretation ev_cancel: emitter "\<lambda>env. emit_cancel env i r"
  "[([TSym ''cancel'', TId i], PCancelled \<lparr>cancelled_tx_id = i, cancelled_reason = r\<rparr>)]" for i r
  by unfold_locales (simp add: emit_defs publish_def topic_defs)

interpretation ev_status: emitter "\<lambda>env. emit_status env i s"
  "[([TSym ''status'', TId i], PStatus s)]" for i s
  by unfold_locales (simp add: emit_defs publish_def topic_defs)

interpretation ev_done: emitter "\<lambda>env. emit_done env i h" "[([TSym ''done'', TId i], PHash h)]"
  for i h
  by unfold_locales (simp add: emit_defs publish_def topic_defs)

interpretation ev_completion: emitter "\<lambda>env. emit_status_then_done env i s h"
  "[([TSym ''status'', TId i], PStatus s), ([TSym ''done'', TId i], PHash h)]" for i s h
  by unfold_locales (simp add: emit_defs publish_def topic_defs)

interpretation ev_single: emitter "\<lambda>env. emit_single env t i p" "[([TSym t, TId i], p)]" for t i p
  by unfold_locales (simp add: emit_defs publish_def)

interpretation ev_address: emitter "\<lambda>env. emit_address env t i a"
  "[([TSym t, TId i], PAddress a)]" for t i a
  by unfold_locales (simp add: emit_defs publish_def)

interpretation ev_raw: emitter "\<lambda>env. emit env ts d" "[(map TSym ts, d)]" for ts d
  by unfold_locales (simp add: emit_defs publish_def)

subsection \<open>Reading the log\<close>

text \<open>The name of an event is its first topic; a consumer filters the log by it.\<close>

definition named :: "string \<Rightarrow> Event \<Rightarrow> bool" where
  "named t e \<longleftrightarrow> (case fst e of TSym s # _ \<Rightarrow> s = t | _ \<Rightarrow> False)"

definition all_topics :: "string list" where
  "all_topics = [TOPIC_INIT, UPGRADE_TOPIC, GUARDIAN_REVOKE_TOPIC, RELAY_TOPIC, FORWARDING_INTENT,
     COLLATERAL_BONDED, COLLATERAL_UNBONDED, UNBOND_CLAIMED, FAIL_TOPIC, CANCEL_TOPIC, REG_TOPIC,
     TOPIC_STATUS, TOPIC_DONE]"


subsection \<open>Properties\<close>

text \<open>No emitter touches the contract's storage or the authorisations, and each appends
  its own events to the end of the log, so what was logged stays.\<close>

theorem emitters_append_only:
  "list_all (\<lambda>f. persistent_get (f env) = persistent_get env \<and>
       instance_get (f env) = instance_get env \<and> temporary_get (f env) = temporary_get env \<and>
       authorized (f env) = authorized env \<and>
       (\<exists>log. log \<noteq> [] \<and> events (f env) = events env @ log))
     [\<lambda>env. emit_contract_initialized env a b, \<lambda>env. emit_contract_upgraded env h v,
      \<lambda>env. emit_guardian_admin_revoked env g a b, \<lambda>env. emit_relay_signer_rotated env a b,
      \<lambda>env. emit_forwarding_intent env h a, \<lambda>env. emit_collateral_bonded env a m n,
      \<lambda>env. emit_collateral_unbonded env a m l, \<lambda>env. emit_unbond_claimed env a m,
      \<lambda>env. emit_fail env i r, \<lambda>env. emit_reg env i, \<lambda>env. emit_cancel env i r,
      \<lambda>env. emit_status env i s, \<lambda>env. emit_done env i h, \<lambda>env. emit_status_then_done env i s h,
      \<lambda>env. emit_single env t i p, \<lambda>env. emit_address env t i a, \<lambda>env. emit env ts p]"
  by (simp add: emit_defs)

text \<open>On completion the \<open>status\<close> event precedes the \<open>done\<close> event of the same transaction,
  with nothing between and nothing after them, and both carry its id as a topic.\<close>

theorem status_then_done_order:
  "\<exists>st dn. events (emit_status_then_done env i s h) = events env @ [st, dn] \<and>
     named TOPIC_STATUS st \<and> named TOPIC_DONE dn \<and> \<not> named TOPIC_DONE st \<and>
     fst st ! 1 = TId i \<and> fst dn ! 1 = TId i \<and> snd st = PStatus s \<and> snd dn = PHash h"
  unfolding ev_completion.log_grows by (simp add: named_def topic_defs)

text \<open>The thirteen topic names are pairwise different, so no consumer confuses two kinds
  of events; but \<open>guardian_revoke\<close> and \<open>fwd_intent\<close>, and no others, are longer than the nine
  characters \<open>symbol_short!\<close> accepts.\<close>

theorem topic_names:
  "distinct all_topics \<and>
   filter (\<lambda>t. 9 < length t) all_topics = [GUARDIAN_REVOKE_TOPIC, FORWARDING_INTENT]"
  by (simp add: all_topics_def topic_defs)

end
