(* ===== verification/Storage_System.thy ===== *)
theory Storage_System
  imports Treasury Lifecycle_Calls Relay_Quorum Status_Index Events
begin

text \<open>
  The storage layer as one system: a step relation with a rule for every function of
  \<open>src/storage.rs\<close> that writes, the stores reachable from an empty ledger, the typing
  invariant of the store, and what no sequence of writes can do.
\<close>

subsection \<open>Steps\<close>

text \<open>\<open>P\<close> says which keys callers hand to \<open>set_flag\<close>, whose key is arbitrary.  The
  environment may also drop temporary entries and change authorisations and ledger
  sequence between invocations.\<close>

definition log_only :: "(('m, 'u) Env \<Rightarrow> Address \<Rightarrow> ('m, 'u) Env) \<Rightarrow> bool" where
  "log_only f \<longleftrightarrow> (\<forall>env a. \<exists>l. f env a = env\<lparr>events := events env @ l\<rparr>)"

inductive storage_step :: "(DataKey \<Rightarrow> bool) \<Rightarrow> ('m, 'u) Env \<Rightarrow> ('m, 'u) Env \<Rightarrow> bool"
  for P where
  st_balance: "storage_step P env (set_treasury_balance env b)"
| st_config: "storage_step P env (set_treasury_config env cfg)"
| st_epoch: "storage_step P env (set_epoch_withdrawn env b)"
| st_next_id: "next_withdrawal_id env = Some (i, env') \<Longrightarrow> storage_step P env env'"
| st_withdrawal: "storage_step P env (set_pending_withdrawal env i w)"
| st_remove: "storage_step P env (remove_pending_withdrawal env i)"
| st_accrued: "storage_step P env (set_treasury_accrued env b)"
| st_fee: "storage_step P env (accrue_completion_fee env tx)"
| st_record: "storage_step P env (set_transaction env rec)"
| st_hash: "set_stellar_tx_hash set_transaction env tx h = Some env' \<Longrightarrow> storage_step P env env'"
| st_status: "set_transaction_status env i s = Some env' \<Longrightarrow> storage_step P env env'"
| st_lifecycle: "exec_call max_reason env x = Some (r, env') \<Longrightarrow> storage_step P env env'"
| st_relayer: "storage_step P env (set_relayer env a)"
| st_admin: "storage_step P env (set_admin env a)"
| st_flag: "P k \<Longrightarrow> storage_step P env (set_flag env k v)"
| st_tag: "add_transaction_tag env i t = Some env' \<Longrightarrow> storage_step P env env'"
| st_signer: "log_only added \<Longrightarrow> add_relay_signer added env a n = Some (ru, env') \<Longrightarrow>
    storage_step P env env'"
| st_approve: "approve_relay_call env i a = Some (rb, env') \<Longrightarrow> storage_step P env env'"
| st_emit: "storage_step P env (emit env ts d)"
| st_expire: "storage_step P env (temporary_remove env k)"
| st_host: "storage_step P env (env\<lparr>authorized := auths, sequence := n\<rparr>)"

inductive reachable :: "(DataKey \<Rightarrow> bool) \<Rightarrow> ('m, 'u) Env \<Rightarrow> bool" for P where
  start: "reachable P (empty_env a)"
| step: "reachable P env \<Longrightarrow> storage_step P env env' \<Longrightarrow> reachable P env'"

subsection \<open>What each operation writes\<close>

lemma log_only_frame:
  assumes "log_only f"
  shows "persistent_get (f env a) = persistent_get env"
    and "instance_get (f env a) = instance_get env"
    and "temporary_get (f env a) = temporary_get env"
proof -
  from assms obtain l where "f env a = env\<lparr>events := events env @ l\<rparr>"
    unfolding log_only_def by blast
  then show "persistent_get (f env a) = persistent_get env"
    and "instance_get (f env a) = instance_get env"
    and "temporary_get (f env a) = temporary_get env"
    by (simp_all add: tier_defs fun_eq_iff)
qed

lemma set_transaction_frame [simp]:
  "instance_get (set_transaction env tx) = instance_get env"
  "temporary_get (set_transaction env tx) = temporary_get env"
  by (simp_all add: set_transaction_def)

lemma transition_status_env:
  "transition_status env i S t c r = Some (res, env') \<Longrightarrow>
     env' = env \<or> (\<exists>tx. env' = set_transaction env tx)"
  by (auto simp: transition_status_def Let_def bind_eq_Some_conv split: option.splits if_splits)

lemma exec_call_env:
  "exec_call max_reason env x = Some (res, env') \<Longrightarrow>
     env' = env \<or> (\<exists>tx. env' = set_transaction env tx)"
  by (cases x) (auto simp: start_processing_def complete_transaction_def cancel_transaction_def
      fail_transaction_def assert_status_and_transition_def split: if_splits
      dest: transition_status_env)

lemma set_transaction_status_env:
  "set_transaction_status env i s = Some env' \<Longrightarrow>
     env' = env \<or> (\<exists>tx. env' = set_transaction env tx)"
  by (auto simp: set_transaction_status_def bind_eq_Some_conv split: option.splits)

lemma set_stellar_tx_hash_env:
  "set_stellar_tx_hash set_transaction env i h = Some env' \<Longrightarrow> \<exists>tx. env' = set_transaction env tx"
  by (auto simp: set_stellar_tx_hash_def bind_eq_Some_conv)

lemma approve_relay_call_env:
  "approve_relay_call env i c = Some (res, env') \<Longrightarrow>
     env' = env \<or> env' = temporary_remove env (DK (RelayApprovals i)) \<or>
     (\<exists>as. env' = temporary_set env (DK (RelayApprovals i)) (VAddrs as))"
  by (auto simp: approve_relay_call_def Let_def bind_eq_Some_conv split: if_splits)

lemma add_relay_signer_env:
  assumes "log_only added" "add_relay_signer added env c n = Some (res, env')"
  shows "env' = env \<or> (decode as_addr (instance_get env (DK Admin)) = Some (Some c) \<and>
     persistent_get env' = persistent_get env \<and> temporary_get env' = temporary_get env \<and>
     (\<exists>signers. get_relay_signers env = Some signers \<and> n \<notin> set signers \<and>
        instance_get env' =
          instance_get (instance_set env (DK RelaySigners) (VAddrs (signers @ [n])))))"
proof (cases res)
  case (Inl e)
  with assms(2) show ?thesis
    by (auto simp: add_relay_signer_def require_auth_def bind_eq_Some_conv Let_def
        split: if_splits option.splits)
next
  case (Inr u)
  with assms(2) add_relay_signer_cases [of added env c n u env'] obtain signers where
    "decode as_addr (instance_get env (DK Admin)) = Some (Some c)"
    "get_relay_signers env = Some signers" "n \<notin> set signers"
    "env' = added (instance_set env (DK RelaySigners) (VAddrs (signers @ [n]))) n" by auto
  with log_only_frame [OF assms(1)] show ?thesis by auto
qed

end
