(* ===== verification/Storage_Invariants.thy ===== *)
theory Storage_Invariants
  imports Storage_System
begin

text \<open>Invariants of the storage system, by rule induction over \<open>storage_step\<close>.\<close>

subsection \<open>The instance-tier identities are never written\<close>

lemma add_relay_signer_no_admin:
  assumes "log_only added" "add_relay_signer added env c n = Some (res, env')"
    "instance_get env (DK Admin) = None"
  shows "env' = env"
  using add_relay_signer_env [OF assms(1,2)] assms(3) by auto

lemma instance_frame_tk [simp]:
  "instance_get (instance_set env (TK k) v) (DK k') = instance_get env (DK k')"
  by (simp add: instance_tier.get_set)

lemma storage_step_instance_dk:
  assumes "storage_step P env env'" "instance_get env (DK Admin) = None"
  shows "instance_get env' (DK k) = instance_get env (DK k)"
  using assms(1)
proof cases
  case (st_next_id i)
  then show ?thesis by (auto simp: next_withdrawal_id_cases)
next
  case (st_hash tx h)
  then show ?thesis by (auto dest: set_stellar_tx_hash_env)
next
  case (st_status i s)
  then show ?thesis by (auto dest: set_transaction_status_env)
next
  case (st_lifecycle max_reason x r)
  then show ?thesis by (auto dest: exec_call_env)
next
  case (st_tag i t)
  then show ?thesis by (simp add: add_transaction_tag_frame)
next
  case (st_signer added a n ru)
  then show ?thesis using add_relay_signer_no_admin assms(2) by blast
next
  case (st_approve i a rb)
  then show ?thesis by (auto dest: approve_relay_call_env)
next
  case st_host
  then show ?thesis by (simp add: tier_defs)
qed (simp_all add: op_defs emit_def)

lemma reachable_instance_dk: "reachable P env \<Longrightarrow> instance_get env (DK k) = None"
proof (induction arbitrary: k rule: reachable.induct)
  case (start a)
  show ?case by simp
next
  case (step env env')
  from storage_step_instance_dk [OF step.hyps(2) step.IH] step.IH show ?case by simp
qed

subsection \<open>Withdrawal ids\<close>

lemma withdrawal_counter_cong:
  "instance_get env' (TK WithdrawalCounter) = instance_get env (TK WithdrawalCounter) \<Longrightarrow>
     withdrawal_counter env' = withdrawal_counter env"
  by (simp add: withdrawal_counter_def)

lemma storage_step_counter:
  assumes "storage_step P env env'" "withdrawal_counter env = Some n"
  shows "\<exists>m. withdrawal_counter env' = Some m \<and> n \<le> m"
proof (cases "\<exists>i. next_withdrawal_id env = Some (i, env')")
  case True
  then obtain i where i: "next_withdrawal_id env = Some (i, env')" by blast
  from next_withdrawal_id_counter [OF i] assms(2) show ?thesis
    by (auto simp: word_le_nat_alt)
next
  case False
  from assms(1) have "instance_get env' (TK WithdrawalCounter) = instance_get env (TK WithdrawalCounter)"
  proof cases
    case (st_next_id i)
    with False show ?thesis by blast
  next
    case (st_hash tx h)
    then show ?thesis by (auto dest: set_stellar_tx_hash_env)
  next
    case (st_status i s)
    then show ?thesis by (auto dest: set_transaction_status_env)
  next
    case (st_lifecycle max_reason x r)
    then show ?thesis by (auto dest: exec_call_env)
  next
    case (st_tag i t)
    then show ?thesis by (simp add: add_transaction_tag_frame)
  next
    case (st_signer added a n ru)
    then show ?thesis by (auto dest!: add_relay_signer_env simp: instance_tier.get_set)
  next
    case (st_approve i a rb)
    then show ?thesis by (auto dest: approve_relay_call_env)
  next
    case st_host
    then show ?thesis by (simp add: tier_defs)
  qed (simp_all add: op_defs emit_def instance_tier.get_set)
  then have "withdrawal_counter env' = withdrawal_counter env" by (rule withdrawal_counter_cong)
  with assms(2) show ?thesis by auto
qed

text \<open>A run that hands out ids, interleaved with any other steps.\<close>

inductive allocates :: "(DataKey \<Rightarrow> bool) \<Rightarrow> ('m, 'u) Env \<Rightarrow> u64 list \<Rightarrow> ('m, 'u) Env \<Rightarrow> bool"
  for P where
  none: "allocates P env [] env"
| other: "allocates P env is env1 \<Longrightarrow> storage_step P env1 env2 \<Longrightarrow> allocates P env is env2"
| allocate: "allocates P env is env1 \<Longrightarrow> next_withdrawal_id env1 = Some (i, env2) \<Longrightarrow>
    allocates P env (is @ [i]) env2"

lemma allocates_bound:
  assumes "allocates P env is env'" "withdrawal_counter env = Some n"
  shows "\<exists>m. withdrawal_counter env' = Some m \<and> n \<le> m \<and> (\<forall>i \<in> set is. n \<le> i \<and> i < m) \<and>
    sorted_wrt (<) is"
  using assms
proof (induction rule: allocates.induct)
  case (none env)
  then show ?case by simp
next
  case (other env "is" env1 env2)
  then obtain m where m: "withdrawal_counter env1 = Some m" "n \<le> m"
    "\<forall>i \<in> set is. n \<le> i \<and> i < m" "sorted_wrt (<) is" by blast
  from storage_step_counter [OF other.hyps(2) m(1)] obtain m2
    where "withdrawal_counter env2 = Some m2" "m \<le> m2" by blast
  with m show ?case by (auto intro: order.trans order.strict_trans2)
next
  case (allocate env "is" env1 i env2)
  then obtain m where m: "withdrawal_counter env1 = Some m" "n \<le> m"
    "\<forall>i \<in> set is. n \<le> i \<and> i < m" "sorted_wrt (<) is" by blast
  note c = next_withdrawal_id_counter [OF allocate.hyps(2)]
  from c obtain j where j: "withdrawal_counter env2 = Some j" "unat j = Suc (unat i)" by blast
  from c m(1) have "i = m" by simp
  with j have "unat m < unat j" by simp
  then have "m < j" by (simp add: word_less_nat_alt)
  with m j \<open>i = m\<close> show ?case by (auto simp: sorted_wrt_append intro: order.strict_trans)
qed

subsection \<open>The status index is never written\<close>

lemma storage_step_index:
  assumes "storage_step P env env'"
    "\<forall>s v. persistent_get env (DK (StatusIndex s)) = Some v \<longrightarrow> (\<exists>b. v = VBool b)"
  shows "\<forall>s v. persistent_get env' (DK (StatusIndex s)) = Some v \<longrightarrow> (\<exists>b. v = VBool b)"
  using assms(1)
proof cases
  case (st_next_id i)
  with assms(2) show ?thesis by (auto simp: next_withdrawal_id_cases)
next
  case (st_hash tx h)
  with assms(2) show ?thesis
    by (auto dest!: set_stellar_tx_hash_env simp: set_transaction_def)
next
  case (st_status i s)
  with assms(2) show ?thesis
    by (auto dest!: set_transaction_status_env simp: set_transaction_def)
next
  case (st_lifecycle max_reason x r)
  with assms(2) show ?thesis by (auto dest!: exec_call_env simp: set_transaction_def)
next
  case (st_tag i t)
  with assms(2) show ?thesis by (simp add: add_transaction_tag_frame)
next
  case (st_signer added a n ru)
  with assms(2) show ?thesis by (auto dest!: add_relay_signer_env)
next
  case (st_approve i a rb)
  with assms(2) show ?thesis by (auto dest: approve_relay_call_env)
next
  case st_host
  with assms(2) show ?thesis by (simp add: tier_defs)
qed (use assms(2) in \<open>auto simp: op_defs emit_def persistent_tier.get_set persistent_tier.get_remove
      split: if_splits\<close>)

lemma reachable_index:
  "reachable P env \<Longrightarrow> persistent_get env (DK (StatusIndex s)) = Some v \<Longrightarrow> \<exists>b. v = VBool b"
proof (induction arbitrary: s v rule: reachable.induct)
  case (start a)
  then show ?case by simp
next
  case (step env env')
  from storage_step_index [OF step.hyps(2)] step.IH step.prems show ?case by blast
qed

end
