(* ===== verification/Store_Typing.thy ===== *)
theory Store_Typing
  imports Storage_Invariants
begin

text \<open>
  The typing invariant of the store: under every key stands a value of the Rust type its
  readers decode.  It holds of every reachable store as long as \<open>set_flag\<close> is used on
  flag keys only, and under it no read traps.
\<close>

fun persistent_ok :: "StorageKey \<Rightarrow> ('m, 'u) Val \<Rightarrow> bool" where
  "persistent_ok (DK (Transaction_key i)) v \<longleftrightarrow> (\<exists>tx. v = VTx tx \<and> tx_id tx = i)"
| "persistent_ok (DK TreasuryAccrued) v \<longleftrightarrow> as_i128 v \<noteq> None"
| "persistent_ok (DK (Relayer a)) v \<longleftrightarrow> as_bool v \<noteq> None"
| "persistent_ok (DK Admin) v \<longleftrightarrow> as_addr v \<noteq> None"
| "persistent_ok (DK (TransactionTags i)) v \<longleftrightarrow> as_strs v \<noteq> None"
| "persistent_ok (DK (StatusIndex s)) v \<longleftrightarrow> as_ids v \<noteq> None"
| "persistent_ok (DK RelaySigner) v \<longleftrightarrow> as_bool v \<noteq> None"
| "persistent_ok (DK RelaySigners) v \<longleftrightarrow> as_bool v \<noteq> None"
| "persistent_ok (DK RelayThreshold) v \<longleftrightarrow> as_bool v \<noteq> None"
| "persistent_ok (DK (RelayApprovals i)) v \<longleftrightarrow> as_bool v \<noteq> None"
| "persistent_ok (TK (PendingWithdrawal_key i)) v \<longleftrightarrow> as_withdrawal v \<noteq> None"
| "persistent_ok (TK _) v \<longleftrightarrow> True"
| "persistent_ok (BK (Bond a)) v \<longleftrightarrow> as_bond v \<noteq> None"
| "persistent_ok (BK (Unbond a)) v \<longleftrightarrow> as_unbond v \<noteq> None"

fun instance_ok :: "StorageKey \<Rightarrow> ('m, 'u) Val \<Rightarrow> bool" where
  "instance_ok (TK TreasuryBalance) v \<longleftrightarrow> as_i128 v \<noteq> None"
| "instance_ok (TK TreasuryConfig_key) v \<longleftrightarrow> as_config v \<noteq> None"
| "instance_ok (TK EpochWithdrawn) v \<longleftrightarrow> as_i128 v \<noteq> None"
| "instance_ok (TK WithdrawalCounter) v \<longleftrightarrow> as_u64 v \<noteq> None"
| "instance_ok (DK Admin) v \<longleftrightarrow> as_addr v \<noteq> None"
| "instance_ok (DK RelaySigner) v \<longleftrightarrow> as_addr v \<noteq> None"
| "instance_ok (DK RelaySigners) v \<longleftrightarrow> (\<exists>as. v = VAddrs as \<and> distinct as)"
| "instance_ok (DK RelayThreshold) v \<longleftrightarrow> as_u32 v \<noteq> None"
| "instance_ok _ v \<longleftrightarrow> True"

fun temporary_ok :: "StorageKey \<Rightarrow> ('m, 'u) Val \<Rightarrow> bool" where
  "temporary_ok (DK (RelayApprovals i)) v \<longleftrightarrow> (\<exists>as. v = VAddrs as \<and> distinct as)"
| "temporary_ok _ v \<longleftrightarrow> True"

definition store_wf :: "('m, 'u) Env \<Rightarrow> bool" where
  "store_wf env \<longleftrightarrow>
     (\<forall>k v. persistent_get env k = Some v \<longrightarrow> persistent_ok k v) \<and>
     (\<forall>k v. instance_get env k = Some v \<longrightarrow> instance_ok k v) \<and>
     (\<forall>k v. temporary_get env k = Some v \<longrightarrow> temporary_ok k v)"

text \<open>The keys under which a flag is a well-typed value: the per-relayer flags, and the
  keys no function reads from the persistent tier.\<close>

fun flag_key :: "DataKey \<Rightarrow> bool" where
  "flag_key (Relayer a) = True"
| "flag_key RelaySigner = True"
| "flag_key RelaySigners = True"
| "flag_key RelayThreshold = True"
| "flag_key (RelayApprovals i) = True"
| "flag_key _ = False"

lemma flag_key_ok: "flag_key k \<Longrightarrow> persistent_ok (DK k) (VBool b)"
  by (cases k) simp_all

lemma store_wf_empty: "store_wf (empty_env a)"
  by (simp add: store_wf_def)

lemma store_wf_tx_wf: "store_wf env \<Longrightarrow> tx_wf env"
  unfolding store_wf_def tx_wf_def by (meson persistent_ok.simps(1))

lemma store_wf_persistent: "store_wf env \<Longrightarrow> persistent_ok k v \<Longrightarrow> store_wf (persistent_set env k v)"
  by (auto simp: store_wf_def persistent_tier.get_set)

lemma store_wf_instance: "store_wf env \<Longrightarrow> instance_ok k v \<Longrightarrow> store_wf (instance_set env k v)"
  by (auto simp: store_wf_def instance_tier.get_set)

lemma store_wf_temporary: "store_wf env \<Longrightarrow> temporary_ok k v \<Longrightarrow> store_wf (temporary_set env k v)"
  by (auto simp: store_wf_def temporary_tier.get_set)

lemma store_wf_remove:
  "store_wf env \<Longrightarrow> store_wf (persistent_remove env k)"
  "store_wf env \<Longrightarrow> store_wf (temporary_remove env k)"
  by (auto simp: store_wf_def persistent_tier.get_remove temporary_tier.get_remove)

lemma store_wf_cong:
  assumes "store_wf env" "persistent_get env' = persistent_get env"
    "instance_get env' = instance_get env" "temporary_get env' = temporary_get env"
  shows "store_wf env'"
  using assms unfolding store_wf_def by simp

lemma store_wf_set_transaction: "store_wf env \<Longrightarrow> store_wf (set_transaction env tx)"
  unfolding set_transaction_def by (rule store_wf_persistent) simp_all

subsection \<open>No read traps\<close>

text \<open>A decoder that accepts every well-typed value under a key reads without a trap.\<close>

lemma decode_total:
  "(\<And>v. x = Some v \<Longrightarrow> d v \<noteq> None) \<Longrightarrow> decode d x \<noteq> None"
  by (cases x) auto

lemma decode_persistent:
  assumes "store_wf env" "\<And>v. persistent_ok k v \<Longrightarrow> d v \<noteq> None"
  shows "decode d (persistent_get env k) \<noteq> None"
  using assms by (intro decode_total) (auto simp: store_wf_def)

lemma decode_instance:
  assumes "store_wf env" "\<And>v. instance_ok k v \<Longrightarrow> d v \<noteq> None"
  shows "decode d (instance_get env k) \<noteq> None"
  using assms by (intro decode_total) (auto simp: store_wf_def)

lemma store_wf_reads:
  assumes "store_wf env"
  shows "decode as_tx (persistent_get env (DK (Transaction_key i))) \<noteq> None"
    and "decode as_i128 (persistent_get env (DK TreasuryAccrued)) \<noteq> None"
    and "decode as_bool (persistent_get env (DK (Relayer a))) \<noteq> None"
    and "decode as_addr (persistent_get env (DK Admin)) \<noteq> None"
    and "decode as_strs (persistent_get env (DK (TransactionTags j))) \<noteq> None"
    and "decode as_ids (persistent_get env (DK (StatusIndex s))) \<noteq> None"
    and "decode as_withdrawal (persistent_get env (TK (PendingWithdrawal_key j))) \<noteq> None"
    and "decode as_bond (persistent_get env (BK (Bond a))) \<noteq> None"
    and "decode as_unbond (persistent_get env (BK (Unbond a))) \<noteq> None"
    and "decode as_i128 (instance_get env (TK TreasuryBalance)) \<noteq> None"
    and "decode as_config (instance_get env (TK TreasuryConfig_key)) \<noteq> None"
    and "decode as_i128 (instance_get env (TK EpochWithdrawn)) \<noteq> None"
    and "decode as_u64 (instance_get env (TK WithdrawalCounter)) \<noteq> None"
    and "decode as_addr (instance_get env (DK RelaySigner)) \<noteq> None"
    and "decode as_addr (instance_get env (DK Admin)) \<noteq> None"
    and "decode as_u32 (instance_get env (DK RelayThreshold)) \<noteq> None"
  by (rule decode_persistent [OF assms] decode_instance [OF assms]; auto)+

lemma store_wf_signers:
  assumes "store_wf env"
  obtains signers where "get_relay_signers env = Some signers" "distinct signers"
proof (cases "instance_get env (DK RelaySigners)")
  case None
  from store_wf_reads(14) [OF assms] obtain b
    where "decode as_addr (instance_get env (DK RelaySigner)) = Some b" by blast
  with None that show ?thesis by (cases b) (simp_all add: get_relay_signers_def)
next
  case (Some v)
  with assms obtain as where "v = VAddrs as" "distinct as"
    unfolding store_wf_def by (meson instance_ok.simps)
  with Some that show ?thesis by (simp add: get_relay_signers_def)
qed

lemma store_wf_relay_ok:
  assumes "store_wf env"
  obtains signers t where "relay_ok env signers t" "distinct signers"
proof -
  from assms obtain signers where s: "get_relay_signers env = Some signers" "distinct signers"
    by (rule store_wf_signers)
  from store_wf_reads(16) [OF assms] obtain t where t: "get_relay_threshold env = Some t"
    by (auto simp: get_relay_threshold_def)
  have "\<exists>as. get_relay_approvals env i = Some as \<and> distinct as" for i
  proof (cases "temporary_get env (DK (RelayApprovals i))")
    case None
    then show ?thesis by (simp add: get_relay_approvals_def)
  next
    case (Some v)
    with assms have "temporary_ok (DK (RelayApprovals i)) v" unfolding store_wf_def by blast
    with Some show ?thesis by (auto simp: get_relay_approvals_def)
  qed
  with s t that show ?thesis unfolding relay_ok_def by blast
qed

subsection \<open>Every step keeps the store well typed\<close>

lemma get_relay_approvals_distinct:
  assumes "store_wf env" "get_relay_approvals env i = Some as"
  shows "distinct as"
proof (cases "temporary_get env (DK (RelayApprovals i))")
  case None
  with assms show ?thesis by (simp add: get_relay_approvals_def)
next
  case (Some v)
  with assms(1) have "temporary_ok (DK (RelayApprovals i)) v" unfolding store_wf_def by blast
  with Some assms(2) show ?thesis by (auto simp: get_relay_approvals_def)
qed

lemma approve_relay_call_wf:
  assumes wf: "store_wf env" and "approve_relay_call env i c = Some (r, env')"
  shows "store_wf env'"
proof -
  obtain signers where s: "get_relay_signers env = Some signers" using wf by (rule store_wf_signers)
  from wf obtain s' t where ok: "relay_ok env s' t" by (rule store_wf_relay_ok)
  then obtain as where as: "get_relay_approvals env i = Some as" by (rule relay_ok_approvals)
  define as' where "as' = (if c \<in> set as then as else as @ [c])"
  have "distinct as'" using get_relay_approvals_distinct [OF wf as] by (simp add: as'_def)
  then have d: "temporary_ok (DK (RelayApprovals i)) (VAddrs as')" by simp
  have t: "get_relay_threshold env = Some t" using ok by (simp add: relay_ok_def)
  show ?thesis
  proof (cases "authorized env c \<and> c \<in> set signers")
    case True
    then have "env' = temporary_remove env (DK (RelayApprovals i)) \<or>
        env' = temporary_set env (DK (RelayApprovals i)) (VAddrs as')"
      using approve_relay_call_eq [OF _ s _ as t as'_def] assms(2) by (auto split: if_splits)
    with wf d show ?thesis by (auto intro: store_wf_remove store_wf_temporary)
  next
    case False
    have "env' = env"
    proof (cases "authorized env c")
      case True
      with False have "c \<notin> set signers" by simp
      from approve_relay_call_outsider [OF True s this, of i] assms(2) show ?thesis by simp
    next
      case False
      from approve_relay_call_unauthenticated [OF False, of i] assms(2) show ?thesis by simp
    qed
    with wf show ?thesis by simp
  qed
qed

lemma add_relay_signer_wf:
  assumes wf: "store_wf env" and "log_only added" "add_relay_signer added env c n = Some (r, env')"
  shows "store_wf env'"
proof -
  obtain signers where s: "get_relay_signers env = Some signers" "distinct signers"
    using wf by (rule store_wf_signers)
  from add_relay_signer_env [OF assms(2,3)] show ?thesis
  proof
    assume "env' = env"
    with wf show ?thesis by simp
  next
    assume r: "decode as_addr (instance_get env (DK Admin)) = Some (Some c) \<and>
      persistent_get env' = persistent_get env \<and> temporary_get env' = temporary_get env \<and>
      (\<exists>signers. get_relay_signers env = Some signers \<and> n \<notin> set signers \<and>
        instance_get env' =
          instance_get (instance_set env (DK RelaySigners) (VAddrs (signers @ [n]))))"
    with s have "instance_ok (DK RelaySigners) (VAddrs (signers @ [n]))" by auto
    then have "store_wf (instance_set env (DK RelaySigners) (VAddrs (signers @ [n])))"
      by (rule store_wf_instance [OF wf])
    with r s show ?thesis by (auto intro: store_wf_cong)
  qed
qed

lemma storage_step_wf:
  assumes "storage_step flag_key env env'" "store_wf env"
  shows "store_wf env'"
  using assms(1)
proof cases
  case (st_next_id i)
  with assms(2) show ?thesis by (auto simp: next_withdrawal_id_cases intro: store_wf_instance)
next
  case (st_hash tx h)
  with assms(2) show ?thesis by (auto dest!: set_stellar_tx_hash_env intro: store_wf_set_transaction)
next
  case (st_status i s)
  with assms(2) show ?thesis
    by (auto dest!: set_transaction_status_env intro: store_wf_set_transaction)
next
  case (st_lifecycle max_reason x r)
  with assms(2) show ?thesis by (auto dest!: exec_call_env intro: store_wf_set_transaction)
next
  case (st_tag i t)
  with assms(2) show ?thesis
    by (auto simp: add_transaction_tag_def bind_eq_Some_conv intro: store_wf_persistent)
next
  case (st_signer added a n ru)
  with assms(2) show ?thesis by (blast intro: add_relay_signer_wf)
next
  case (st_approve i a rb)
  with assms(2) show ?thesis by (blast intro: approve_relay_call_wf)
next
  case (st_flag k v)
  with assms(2) show ?thesis by (auto simp: set_flag_def intro: store_wf_persistent flag_key_ok)
next
  case (st_record tx)
  with assms(2) show ?thesis by (simp add: store_wf_set_transaction)
next
  case st_host
  with assms(2) show ?thesis by (auto intro: store_wf_cong simp: tier_defs fun_eq_iff)
next
  case (st_emit ts d)
  with assms(2) show ?thesis by (auto intro: store_wf_cong simp: emit_def)
qed (use assms(2) in \<open>auto simp: op_defs intro: store_wf_instance store_wf_persistent store_wf_remove\<close>)

lemma reachable_wf: "reachable flag_key env \<Longrightarrow> store_wf env"
  by (induction rule: reachable.induct) (auto intro: store_wf_empty storage_step_wf)


subsection \<open>Properties\<close>

text \<open>A reachable store with one transaction, for the witnesses.\<close>

lemma example_env_reachable: "reachable P example_env"
  unfolding example_env_def by (blast intro: reachable.intros storage_step.intros)

text \<open>C9. Type safety of the storage layer: in every store reachable from the empty ledger by
  any interleaving of its operations, with flags set on flag keys only, no accessor meets a
  value of the wrong type: every read returns, and every lifecycle call, tag addition and
  signer or approval read runs without a trap.\<close>

theorem reachable_no_trap:
  assumes "reachable flag_key env"
  shows "store_wf env \<and> exec_call max_reason env x \<noteq> None \<and>
    get_transaction env i \<noteq> None \<and> add_transaction_tag env j tag \<noteq> None \<and>
    is_relayer env a \<noteq> None \<and> get_admin env \<noteq> None \<and> get_status_index env s \<noteq> None \<and>
    treasury_balance env \<noteq> None \<and> treasury_config env \<noteq> None \<and> epoch_withdrawn env \<noteq> None \<and>
    get_treasury_accrued env \<noteq> None \<and> withdrawal_counter env \<noteq> None \<and>
    pending_withdrawal env j \<noteq> None \<and> get_bond_record env a \<noteq> None \<and>
    get_unbond_request env a \<noteq> None \<and> get_relay_signers env \<noteq> None \<and>
    get_relay_threshold env \<noteq> None \<and> get_relay_approvals env j \<noteq> None"
proof -
  have wf: "store_wf env" by (rule reachable_wf [OF assms])
  note r = store_wf_reads [OF wf]
  from wf obtain signers t where ok: "relay_ok env signers t" by (rule store_wf_relay_ok)
  then have "get_relay_approvals env j \<noteq> None" by (rule relay_ok_approvals [where i = j]) simp
  moreover have "exec_call max_reason env x \<noteq> None"
    using exec_call_total [OF store_wf_tx_wf [OF wf], of max_reason x] by auto
  ultimately show ?thesis using wf ok r
    by (simp add: op_defs withdrawal_counter_def relay_ok_def get_status_index_def bind_Some_None
        del: not_None_eq)
qed

theorem reachable_no_trap_witness:
  "exec_call 64 example_env (Complete (TxSymbol ''t1'') ''GR'') \<noteq> None"
  using reachable_no_trap [OF example_env_reachable] by blast

text \<open>C24. Withdrawal ids are never handed out twice: through any run of storage operations the
  ids allocated are strictly increasing, start at or above the counter before the run, and
  stay below the counter after it.\<close>

theorem withdrawal_ids_increase:
  assumes "allocates P env is env'" "withdrawal_counter env = Some n"
  shows "sorted_wrt (<) is \<and> distinct is \<and>
    (\<exists>m. withdrawal_counter env' = Some m \<and> (\<forall>i \<in> set is. n \<le> i \<and> i < m))"
  using allocates_bound [OF assms] by (auto simp: strict_sorted_iff)

theorem withdrawal_ids_increase_witness:
  "\<exists>env'. allocates flag_key (empty_env (\<lambda>_. True) :: (unit, unit) Env) [0, 1] env' \<and>
     distinct [0 :: u64, 1] \<and> (\<exists>m. withdrawal_counter env' = Some m \<and> 1 < m)"
proof -
  let ?e0 = "empty_env (\<lambda>_. True) :: (unit, unit) Env"
  let ?e1 = "instance_set ?e0 (TK WithdrawalCounter) (VU64 1)"
  let ?e2 = "instance_set (set_treasury_balance ?e1 5) (TK WithdrawalCounter) (VU64 2)"
  have c: "withdrawal_counter ?e0 = Some 0" by (simp add: withdrawal_counter_def)
  have "allocates flag_key ?e0 ([] @ [0]) ?e1"
    by (rule allocates.allocate [OF allocates.none])
      (simp add: next_withdrawal_id_def incr64_def)
  then have "allocates flag_key ?e0 [0] (set_treasury_balance ?e1 5)"
    by (auto intro: allocates.other storage_step.st_balance)
  moreover have "next_withdrawal_id (set_treasury_balance ?e1 5) = Some (1, ?e2)"
    by (simp add: next_withdrawal_id_def incr64_def set_treasury_balance_def)
  ultimately have a: "allocates flag_key ?e0 ([0] @ [1]) ?e2" by (rule allocates.allocate)
  with withdrawal_ids_increase [OF a c] show ?thesis by auto
qed

text \<open>C39. The admin that \<open>add_relay_signer\<close> reads is never set: \<open>set_admin\<close> writes the
  persistent tier and no operation of the layer writes the instance tier's admin, so on every
  reachable store adding a relay signer fails with \<open>NotInitialized\<close>.\<close>

theorem add_relay_signer_never_succeeds:
  assumes "reachable P env"
  shows "add_relay_signer added env c n =
    (if authorized env c then Some (Inl NotInitialized, env) else None)"
  using reachable_instance_dk [OF assms, of Admin]
  by (simp add: add_relay_signer_def require_auth_def)

theorem add_relay_signer_never_succeeds_witness:
  "add_relay_signer (\<lambda>e _. e) (set_admin example_env ''GADMIN'') ''GADMIN'' ''GNEW'' =
     Some (Inl NotInitialized, set_admin example_env ''GADMIN'')"
proof -
  have "reachable flag_key (set_admin example_env ''GADMIN'')"
    by (blast intro: reachable.step example_env_reachable storage_step.st_admin)
  from add_relay_signer_never_succeeds [OF this] show ?thesis
    by (simp add: example_env_def set_admin_def set_transaction_def)
qed

text \<open>C37. For the same reason no relay call is ever approved: the signer set of every
  reachable store is empty, so an approval traps without authentication and is refused
  otherwise.\<close>

theorem approve_relay_call_never_succeeds:
  assumes "reachable P env"
  shows "approve_relay_call env i c =
    (if authorized env c then Some (Inl Unauthorized, env) else None)"
proof -
  have "get_relay_signers env = Some []"
    by (simp add: get_relay_signers_def reachable_instance_dk [OF assms])
  then show ?thesis by (simp add: approve_relay_call_def require_auth_def)
qed

theorem approve_relay_call_never_succeeds_witness:
  "approve_relay_call example_env 1 ''GRELAY'' = Some (Inl Unauthorized, example_env)"
  using approve_relay_call_never_succeeds [OF example_env_reachable, of 1 "''GRELAY''"]
  by (simp add: example_env_def set_transaction_def)

text \<open>C40. Nothing maintains the status index: on every reachable store a status page is empty
  whatever transactions are stored, unless the limit is refused or a flag was written over
  the index.\<close>

theorem status_pages_always_empty:
  assumes "reachable P env"
    "get_transactions_by_status max_limit env status offset limit = Some (Inr page)"
  shows "page = []"
proof -
  from assms(2) have "get_status_index env status \<noteq> None"
    by (auto simp: get_transactions_by_status_def bind_eq_Some_conv split: if_splits)
  then have "get_status_index env status = Some []"
  proof (cases "persistent_get env (DK (StatusIndex status))")
    case (Some v)
    from reachable_index [OF assms(1) Some] obtain b where "v = VBool b" by blast
    with Some \<open>get_status_index env status \<noteq> None\<close> show ?thesis
      by (simp add: get_status_index_def)
  qed (simp add: get_status_index_def)
  with assms(2) show ?thesis
    by (auto simp: get_transactions_by_status_def split: if_splits)
qed

theorem status_pages_always_empty_witness:
  "\<exists>page. status_of example_env (TxSymbol ''t1'') = Some Pending \<and>
     get_transactions_by_status 50 example_env Pending 0 10 = Some (Inr page) \<and> page = []"
proof -
  have "get_status_index example_env Pending = Some []"
    by (simp add: example_env_def get_status_index_def set_transaction_def)
  then have "\<exists>page. get_transactions_by_status 50 example_env Pending 0 10 = Some (Inr page)"
    by (simp add: get_transactions_by_status_def)
  with example_env_facts(2) status_pages_always_empty [OF example_env_reachable] show ?thesis
    by blast
qed

end
