(* ===== verification/Migration.thy ===== *)
theory Migration
  imports Host
begin

text \<open>
  \<open>src/migration.rs\<close>: the schema diff over the migration manifest, the registry of
  migration ids and the pre-upgrade snapshot.

  The three migration ids, the cap on storage touches and the \<open>StorageClient\<close> accessors
  are named by the code but defined nowhere under \<open>src/\<close>; they are parameters.
\<close>

subsection \<open>Schema diffs\<close>

record SchemaChange =
  sc_version :: u32
  sc_kind :: string
  sc_description :: string

type_synonym MigrationManifest = "SchemaChange list"

record SchemaDiff =
  from_version :: u32
  to_version :: u32
  changes :: "SchemaChange list"
  diff_empty :: bool

text \<open>The loop over the manifest, with the vector it pushes to.\<close>

fun collect_changes :: "u32 \<Rightarrow> u32 \<Rightarrow> SchemaChange list \<Rightarrow> MigrationManifest \<Rightarrow> SchemaChange list" where
  "collect_changes lo hi acc [] = acc"
| "collect_changes lo hi acc (change # rest) =
     collect_changes lo hi
       (if lo < sc_version change \<and> sc_version change \<le> hi then acc @ [change] else acc) rest"

text \<open>The tail of the function, which stands at the end of the file.\<close>

definition schema_diff :: "u32 \<Rightarrow> u32 \<Rightarrow> SchemaChange list \<Rightarrow> SchemaDiff" where
  "schema_diff lo hi cs =
     \<lparr>from_version = lo, to_version = hi, changes = cs, diff_empty = (cs = [])\<rparr>"

definition compare_schema_versions :: "MigrationManifest \<Rightarrow> u32 \<Rightarrow> u32 \<Rightarrow> SchemaDiff" where
  "compare_schema_versions manifest from_v to_v =
     (let (lo, hi) = (if from_v \<le> to_v then (from_v, to_v) else (to_v, from_v))
      in schema_diff lo hi (collect_changes lo hi [] manifest))"

lemma collect_changes_filter:
  "collect_changes lo hi acc manifest =
     acc @ filter (\<lambda>c. lo < sc_version c \<and> sc_version c \<le> hi) manifest"
  by (induction manifest arbitrary: acc) simp_all

lemma compare_schema_versions_eq:
  "compare_schema_versions manifest a b =
     schema_diff (min a b) (max a b)
       (filter (\<lambda>c. min a b < sc_version c \<and> sc_version c \<le> max a b) manifest)"
  by (simp add: compare_schema_versions_def collect_changes_filter min_def max_def)

text \<open>In a manifest ordered by version, adjacent ranges are adjacent segments.\<close>

lemma filter_ranges_append:
  assumes "sorted (map f xs)" "a \<le> b" "b \<le> (c :: 'b :: linorder)"
  shows "filter (\<lambda>x. a < f x \<and> f x \<le> b) xs @ filter (\<lambda>x. b < f x \<and> f x \<le> c) xs =
    filter (\<lambda>x. a < f x \<and> f x \<le> c) xs"
  using assms(1)
proof (induction xs)
  case Nil
  show ?case by simp
next
  case (Cons x xs)
  show ?case
  proof (cases "f x \<le> b")
    case True
    with Cons assms(3) show ?thesis by auto
  next
    case False
    with Cons.prems have "filter (\<lambda>x. a < f x \<and> f x \<le> b) xs = []"
      by (auto simp: filter_empty_conv)
    with Cons False assms(2) show ?thesis by (auto simp: not_le intro: less_le_trans)
  qed
qed

subsection \<open>The registry\<close>

definition is_registered :: "u32 \<Rightarrow> u32 \<Rightarrow> u32 \<Rightarrow> u32 \<Rightarrow> ContractError + unit" where
  "is_registered noop write_marker fail_after_write migration_id =
     (if migration_id = noop \<or> migration_id = write_marker \<or> migration_id = fail_after_write
      then Inr () else Inl UnknownMigration)"

definition assert_within_bound :: "u32 \<Rightarrow> u32 \<Rightarrow> ContractError + unit" where
  "assert_within_bound max_touches planned_touches =
     (if planned_touches > max_touches then Inl MigrationFailed else Inr ())"

text \<open>\<open>run\<close> is declared to return the number of touches but its arm returns \<open>Ok(())\<close>; no
  routine is called and nothing is written.\<close>

definition run ::
    "u32 \<Rightarrow> u32 \<Rightarrow> u32 \<Rightarrow> ('m, 'u) Env \<Rightarrow> u32 \<Rightarrow> (ContractError + unit) \<times> ('m, 'u) Env" where
  "run noop write_marker fail_after_write env migration_id =
     (if migration_id = noop \<or> migration_id = write_marker \<or> migration_id = fail_after_write
      then (Inr (), env) else (Inl UnknownMigration, env))"

subsection \<open>The upgrade snapshot\<close>

record UpgradeSnapshot =
  snap_wasm_hash :: bytes32
  snap_schema_version :: u32
  captured_at_ledger :: u32

definition capture ::
    "(('m, 'u) Env \<Rightarrow> bytes32) \<Rightarrow> (('m, 'u) Env \<Rightarrow> u32) \<Rightarrow> ('m, 'u) Env \<Rightarrow> UpgradeSnapshot" where
  "capture get_wasm_hash get_schema_version env =
     \<lparr>snap_wasm_hash = get_wasm_hash env, snap_schema_version = get_schema_version env,
      captured_at_ledger = sequence env\<rparr>"

definition store_snapshot ::
    "(('m, 'u) Env \<Rightarrow> UpgradeSnapshot \<Rightarrow> ('m, 'u) Env) \<Rightarrow> UpgradeSnapshot \<Rightarrow> ('m, 'u) Env \<Rightarrow>
     ('m, 'u) Env" where
  "store_snapshot set_upgrade_snapshot snapshot env = set_upgrade_snapshot env snapshot"

definition load_snapshot ::
    "(('m, 'u) Env \<Rightarrow> UpgradeSnapshot option) \<Rightarrow> ('m, 'u) Env \<Rightarrow> UpgradeSnapshot option" where
  "load_snapshot get_upgrade_snapshot env = get_upgrade_snapshot env"

definition capture_and_store ::
    "(('m, 'u) Env \<Rightarrow> bytes32) \<Rightarrow> (('m, 'u) Env \<Rightarrow> u32) \<Rightarrow>
     (('m, 'u) Env \<Rightarrow> UpgradeSnapshot \<Rightarrow> ('m, 'u) Env) \<Rightarrow> ('m, 'u) Env \<Rightarrow>
     UpgradeSnapshot \<times> ('m, 'u) Env" where
  "capture_and_store get_wasm_hash get_schema_version set_upgrade_snapshot env =
     (let snapshot = capture get_wasm_hash get_schema_version env
      in (snapshot, store_snapshot set_upgrade_snapshot snapshot env))"

subsection \<open>Properties\<close>

text \<open>C30. Comparing two versions, in either order, reports the lower and the higher one and
  exactly the manifest entries introduced after the lower and up to the higher, each as often
  and in the order the manifest has it; the flag says whether there are none. So comparing a
  version with itself finds nothing, and over a manifest ordered by version the diff of a
  multi-version upgrade is the diff of its first leg followed by that of its second, with no
  entry lost or reported twice at the version in between.\<close>

theorem compare_schema_versions_exact:
  "from_version (compare_schema_versions manifest a b) = min a b \<and>
   to_version (compare_schema_versions manifest a b) = max a b \<and>
   changes (compare_schema_versions manifest a b) =
     filter (\<lambda>c. min a b < sc_version c \<and> sc_version c \<le> max a b) manifest \<and>
   (diff_empty (compare_schema_versions manifest a b) \<longleftrightarrow>
     \<not> (\<exists>c. c \<in> set manifest \<and> min a b < sc_version c \<and> sc_version c \<le> max a b)) \<and>
   compare_schema_versions manifest b a = compare_schema_versions manifest a b \<and>
   changes (compare_schema_versions manifest a a) = [] \<and>
   (sorted (map sc_version manifest) \<longrightarrow> a \<le> b \<longrightarrow> b \<le> c \<longrightarrow>
     changes (compare_schema_versions manifest a c) =
       changes (compare_schema_versions manifest a b) @ changes (compare_schema_versions manifest b c))"
proof -
  have "changes (compare_schema_versions manifest a c) =
      changes (compare_schema_versions manifest a b) @ changes (compare_schema_versions manifest b c)"
    if "sorted (map sc_version manifest)" "a \<le> b" "b \<le> c"
    using that filter_ranges_append [OF that]
    by (simp add: compare_schema_versions_eq schema_diff_def min_absorb1 max_absorb2)
  moreover have "changes (compare_schema_versions manifest a a) = []"
    by (auto simp: compare_schema_versions_eq schema_diff_def filter_empty_conv)
  ultimately show ?thesis
    by (auto simp: compare_schema_versions_eq schema_diff_def min.commute max.commute
        filter_empty_conv)
qed

theorem compare_schema_versions_exact_witness:
  "let m = [\<lparr>sc_version = 1, sc_kind = ''entry'', sc_description = ''z''\<rparr>,
            \<lparr>sc_version = 2, sc_kind = ''storage_key'', sc_description = ''a''\<rparr>,
            \<lparr>sc_version = 3, sc_kind = ''encoding'', sc_description = ''b''\<rparr>]
   in changes (compare_schema_versions m 3 1) = drop 1 m \<and>
      changes (compare_schema_versions m 1 3) =
        changes (compare_schema_versions m 1 2) @ changes (compare_schema_versions m 2 3)"
proof -
  let ?m = "[\<lparr>sc_version = 1, sc_kind = ''entry'', sc_description = ''z''\<rparr>,
      \<lparr>sc_version = 2, sc_kind = ''storage_key'', sc_description = ''a''\<rparr>,
      \<lparr>sc_version = 3, sc_kind = ''encoding'', sc_description = ''b''\<rparr>]"
  have m: "min (3 :: u32) 1 = 1" "max (3 :: u32) 1 = 3" by (simp_all add: word_le_nat_alt min_def max_def)
  have "changes (compare_schema_versions ?m 3 1) = drop 1 ?m"
    using compare_schema_versions_exact [of ?m 3 1 3] unfolding m by (simp add: word_le_nat_alt)
  moreover have "changes (compare_schema_versions ?m 1 3) =
      changes (compare_schema_versions ?m 1 2) @ changes (compare_schema_versions ?m 2 3)"
    using compare_schema_versions_exact [of ?m 1 2 3] by (simp add: word_le_nat_alt del: append.simps)
  ultimately show ?thesis by (simp add: Let_def)
qed

text \<open>The registry fails closed and is read-only: \<open>run\<close> accepts exactly the ids
  \<open>is_registered\<close> accepts, every other id is \<open>UnknownMigration\<close>, and the store is never
  changed.\<close>

theorem run_registered:
  "fst (run n w f env i) = is_registered n w f i \<and>
   snd (run n w f env i) = env \<and>
   (is_registered n w f i = Inr () \<longleftrightarrow> i \<in> {n, w, f}) \<and>
   (is_registered n w f i = Inl UnknownMigration \<longleftrightarrow> i \<notin> {n, w, f})"
  by (auto simp: run_def is_registered_def)

text \<open>When the client keeps what it is given, the snapshot that \<open>capture_and_store\<close>
  returns is the one \<open>load\<close> finds afterwards, and it holds the hash, the schema version and
  the ledger sequence from before the upgrade.\<close>

theorem capture_and_store_load:
  assumes "\<And>e s. get_snap (set_snap e s) = Some s"
    and "capture_and_store hash version set_snap env = (snapshot, env')"
  shows "load_snapshot get_snap env' = Some snapshot \<and>
    snap_wasm_hash snapshot = hash env \<and> snap_schema_version snapshot = version env \<and>
    captured_at_ledger snapshot = sequence env"
  using assms by (auto simp: capture_and_store_def store_snapshot_def load_snapshot_def capture_def
      Let_def)

text \<open>The witness keeps the snapshot in the host's log.\<close>

definition example_set :: "(unit, unit) Env \<Rightarrow> UpgradeSnapshot \<Rightarrow> (unit, unit) Env" where
  "example_set env s = env\<lparr>events :=
     [([], PUpgraded \<lparr>up_new_wasm_hash = snap_wasm_hash s,
                      up_schema_version = snap_schema_version s\<rparr>),
      ([], PStatus (captured_at_ledger s))]\<rparr>"

definition example_get :: "(unit, unit) Env \<Rightarrow> UpgradeSnapshot option" where
  "example_get env = (case events env of
     [(_, PUpgraded u), (_, PStatus l)] \<Rightarrow>
       Some \<lparr>snap_wasm_hash = up_new_wasm_hash u, snap_schema_version = up_schema_version u,
             captured_at_ledger = l\<rparr>
   | _ \<Rightarrow> None)"

lemma example_get_set: "example_get (example_set env s) = Some s"
  by (simp add: example_get_def example_set_def)

theorem capture_and_store_load_witness:
  "load_snapshot example_get
     (snd (capture_and_store (\<lambda>_. replicate 32 7) (\<lambda>_. 3) example_set (empty_env (\<lambda>_. True)))) =
   Some \<lparr>snap_wasm_hash = replicate 32 7, snap_schema_version = 3, captured_at_ledger = 0\<rparr>"
  using capture_and_store_load [where get_snap = example_get and set_snap = example_set
      and hash = "\<lambda>_. replicate 32 7" and version = "\<lambda>_. 3" and env = "empty_env (\<lambda>_. True)",
      OF example_get_set surjective_pairing]
  by (simp add: capture_and_store_def capture_def Let_def empty_env_def)

end
