(* ===== verification/Size_Gate.thy ===== *)
theory Size_Gate
  imports Prelude
begin

text \<open>
  \<open>src/size_gate_fixture.rs\<close>: the table of pseudo-random bytes the WASM size gate links in,
  filled by a linear congruential generator, and the exported lookup.
\<close>

definition BLOAT_LEN :: nat where "BLOAT_LEN = 16 * 1024"

definition lcg :: "u32 \<Rightarrow> u32" where
  "lcg state = state * 1664525 + 1013904223"

definition top_byte :: "u32 \<Rightarrow> u8" where
  "top_byte state = ucast (drop_bit 24 state)"

text \<open>The \<open>while i < BLOAT_LEN\<close> loop of the constant's initialiser, for any bound \<open>n\<close>.\<close>

function bloat_loop :: "nat \<Rightarrow> u8 list \<Rightarrow> u32 \<Rightarrow> nat \<Rightarrow> u8 list" where
  "bloat_loop n table state i =
     (if i < n then
        let state' = lcg state in bloat_loop n (table[i := top_byte state']) state' (Suc i)
      else table)"
  by pat_completeness auto

termination
  by (relation "measure (\<lambda>(n, table, state, i). n - i)") auto

declare bloat_loop.simps [simp del]

definition BLOAT :: "u8 list" where
  "BLOAT = bloat_loop BLOAT_LEN (replicate BLOAT_LEN 0) 0x9E3779B9 0"

text \<open>Indexing panics out of range; \<open>usize\<close> is 32 bits on wasm, where this is compiled.\<close>

definition size_gate_fixture :: "u32 \<Rightarrow> u32 host" where
  "size_gate_fixture index =
     (let k = unat index mod BLOAT_LEN in
      if k < length BLOAT then Some (ucast (BLOAT ! k)) else None)"

lemma length_bloat_loop [simp]: "length (bloat_loop n table state i) = length table"
  by (induction n table state i rule: bloat_loop.induct)
    (subst bloat_loop.simps, simp add: Let_def)

lemma bloat_loop_nth:
  assumes "length table = n" "k < n"
  shows "bloat_loop n table state i ! k =
    (if k < i then table ! k else top_byte ((lcg ^^ Suc (k - i)) state))"
  using assms
proof (induction n table state i rule: bloat_loop.induct)
  case (1 n table state i)
  show ?case
  proof (cases "i < n")
    case False
    with "1.prems" show ?thesis by (subst bloat_loop.simps) simp
  next
    case True
    have "table[i := top_byte (lcg state)] ! k =
      (if k = i then top_byte (lcg state) else table ! k)"
      using True "1.prems" by (simp add: nth_list_update)
    moreover have "(lcg ^^ Suc (k - i)) state = (lcg ^^ Suc (k - Suc i)) (lcg state)" if "i < k"
    proof -
      from that have "k - i = Suc (k - Suc i)" by simp
      then show ?thesis by (metis comp_apply funpow_Suc_right)
    qed
    moreover note "1.IH" [OF True refl] "1.prems"
    ultimately show ?thesis
      by (subst bloat_loop.simps) (cases "k = i"; auto simp: True Let_def simp del: funpow.simps;
        simp)
  qed
qed

text \<open>The multiplier is odd, so the generator never maps two states to one.\<close>

lemma lcg_inv: "(lcg a - 1013904223) * 4276115653 = a"
proof -
  have "(lcg a - 1013904223) * 4276115653 = a * (1664525 * 4276115653)"
    by (simp only: lcg_def add_diff_cancel_right' mult.assoc)
  moreover have "1664525 * 4276115653 = (1 :: u32)" by simp
  ultimately show ?thesis by (simp only: mult_1_right)
qed

subsection \<open>Properties\<close>

text \<open>The lookup never traps: at index \<open>i\<close> it returns the top byte of the generator's
  state after \<open>i mod 16384 + 1\<close> steps from the seed, so a value below 256 that repeats with
  the length of the table.\<close>

theorem size_gate_fixture_spec:
  "size_gate_fixture i =
     Some (ucast (top_byte ((lcg ^^ Suc (unat i mod 16384)) 0x9E3779B9)))"
proof -
  have "BLOAT ! (unat i mod 16384) = top_byte ((lcg ^^ Suc (unat i mod 16384)) 0x9E3779B9)"
    unfolding BLOAT_def by (subst bloat_loop_nth) (simp_all add: BLOAT_LEN_def del: funpow.simps)
  moreover have "length BLOAT = 16384" by (simp add: BLOAT_def BLOAT_LEN_def)
  ultimately show ?thesis by (simp add: size_gate_fixture_def BLOAT_LEN_def del: funpow.simps)
qed

text \<open>The generator is a permutation of its \<open>2^32\<close> states, so the table's states do not
  collapse onto a shorter cycle by merging.\<close>

theorem lcg_bij: "bij lcg"
proof -
  have "inj lcg" by (rule inj_on_inverseI) (rule lcg_inv)
  moreover from this have "surj lcg" by (rule finite_UNIV_inj_surj [rotated]) simp
  ultimately show ?thesis by (rule bijI)
qed

end
