(* ===== verification/Rust_Text.thy ===== *)
theory Rust_Text
  imports Prelude "HOL-Library.List_Lexorder"
begin

text \<open>
  Rust strings and ordered maps, as the host-side tools of the repository use them: a
  string is the list of its Unicode scalar values, \<open>str\<close> methods are functions on it, and
  a \<open>BTreeMap\<close> is its list of entries in key order.  UTF-8 preserves the order of scalar
  values, so the order of Rust strings is the lexicographic order of these lists.
\<close>

type_synonym ustr = "nat list"

text \<open>An ASCII literal; the em dash and the section sign are written by their code.\<close>

definition lit :: "string \<Rightarrow> ustr" where
  "lit s = map of_char s"

lemma lit_simps [simp]:
  "lit [] = []"
  "lit (c # s) = of_char c # lit s"
  by (simp_all add: lit_def)

definition em_dash :: ustr where "em_dash = [0x2014]"
definition section_sign :: ustr where "section_sign = [0xA7]"

subsection \<open>The \<open>str\<close> methods\<close>

text \<open>\<open>char::is_whitespace\<close>: the Unicode \<open>White_Space\<close> property.\<close>

definition is_whitespace :: "nat \<Rightarrow> bool" where
  "is_whitespace c \<longleftrightarrow> 9 \<le> c \<and> c \<le> 13 \<or> c = 32 \<or> c = 0x85 \<or> c = 0xA0 \<or> c = 0x1680 \<or>
     0x2000 \<le> c \<and> c \<le> 0x200A \<or> c = 0x2028 \<or> c = 0x2029 \<or> c = 0x202F \<or> c = 0x205F \<or> c = 0x3000"

definition trim :: "ustr \<Rightarrow> ustr" where
  "trim t = rev (dropWhile is_whitespace (rev (dropWhile is_whitespace t)))"

fun split_once :: "nat \<Rightarrow> ustr \<Rightarrow> (ustr \<times> ustr) option" where
  "split_once c [] = None"
| "split_once c (x # xs) =
     (if x = c then Some ([], xs) else map_option (\<lambda>(a, b). (x # a, b)) (split_once c xs))"

fun strip_prefix :: "nat \<Rightarrow> ustr \<Rightarrow> ustr option" where
  "strip_prefix c [] = None"
| "strip_prefix c (x # xs) = (if x = c then Some xs else None)"

definition strip_suffix :: "nat \<Rightarrow> ustr \<Rightarrow> ustr option" where
  "strip_suffix c t = (if t \<noteq> [] \<and> last t = c then Some (butlast t) else None)"

text \<open>\<open>split(c).next()\<close>, and \<open>replace(c, "")\<close>.\<close>

definition before :: "nat \<Rightarrow> ustr \<Rightarrow> ustr" where
  "before c t = takeWhile (\<lambda>x. x \<noteq> c) t"

definition delete_all :: "nat \<Rightarrow> ustr \<Rightarrow> ustr" where
  "delete_all c t = filter (\<lambda>x. x \<noteq> c) t"

text \<open>\<open>lines()\<close>: a line ends at a line feed or at the end of the string; a carriage return
  before the line feed belongs to the line ending.\<close>

definition strip_cr :: "ustr \<Rightarrow> ustr" where
  "strip_cr t = unwrap_or (strip_suffix 13 t) t"

fun lines_from :: "ustr \<Rightarrow> ustr \<Rightarrow> ustr list" where
  "lines_from cur [] = (if cur = [] then [] else [cur])"
| "lines_from cur (x # xs) =
     (if x = 10 then strip_cr cur # lines_from [] xs else lines_from (cur @ [x]) xs)"

definition text_lines :: "ustr \<Rightarrow> ustr list" where
  "text_lines t = lines_from [] t"

subsection \<open>Numbers\<close>

text \<open>\<open>Display\<close> of an unsigned integer, and \<open>u64::from_str\<close>: an optional plus sign and at
  least one digit, refused when the value does not fit.\<close>

fun digits :: "nat \<Rightarrow> ustr" where
  "digits n = (if n < 10 then [48 + n] else digits (n div 10) @ [48 + n mod 10])"

declare digits.simps [simp del]

text \<open>\<open>Display\<close> of a signed integer.\<close>

definition display_int :: "int \<Rightarrow> ustr" where
  "display_int n = (if n < 0 then lit ''-'' else []) @ digits (nat \<bar>n\<bar>)"

definition is_digit :: "nat \<Rightarrow> bool" where
  "is_digit c \<longleftrightarrow> 48 \<le> c \<and> c \<le> 57"

definition digits_value :: "ustr \<Rightarrow> nat" where
  "digits_value t = foldl (\<lambda>a d. 10 * a + (d - 48)) 0 t"

definition parse_u64 :: "ustr \<Rightarrow> u64 option" where
  "parse_u64 t = (let body = unwrap_or (strip_prefix 43 t) t in
     if body = [] \<or> \<not> list_all is_digit body then None
     else if digits_value body < 2 ^ 64 then Some (word_of_nat (digits_value body)) else None)"

lemma digits_value_snoc: "digits_value (t @ [d]) = 10 * digits_value t + (d - 48)"
  by (simp add: digits_value_def)

lemma digits_value_digits [simp]: "digits_value (digits n) = n"
proof (induction n rule: digits.induct)
  case (1 n)
  show ?case
  proof (cases "n < 10")
    case True
    then show ?thesis by (subst digits.simps) (simp add: digits_value_def)
  next
    case False
    with 1 show ?thesis by (subst digits.simps) (simp add: digits_value_snoc)
  qed
qed

lemma digits_digits: "list_all is_digit (digits n)"
proof (induction n rule: digits.induct)
  case (1 n)
  show ?case
  proof (cases "n < 10")
    case True
    then show ?thesis by (subst digits.simps) (simp add: is_digit_def)
  next
    case False
    with 1 have "list_all is_digit (digits (n div 10))" by simp
    moreover have "is_digit (48 + n mod 10)"
      using mod_less_divisor [of 10 n] by (simp add: is_digit_def)
    ultimately show ?thesis using False by (subst digits.simps) simp
  qed
qed

lemma digits_nonempty [simp]: "digits n \<noteq> []"
  by (subst digits.simps) simp

lemma digits_range: "c \<in> set (digits n) \<Longrightarrow> 48 \<le> c \<and> c \<le> 57"
  using digits_digits [of n] by (auto simp: list_all_iff is_digit_def)

text \<open>Printing a \<open>u64\<close> and parsing it back.\<close>

lemma parse_u64_digits: "parse_u64 (digits (unat v)) = Some v"
proof -
  have "strip_prefix 43 (digits (unat v)) = None"
  proof (cases "digits (unat v)")
    case (Cons c cs)
    with digits_range [of c "unat v"] show ?thesis by simp
  qed simp
  moreover have "unat v < 2 ^ 64" using unsigned_less [of v] by simp
  ultimately show ?thesis by (simp add: parse_u64_def digits_digits)
qed

subsection \<open>Facts about the methods\<close>

lemma dropWhile_head: "t \<noteq> [] \<Longrightarrow> \<not> P (hd t) \<Longrightarrow> dropWhile P t = t"
  by (cases t) simp_all

lemma trim_id:
  assumes "t = [] \<or> \<not> is_whitespace (hd t) \<and> \<not> is_whitespace (last t)"
  shows "trim t = t"
  using assms by (cases "t = []") (simp_all add: trim_def dropWhile_head hd_rev)

lemma trim_space:
  assumes "t = [] \<or> \<not> is_whitespace (hd t) \<and> \<not> is_whitespace (last t)" "is_whitespace c"
  shows "trim (c # t) = t" and "trim (t @ [c]) = t"
proof -
  show "trim (c # t) = t"
    using assms trim_id [OF assms(1)] by (simp add: trim_def)
  show "trim (t @ [c]) = t"
  proof (cases "t = []")
    case True
    with assms(2) show ?thesis by (simp add: trim_def)
  next
    case False
    with assms show ?thesis
      by (simp add: trim_def dropWhile_append3 dropWhile_head hd_rev)
  qed
qed

lemma before_none: "c \<notin> set t \<Longrightarrow> before c t = t"
  unfolding before_def by (induction t) auto

lemma split_once_at: "c \<notin> set a \<Longrightarrow> split_once c (a @ c # b) = Some (a, b)"
  by (induction a) auto

lemma delete_all_none: "c \<notin> set t \<Longrightarrow> delete_all c t = t"
  by (auto simp: delete_all_def filter_id_conv)

lemma strip_suffix_snoc [simp]: "strip_suffix c (t @ [c]) = Some t"
  by (simp add: strip_suffix_def)

lemma strip_cr_none: "13 \<notin> set t \<Longrightarrow> strip_cr t = t"
  unfolding strip_cr_def strip_suffix_def by (metis last_in_set unwrap_or_simps(1))

lemma lines_from_cur: "10 \<notin> set l \<Longrightarrow> lines_from cur (l @ rest) = lines_from (cur @ l) rest"
  by (induction l arbitrary: cur) simp_all

lemma text_lines_Cons:
  "10 \<notin> set l \<Longrightarrow> strip_cr l = l \<Longrightarrow> text_lines (l @ 10 # rest) = l # text_lines rest"
  by (simp add: text_lines_def lines_from_cur)

lemma text_lines_Nil [simp]: "text_lines [] = []"
  by (simp add: text_lines_def)

text \<open>Lines that survive being written and split again.\<close>

definition unlines :: "ustr list \<Rightarrow> ustr" where
  "unlines ls = concat (map (\<lambda>l. l @ [10]) ls)"

definition plain :: "ustr \<Rightarrow> bool" where
  "plain l \<longleftrightarrow> 10 \<notin> set l \<and> strip_cr l = l"

lemma text_lines_unlines: "\<forall>l \<in> set ls. plain l \<Longrightarrow> text_lines (unlines ls) = ls"
  by (induction ls) (simp_all add: unlines_def plain_def text_lines_Cons)

subsection \<open>Ordered maps\<close>

type_synonym ('k, 'v) btree = "('k \<times> 'v) list"

definition bt_keys :: "('k, 'v) btree \<Rightarrow> 'k list" where
  "bt_keys m = map fst m"

definition bt_ok :: "('k :: linorder, 'v) btree \<Rightarrow> bool" where
  "bt_ok m \<longleftrightarrow> sorted_wrt (<) (bt_keys m)"

definition bt_get :: "('k, 'v) btree \<Rightarrow> 'k \<Rightarrow> 'v option" where
  "bt_get m k = map_of m k"

fun bt_insert :: "('k :: linorder) \<Rightarrow> 'v \<Rightarrow> ('k, 'v) btree \<Rightarrow> ('k, 'v) btree" where
  "bt_insert k v [] = [(k, v)]"
| "bt_insert k v ((k', v') # m) =
     (if k < k' then (k, v) # (k', v') # m
      else if k = k' then (k, v) # m
      else (k', v') # bt_insert k v m)"

lemma bt_keys_simps [simp]:
  "bt_keys [] = []"
  "bt_keys ((k, v) # m) = k # bt_keys m"
  "bt_keys (m @ m') = bt_keys m @ bt_keys m'"
  by (simp_all add: bt_keys_def)

lemma bt_insert_keys: "set (bt_keys (bt_insert k v m)) = insert k (set (bt_keys m))"
  by (induction k v m rule: bt_insert.induct) auto

lemma bt_get_insert: "bt_get (bt_insert k v m) k' = (if k' = k then Some v else bt_get m k')"
  by (induction k v m rule: bt_insert.induct) (auto simp: bt_get_def)

lemma bt_ok_insert: "bt_ok m \<Longrightarrow> bt_ok (bt_insert k v m)"
proof (induction k v m rule: bt_insert.induct)
  case (2 k v k' v' m)
  then show ?case
    by (cases "k < k'") (auto simp: bt_ok_def bt_insert_keys intro: less_trans)
qed (simp add: bt_ok_def)

lemma bt_insert_last:
  "\<forall>k' \<in> set (bt_keys m). k' < k \<Longrightarrow> bt_insert k v m = m @ [(k, v)]"
  by (induction k v m rule: bt_insert.induct) (auto dest: less_asym)

lemma bt_insert_replace_last:
  "\<forall>k' \<in> set (bt_keys m). k' < k \<Longrightarrow> bt_insert k w (m @ [(k, v)]) = m @ [(k, w)]"
  by (induction k w m rule: bt_insert.induct) (auto dest: less_asym)

lemma bt_get_None: "bt_get m k = None \<longleftrightarrow> k \<notin> set (bt_keys m)"
  by (simp add: bt_get_def bt_keys_def map_of_eq_None_iff)

lemma bt_get_last: "k \<notin> set (bt_keys m) \<Longrightarrow> bt_get (m @ [(k, v)]) k = Some v"
  using bt_get_None [of m k] by (simp add: bt_get_def map_add_def)

lemma bt_get_mem:
  assumes "bt_ok m"
  shows "bt_get m k = Some v \<longleftrightarrow> (k, v) \<in> set m"
proof -
  from assms have "distinct (map fst m)" by (simp add: bt_ok_def bt_keys_def strict_sorted_iff)
  then show ?thesis by (simp add: bt_get_def)
qed

text \<open>The contract of an ordered map, and what a client gets from it.\<close>

locale ordered_map =
  fixes get :: "'m \<Rightarrow> 'k :: linorder \<Rightarrow> 'v option"
    and ins :: "'k \<Rightarrow> 'v \<Rightarrow> 'm \<Rightarrow> 'm"
    and keys :: "'m \<Rightarrow> 'k list"
    and ok :: "'m \<Rightarrow> bool"
  assumes get_ins: "get (ins k v m) k' = (if k' = k then Some v else get m k')"
    and ok_ins: "ok m \<Longrightarrow> ok (ins k v m)"
    and keys_sorted: "ok m \<Longrightarrow> sorted_wrt (<) (keys m)"
    and keys_dom: "set (keys m) = {k. get m k \<noteq> None}"
begin

lemma keys_ins: "set (keys (ins k v m)) = insert k (set (keys m))"
  by (auto simp: keys_dom get_ins)

lemma keys_distinct: "ok m \<Longrightarrow> distinct (keys m)"
  using keys_sorted [of m] by (simp add: strict_sorted_iff)

text \<open>Two maps with the same bindings list the same keys in the same order.\<close>

lemma keys_eq:
  assumes "ok m" "ok m'" "get m = get m'"
  shows "keys m = keys m'"
  using keys_sorted [OF assms(1)] keys_sorted [OF assms(2)] keys_dom [of m] keys_dom [of m']
    assms(3)
  by (simp add: strict_sorted_equal)

end

interpretation bt: ordered_map bt_get bt_insert bt_keys bt_ok
proof unfold_locales
  fix m :: "('a, 'b) btree"
  show "set (bt_keys m) = {k. bt_get m k \<noteq> None}"
    by (auto simp: bt_get_None)
qed (simp_all add: bt_get_insert bt_ok_insert, simp add: bt_ok_def)

end
