(* ===== verification/Baseline_File.thy ===== *)
theory Baseline_File
  imports Rust_Text
begin

text \<open>
  The baseline file of \<open>src/bench_resources.rs\<close>: the parser of its TOML subset, the
  renderer, and the round trip between them.  An \<open>unwrap\<close> of the parser is a \<open>host\<close> value;
  it is shown never to fail.
\<close>

definition DEFAULT_THRESHOLD_PCT :: u64 where "DEFAULT_THRESHOLD_PCT = 15"

record Cost =
  cpu_insns :: u64
  mem_bytes :: u64

record Baseline =
  threshold_pct :: u64
  entries :: "(ustr, Cost) btree"

text \<open>The errors of the parser, and the message each is.\<close>

datatype parse_error =
    Expected_key_value nat
  | Not_an_integer nat ustr
  | Unknown_key nat ustr
  | Incomplete ustr

fun error_message :: "parse_error \<Rightarrow> ustr" where
  "error_message (Expected_key_value n) =
     lit ''line '' @ digits n @ lit '': expected `key = value`''"
| "error_message (Not_an_integer n v) =
     lit ''line '' @ digits n @ lit '': `'' @ v @ lit ''` is not an integer''"
| "error_message (Unknown_key n k) =
     lit ''line '' @ digits n @ lit '': unknown key `'' @ k @ lit ''`''"
| "error_message (Incomplete name) =
     lit ''['' @ name @ lit ''] needs both cpu_insns and mem_bytes''"

record parser =
  p_threshold :: u64
  p_entries :: "(ustr, u64 option \<times> u64 option) btree"
  p_section :: "ustr option"

text \<open>\<open>[name]\<close>, then \<open>entry(name).or_default()\<close>.\<close>

definition section_name :: "ustr \<Rightarrow> ustr option" where
  "section_name line = Option.bind (strip_prefix 91 line) (strip_suffix 93)"

definition open_section :: "ustr \<Rightarrow> parser \<Rightarrow> parser" where
  "open_section name st =
     st\<lparr>p_entries := (case bt_get (p_entries st) name of
          None \<Rightarrow> bt_insert name (None, None) (p_entries st)
        | Some _ \<Rightarrow> p_entries st),
        p_section := Some name\<rparr>"

text \<open>\<open>entries.get_mut(s).unwrap()\<close> with an assignment to one of the two fields.\<close>

definition set_entry ::
    "(u64 option \<times> u64 option \<Rightarrow> u64 option \<times> u64 option) \<Rightarrow> ustr \<Rightarrow> parser \<Rightarrow> parser host" where
  "set_entry f s st = (case bt_get (p_entries st) s of
     None \<Rightarrow> None
   | Some e \<Rightarrow> Some (st\<lparr>p_entries := bt_insert s (f e) (p_entries st)\<rparr>))"

definition assign :: "nat \<Rightarrow> ustr \<Rightarrow> u64 \<Rightarrow> parser \<Rightarrow> (parse_error + parser) host" where
  "assign n key v st =
     (case p_section st of
        None \<Rightarrow>
          if key = lit ''threshold_pct'' then Some (Inr (st\<lparr>p_threshold := v\<rparr>))
          else Some (Inl (Unknown_key n key))
      | Some s \<Rightarrow>
          if key = lit ''cpu_insns'' then map_option Inr (set_entry (\<lambda>(c, m). (Some v, m)) s st)
          else if key = lit ''mem_bytes'' then map_option Inr (set_entry (\<lambda>(c, m). (c, Some v)) s st)
          else Some (Inl (Unknown_key n key)))"

text \<open>The body of the loop, for the line numbered \<open>n\<close>.\<close>

definition parse_line :: "nat \<Rightarrow> ustr \<Rightarrow> parser \<Rightarrow> (parse_error + parser) host" where
  "parse_line n raw st =
     (let line = trim (before 35 raw) in
      if line = [] then Some (Inr st)
      else case section_name line of
        Some name \<Rightarrow> Some (Inr (open_section (trim name) st))
      | None \<Rightarrow> (case split_once 61 line of
            None \<Rightarrow> Some (Inl (Expected_key_value n))
          | Some (key, v) \<Rightarrow> (case parse_u64 (delete_all 95 (trim v)) of
                None \<Rightarrow> Some (Inl (Not_an_integer n (trim v)))
              | Some x \<Rightarrow> assign n (trim key) x st)))"

fun parse_lines :: "nat \<Rightarrow> ustr list \<Rightarrow> parser \<Rightarrow> (parse_error + parser) host" where
  "parse_lines n [] st = Some (Inr st)"
| "parse_lines n (l # ls) st =
     (case parse_line n l st of
        None \<Rightarrow> None
      | Some (Inl e) \<Rightarrow> Some (Inl e)
      | Some (Inr st') \<Rightarrow> parse_lines (Suc n) ls st')"

text \<open>The second loop: every section needs both fields.\<close>

fun complete_entries ::
    "(ustr, u64 option \<times> u64 option) btree \<Rightarrow> (ustr, Cost) btree \<Rightarrow> parse_error + (ustr, Cost) btree"
  where
  "complete_entries [] out = Inr out"
| "complete_entries ((name, (Some c, Some m)) # rest) out =
     complete_entries rest (bt_insert name \<lparr>cpu_insns = c, mem_bytes = m\<rparr> out)"
| "complete_entries ((name, _) # rest) out = Inl (Incomplete name)"

definition parse_baseline :: "ustr \<Rightarrow> (parse_error + Baseline) host" where
  "parse_baseline src =
     (case parse_lines 1 (text_lines src)
         \<lparr>p_threshold = DEFAULT_THRESHOLD_PCT, p_entries = [], p_section = None\<rparr> of
        None \<Rightarrow> None
      | Some (Inl e) \<Rightarrow> Some (Inl e)
      | Some (Inr st) \<Rightarrow> (case complete_entries (p_entries st) [] of
            Inl e \<Rightarrow> Some (Inl e)
          | Inr out \<Rightarrow> Some (Inr \<lparr>threshold_pct = p_threshold st, entries = out\<rparr>)))"

subsection \<open>The renderer\<close>

definition header_lines :: "ustr list" where
  "header_lines =
     [lit ''# Resource-usage baseline for the release WASM (#119).'',
      lit ''#'',
      lit ''# Generated by `scripts/check_resource_budget.sh --update`; do not edit'',
      lit ''# numbers by hand. See COST_MODEL.md '' @ section_sign @ lit ''12 for the update process.'',
      []]"

definition entry_lines :: "ustr \<Rightarrow> Cost \<Rightarrow> ustr list" where
  "entry_lines name c =
     [[], lit ''['' @ name @ lit '']'', lit ''cpu_insns = '' @ digits (unat (cpu_insns c)),
      lit ''mem_bytes = '' @ digits (unat (mem_bytes c))]"

definition render_baseline :: "u64 \<Rightarrow> (ustr, Cost) btree \<Rightarrow> ustr" where
  "render_baseline threshold measured =
     unlines (header_lines @ [lit ''threshold_pct = '' @ digits (unat threshold)] @
       concat (map (\<lambda>(name, c). entry_lines name c) measured))"

subsection \<open>Lines of a rendered file\<close>

text \<open>A scenario name the format can hold: no line feed, no comment sign, no outer space.\<close>

definition name_ok :: "ustr \<Rightarrow> bool" where
  "name_ok n \<longleftrightarrow> 10 \<notin> set n \<and> 35 \<notin> set n \<and> trim n = n"

lemma digits_plain:
  "x \<notin> {48..57} \<Longrightarrow> x \<notin> set (digits n)"
  using digits_range [of x n] by auto

lemma digits_ends: "\<not> is_whitespace (hd (digits n)) \<and> \<not> is_whitespace (last (digits n))"
  using digits_range [of "hd (digits n)" n] digits_range [of "last (digits n)" n]
  by (auto simp: is_whitespace_def)

lemma strip_cr_last: "t \<noteq> [] \<Longrightarrow> last t \<noteq> 13 \<Longrightarrow> strip_cr t = t"
  by (simp add: strip_cr_def strip_suffix_def)

lemma plain_key_value:
  "10 \<notin> set k \<Longrightarrow> plain (k @ digits n)"
  using digits_plain [of 10 n] digits_range [of "last (digits n)" n]
  by (auto simp: plain_def intro!: strip_cr_last)

lemma plain_section: "name_ok n \<Longrightarrow> plain (91 # n @ [93])"
  by (auto simp: plain_def name_ok_def intro!: strip_cr_last)

lemma plain_header: "\<forall>l \<in> set header_lines. plain l"
  by (auto simp: header_lines_def plain_def section_sign_def strip_cr_def strip_suffix_def)

lemma plain_entry: "name_ok n \<Longrightarrow> \<forall>l \<in> set (entry_lines n c). plain l"
  using plain_section [of n] plain_key_value [of "lit ''cpu_insns = ''"]
    plain_key_value [of "lit ''mem_bytes = ''"]
  by (auto simp: entry_lines_def) (auto simp: plain_def strip_cr_def strip_suffix_def)

lemma text_lines_render:
  assumes "\<forall>n \<in> set (bt_keys m). name_ok n"
  shows "text_lines (render_baseline t m) =
    header_lines @ [lit ''threshold_pct = '' @ digits (unat t)] @
    concat (map (\<lambda>(name, c). entry_lines name c) m)"
  unfolding render_baseline_def
proof (rule text_lines_unlines)
  have "plain l" if "(n, c) \<in> set m" "l \<in> set (entry_lines n c)" for n c l
    using assms that plain_entry [of n c] by (force simp: bt_keys_def)
  then show "\<forall>l \<in> set (header_lines @ [lit ''threshold_pct = '' @ digits (unat t)] @
      concat (map (\<lambda>(name, c). entry_lines name c) m)). plain l"
    using plain_header plain_key_value [of "lit ''threshold_pct = ''" "unat t"] by auto
qed

subsection \<open>Parsing one rendered line\<close>

lemma parse_line_empty: "parse_line n [] st = Some (Inr st)"
  by (simp add: parse_line_def before_def trim_def)

lemma parse_line_comment: "parse_line n (35 # l) st = Some (Inr st)"
  by (simp add: parse_line_def before_def trim_def)

lemma parse_line_section:
  assumes "name_ok n"
  shows "parse_line k (91 # n @ [93]) st = Some (Inr (open_section n st))"
proof -
  have "before 35 (91 # n @ [93]) = 91 # n @ [93]"
    using assms by (intro before_none) (auto simp: name_ok_def)
  moreover have "trim (91 # n @ [93]) = 91 # n @ [93]"
    by (rule trim_id) (simp add: is_whitespace_def)
  moreover have "section_name (91 # n @ [93]) = Some n" by (simp add: section_name_def)
  ultimately show ?thesis using assms by (simp add: parse_line_def Let_def name_ok_def)
qed

lemma parse_line_key_value:
  assumes k: "k \<noteq> []" "\<not> is_whitespace (hd k)" "\<not> is_whitespace (last k)"
    "hd k \<noteq> 91" "35 \<notin> set k" "61 \<notin> set k"
  shows "parse_line n (k @ [32, 61, 32] @ digits (unat v)) st = assign n k v st"
proof -
  let ?l = "k @ [32, 61, 32] @ digits (unat v)"
  have "before 35 ?l = ?l"
    using k digits_plain [of 35 "unat v"] by (intro before_none) auto
  moreover have "trim ?l = ?l"
    using k digits_ends [of "unat v"] by (intro trim_id) auto
  moreover have "section_name ?l = None"
    using k(1,4) by (cases k) (simp_all add: section_name_def)
  moreover have "split_once 61 ?l = Some (k @ [32], 32 # digits (unat v))"
    using split_once_at [of 61 "k @ [32]" "32 # digits (unat v)"] k(6) by simp
  moreover have w: "is_whitespace 32" by (simp add: is_whitespace_def)
  then have "trim (k @ [32]) = k" using k by (intro trim_space(2)) auto
  moreover have "trim (32 # digits (unat v)) = digits (unat v)"
    using digits_ends [of "unat v"] w by (intro trim_space(1)) auto
  moreover have "delete_all 95 (digits (unat v)) = digits (unat v)"
    by (intro delete_all_none digits_plain) simp
  ultimately show ?thesis using k(1)
    by (simp add: parse_line_def Let_def parse_u64_digits)
qed

lemma parse_line_threshold:
  "parse_line n (lit ''threshold_pct = '' @ digits (unat v)) st =
     assign n (lit ''threshold_pct'') v st"
  using parse_line_key_value [of "lit ''threshold_pct''" n v st] by (simp add: is_whitespace_def)

lemma parse_line_cpu:
  "parse_line n (lit ''cpu_insns = '' @ digits (unat v)) st = assign n (lit ''cpu_insns'') v st"
  using parse_line_key_value [of "lit ''cpu_insns''" n v st] by (simp add: is_whitespace_def)

lemma parse_line_mem:
  "parse_line n (lit ''mem_bytes = '' @ digits (unat v)) st = assign n (lit ''mem_bytes'') v st"
  using parse_line_key_value [of "lit ''mem_bytes''" n v st] by (simp add: is_whitespace_def)


subsection \<open>Parsing a rendered file\<close>

lemma parse_entry:
  assumes n: "name_ok n" and less: "\<forall>k' \<in> set (bt_keys (p_entries st)). k' < n"
  shows "parse_lines k (entry_lines n c @ rest) st =
    parse_lines (Suc (Suc (Suc (Suc k)))) rest
      (st\<lparr>p_entries := p_entries st @ [(n, (Some (cpu_insns c), Some (mem_bytes c)))],
          p_section := Some n\<rparr>)"
proof -
  have new: "n \<notin> set (bt_keys (p_entries st))" using less by auto
  have o': "open_section n st =
      st\<lparr>p_entries := p_entries st @ [(n, (None, None))], p_section := Some n\<rparr>"
    using new bt_get_None [of "p_entries st" n]
    by (simp add: open_section_def bt_insert_last [OF less])
  have a1: "assign j (lit ''cpu_insns'') v
      (st\<lparr>p_entries := p_entries st @ [(n, (x, y))], p_section := Some n\<rparr>) =
      Some (Inr (st\<lparr>p_entries := p_entries st @ [(n, (Some v, y))], p_section := Some n\<rparr>))" for j v x y
    by (simp add: assign_def set_entry_def bt_get_last [OF new] bt_insert_replace_last [OF less])
  have a2: "assign j (lit ''mem_bytes'') v
      (st\<lparr>p_entries := p_entries st @ [(n, (x, y))], p_section := Some n\<rparr>) =
      Some (Inr (st\<lparr>p_entries := p_entries st @ [(n, (x, Some v))], p_section := Some n\<rparr>))" for j v x y
    by (simp add: assign_def set_entry_def bt_get_last [OF new] bt_insert_replace_last [OF less])
  have l: "entry_lines n c @ rest = [] # (91 # n @ [93]) #
      (lit ''cpu_insns = '' @ digits (unat (cpu_insns c))) #
      (lit ''mem_bytes = '' @ digits (unat (mem_bytes c))) # rest"
    by (simp add: entry_lines_def)
  show ?thesis
    unfolding l parse_lines.simps parse_line_empty parse_line_section [OF n] parse_line_cpu
      parse_line_mem o' a1 a2 option.case sum.case by (rule refl)
qed

lemma parse_entries:
  assumes "\<forall>n \<in> set (bt_keys m). name_ok n"
    "sorted_wrt (<) (bt_keys (p_entries st) @ bt_keys m)"
  shows "\<exists>s. parse_lines k (concat (map (\<lambda>(n, c). entry_lines n c) m)) st =
    Some (Inr (st\<lparr>p_entries := p_entries st @
        map (\<lambda>(n, c). (n, (Some (cpu_insns c), Some (mem_bytes c)))) m, p_section := s\<rparr>))"
  using assms
proof (induction m arbitrary: st k)
  case Nil
  have "st = st\<lparr>p_entries := p_entries st @ [], p_section := p_section st\<rparr>" by simp
  then show ?case by (auto intro: exI [of _ "p_section st"])
next
  case (Cons x m)
  obtain n c where x: "x = (n, c)" by (cases x)
  have "name_ok n" "\<forall>k' \<in> set (bt_keys (p_entries st)). k' < n"
    using Cons.prems x by (auto simp: sorted_wrt_append)
  note step = parse_entry [OF this, of k c "concat (map (\<lambda>(n, c). entry_lines n c) m)"]
  let ?st = "st\<lparr>p_entries := p_entries st @ [(n, (Some (cpu_insns c), Some (mem_bytes c)))],
          p_section := Some n\<rparr>"
  have "\<forall>n \<in> set (bt_keys m). name_ok n"
    "sorted_wrt (<) (bt_keys (p_entries ?st) @ bt_keys m)"
    using Cons.prems x by auto
  from Cons.IH [OF this, of "Suc (Suc (Suc (Suc k)))"] show ?case
    unfolding x by (simp add: step)
qed

lemma complete_entries_map:
  assumes "sorted_wrt (<) (bt_keys out @ bt_keys m)"
  shows "complete_entries (map (\<lambda>(n, c). (n, (Some (cpu_insns c), Some (mem_bytes c)))) m) out =
    Inr (out @ m)"
  using assms
proof (induction m arbitrary: out)
  case Nil
  then show ?case by simp
next
  case (Cons x m)
  obtain n c where x: "x = (n, c)" by (cases x)
  with Cons.prems have "\<forall>k' \<in> set (bt_keys out). k' < n" by (auto simp: sorted_wrt_append)
  note l = bt_insert_last [OF this, of c]
  have c: "\<lparr>cpu_insns = cpu_insns c, mem_bytes = mem_bytes c\<rparr> = c" by simp
  from Cons.prems x have "sorted_wrt (<) (bt_keys (out @ [(n, c)]) @ bt_keys m)" by simp
  from Cons.IH [OF this] show ?case by (simp only: x list.map prod.case complete_entries.simps c l append_assoc append.simps)
qed

lemma parse_header:
  "\<exists>k. \<forall>rest. parse_lines 1 (header_lines @ [lit ''threshold_pct = '' @ digits (unat t)] @ rest)
     \<lparr>p_threshold = d, p_entries = [], p_section = None\<rparr> =
   parse_lines k rest \<lparr>p_threshold = t, p_entries = [], p_section = None\<rparr>"
proof -
  obtain h0 h1 h2 h3 where h: "header_lines = [35 # h0, 35 # h1, 35 # h2, 35 # h3, []]"
    unfolding header_lines_def by simp
  have a: "assign n (lit ''threshold_pct'') t \<lparr>p_threshold = d, p_entries = [], p_section = None\<rparr> =
      Some (Inr \<lparr>p_threshold = t, p_entries = [], p_section = None\<rparr>)" for n
    by (simp only: assign_def parser.simps option.case if_True simp_thms)
  show ?thesis
    unfolding h append.simps parse_lines.simps parse_line_comment parse_line_empty
      parse_line_threshold a option.case sum.case by blast
qed

lemma parse_render:
  assumes "bt_ok m" "\<forall>n \<in> set (bt_keys m). name_ok n"
  shows "parse_baseline (render_baseline t m) = Some (Inr \<lparr>threshold_pct = t, entries = m\<rparr>)"
proof -
  let ?st = "\<lparr>p_threshold = t, p_entries = [], p_section = None\<rparr>"
  obtain k where h: "parse_lines 1 (header_lines @ [lit ''threshold_pct = '' @ digits (unat t)] @ rest)
      \<lparr>p_threshold = DEFAULT_THRESHOLD_PCT, p_entries = [], p_section = None\<rparr> =
      parse_lines k rest ?st" for rest
    using parse_header by blast
  have "\<exists>s. parse_lines k (concat (map (\<lambda>(n, c). entry_lines n c) m)) ?st =
    Some (Inr (?st\<lparr>p_entries := p_entries ?st @
        map (\<lambda>(n, c). (n, (Some (cpu_insns c), Some (mem_bytes c)))) m, p_section := s\<rparr>))"
    by (rule parse_entries) (use assms in \<open>simp_all add: bt_ok_def\<close>)
  then obtain s where s: "parse_lines k (concat (map (\<lambda>(n, c). entry_lines n c) m)) ?st =
    Some (Inr \<lparr>p_threshold = t, p_entries =
        map (\<lambda>(n, c). (n, (Some (cpu_insns c), Some (mem_bytes c)))) m, p_section = s\<rparr>)"
    by auto
  have c: "complete_entries (map (\<lambda>(n, c). (n, (Some (cpu_insns c), Some (mem_bytes c)))) m) [] = Inr m"
    using complete_entries_map [of "[]" m] assms(1) by (simp add: bt_ok_def)
  show ?thesis
    unfolding parse_baseline_def text_lines_render [OF assms(2)] h s
    by (simp add: c)
qed

subsection \<open>The parser never panics\<close>

definition parser_ok :: "parser \<Rightarrow> bool" where
  "parser_ok st \<longleftrightarrow> bt_ok (p_entries st) \<and>
     (case p_section st of None \<Rightarrow> True | Some s \<Rightarrow> bt_get (p_entries st) s \<noteq> None)"

lemma open_section_ok: "parser_ok st \<Longrightarrow> parser_ok (open_section n st)"
  by (auto simp: parser_ok_def open_section_def bt_ok_insert bt_get_insert split: option.split)

lemma set_entry_ok:
  assumes "parser_ok st" "p_section st = Some s"
  shows "\<exists>st'. set_entry f s st = Some st' \<and> parser_ok st'"
  using assms by (auto simp: parser_ok_def set_entry_def bt_ok_insert bt_get_insert)

lemma assign_ok:
  assumes "parser_ok st"
  shows "(\<exists>e. assign n k v st = Some (Inl e)) \<or> (\<exists>st'. assign n k v st = Some (Inr st') \<and> parser_ok st')"
proof (cases "p_section st")
  case None
  with assms show ?thesis by (simp add: assign_def parser_ok_def)
next
  case (Some s)
  from set_entry_ok [OF assms Some] show ?thesis
    unfolding assign_def Some option.case by (metis option.map(2))
qed

lemma parse_line_ok:
  assumes "parser_ok st"
  shows "(\<exists>e. parse_line n l st = Some (Inl e)) \<or>
    (\<exists>st'. parse_line n l st = Some (Inr st') \<and> parser_ok st')"
  using assms assign_ok [OF assms] open_section_ok [OF assms]
  unfolding parse_line_def by (auto simp: Let_def split: option.split)

lemma parse_lines_ok:
  assumes "parser_ok st"
  shows "(\<exists>e. parse_lines n ls st = Some (Inl e)) \<or>
    (\<exists>st'. parse_lines n ls st = Some (Inr st') \<and> parser_ok st')"
  using assms
proof (induction ls arbitrary: n st)
  case Nil
  then show ?case by simp
next
  case (Cons l ls)
  from parse_line_ok [OF Cons.prems, of n l] Cons.IH show ?case by (elim disjE exE conjE) simp_all
qed

lemma complete_entries_ok: "bt_ok out \<Longrightarrow> complete_entries es out = Inr m \<Longrightarrow> bt_ok m"
  by (induction es out rule: complete_entries.induct) (auto intro: bt_ok_insert)

subsection \<open>Properties\<close>

text \<open>C8. Writing the baseline and reading it back is the identity: for measurements in map
  order, under names without a line feed, a comment sign or outer white space, parsing the
  rendered file gives the threshold and exactly the measurements.\<close>

theorem baseline_round_trip:
  assumes "bt_ok m" "\<forall>n \<in> set (bt_keys m). name_ok n"
  shows "parse_baseline (render_baseline t m) = Some (Inr \<lparr>threshold_pct = t, entries = m\<rparr>)"
  by (rule parse_render [OF assms])

theorem baseline_round_trip_witness:
  "parse_baseline (render_baseline 12 [(lit ''a'', \<lparr>cpu_insns = 1234567, mem_bytes = 89\<rparr>),
      (lit ''b'', \<lparr>cpu_insns = 0, mem_bytes = 0\<rparr>)]) =
   Some (Inr \<lparr>threshold_pct = 12, entries = [(lit ''a'', \<lparr>cpu_insns = 1234567, mem_bytes = 89\<rparr>),
      (lit ''b'', \<lparr>cpu_insns = 0, mem_bytes = 0\<rparr>)]\<rparr>)"
  by (rule baseline_round_trip) (simp_all add: bt_ok_def name_ok_def trim_def is_whitespace_def)

text \<open>C31. The parser never panics, whatever the file: the \<open>unwrap\<close> on the current section
  always finds it.  It returns an error or a baseline whose entries stand in name order with
  no name twice.\<close>

theorem parse_baseline_total:
  "(\<exists>e. parse_baseline src = Some (Inl e)) \<or>
   (\<exists>b. parse_baseline src = Some (Inr b) \<and> bt_ok (entries b) \<and> distinct (bt_keys (entries b)))"
proof -
  have "parser_ok \<lparr>p_threshold = DEFAULT_THRESHOLD_PCT, p_entries = [], p_section = None\<rparr>"
    by (simp add: parser_ok_def bt_ok_def)
  note p = parse_lines_ok [OF this, of 1 "text_lines src"]
  have "bt_ok ([] :: (ustr, Cost) btree)" by (simp add: bt_ok_def)
  note c = complete_entries_ok [OF this]
  from p show ?thesis
  proof (elim disjE exE conjE)
    fix e
    assume "parse_lines 1 (text_lines src)
        \<lparr>p_threshold = DEFAULT_THRESHOLD_PCT, p_entries = [], p_section = None\<rparr> = Some (Inl e)"
    then show ?thesis by (simp add: parse_baseline_def)
  next
    fix st
    assume "parse_lines 1 (text_lines src)
        \<lparr>p_threshold = DEFAULT_THRESHOLD_PCT, p_entries = [], p_section = None\<rparr> = Some (Inr st)"
    then show ?thesis using c [of "p_entries st"] bt.keys_distinct
      by (cases "complete_entries (p_entries st) []") (simp_all add: parse_baseline_def)
  qed
qed

text \<open>A section without both fields is refused: the unit test's two malformed files give
  the errors the code states for them, with the line counted from one.\<close>

theorem parse_baseline_rejects:
  "parse_baseline (unlines [lit ''[x]'', lit ''cpu_insns = 1'']) = Some (Inl (Incomplete (lit ''x''))) \<and>
   parse_baseline (unlines [lit ''[x]'', lit ''cpu_insns = one'', lit ''mem_bytes = 1'']) =
     Some (Inl (Not_an_integer 2 (lit ''one'')))"
  by (simp add: parse_baseline_def text_lines_def unlines_def strip_cr_def strip_suffix_def
      parse_line_def before_def trim_def is_whitespace_def section_name_def open_section_def
      bt_get_def delete_all_def parse_u64_def is_digit_def digits_value_def assign_def
      set_entry_def Let_def numeral_2_eq_2 [symmetric])

end
