(* ===== verification/Resource_Gate.thy ===== *)
theory Resource_Gate
  imports Baseline_File "HOL-Library.Signed_Division"
begin

text \<open>
  The resource-usage gate of \<open>src/bench_resources.rs\<close>: the comparison of measurements with
  the baseline, the messages it prints, the injection of its self-test, the scenarios it
  meters and the gate itself.  What the metered calls cost is measured by the SDK and is a
  parameter; arithmetic that may overflow is a \<open>host\<close> value, as the test profile panics.
\<close>

subsection \<open>Comparison\<close>

text \<open>\<open>i128\<close> arithmetic as integers; the intermediate values stay in range.\<close>

definition I128_MAX :: int where "I128_MAX = 2 ^ 127 - 1"

definition delta_permille :: "u64 \<Rightarrow> u64 \<Rightarrow> int" where
  "delta_permille base now =
     (if base = 0 then (if now = 0 then 0 else I128_MAX)
      else ((uint now - uint base) * 1000) sdiv uint base)"

definition exceeds :: "u64 \<Rightarrow> u64 \<Rightarrow> u64 \<Rightarrow> bool host" where
  "exceeds base now threshold =
     (if unat base * (100 + unat threshold) < 2 ^ 128
      then Some (unat now * 100 > unat base * (100 + unat threshold)) else None)"

datatype Finding =
    Regressed ustr ustr u64 u64
  | MissingBaseline ustr
  | StaleBaseline ustr

definition check_metric :: "u64 \<Rightarrow> ustr \<Rightarrow> ustr \<Rightarrow> u64 \<Rightarrow> u64 \<Rightarrow> Finding list host" where
  "check_metric threshold name metric b n = do {
     e \<leftarrow> exceeds b n threshold;
     Some (if e then [Regressed name metric b n] else []) }"

definition check_entry :: "(ustr, Cost) btree \<Rightarrow> u64 \<Rightarrow> ustr \<Rightarrow> Cost \<Rightarrow> Finding list host" where
  "check_entry base threshold name now =
     (case bt_get base name of
        None \<Rightarrow> Some [MissingBaseline name]
      | Some b \<Rightarrow> do {
          f \<leftarrow> check_metric threshold name (lit ''cpu_insns'') (cpu_insns b) (cpu_insns now);
          g \<leftarrow> check_metric threshold name (lit ''mem_bytes'') (mem_bytes b) (mem_bytes now);
          Some (f @ g) })"

fun check_entries :: "(ustr, Cost) btree \<Rightarrow> u64 \<Rightarrow> (ustr, Cost) btree \<Rightarrow> Finding list host" where
  "check_entries base threshold [] = Some []"
| "check_entries base threshold ((name, now) # rest) = do {
     f \<leftarrow> check_entry base threshold name now;
     fs \<leftarrow> check_entries base threshold rest;
     Some (f @ fs) }"

definition compare_costs :: "Baseline \<Rightarrow> (ustr, Cost) btree \<Rightarrow> u64 \<Rightarrow> Finding list host" where
  "compare_costs baseline measured threshold = do {
     fs \<leftarrow> check_entries (entries baseline) threshold measured;
     Some (fs @ map StaleBaseline
       (filter (\<lambda>name. bt_get measured name = None) (bt_keys (entries baseline)))) }"

subsection \<open>Messages\<close>

definition fmt_pct :: "int \<Rightarrow> ustr" where
  "fmt_pct permille =
     (if permille = I128_MAX then lit ''+inf%''
      else (if permille < 0 then lit ''-'' else lit ''+'') @
        digits (nat \<bar>permille\<bar> div 10) @ lit ''.'' @ digits (nat \<bar>permille\<bar> mod 10) @ lit ''%'')"

fun describe :: "u64 \<Rightarrow> Finding \<Rightarrow> ustr" where
  "describe threshold (Regressed scenario metric base measured) =
     lit ''REGRESSION  '' @ scenario @ lit '': '' @ metric @ lit '' '' @ digits (unat measured) @
     lit '' vs baseline '' @ digits (unat base) @ lit '' ('' @ fmt_pct (delta_permille base measured) @
     lit ''; threshold +'' @ digits (unat threshold) @ lit ''%)''"
| "describe threshold (MissingBaseline scenario) =
     lit ''MISSING     '' @ scenario @ lit '': no entry in the baseline '' @ em_dash @
     lit '' run `scripts/check_resource_budget.sh --update` and commit the result''"
| "describe threshold (StaleBaseline scenario) =
     lit ''STALE       '' @ scenario @ lit '': baseline entry has no matching scenario '' @ em_dash @
     lit '' re-run with --update to drop it''"

subsection \<open>Injection and measurement\<close>

definition inject :: "(ustr, Cost) btree \<Rightarrow> ustr \<Rightarrow> (ustr, Cost) btree host" where
  "inject measured spec = do {
     (name, p) \<leftarrow> split_once 58 spec;
     pct \<leftarrow> parse_u64 p;
     c \<leftarrow> bt_get measured name;
     if unat (cpu_insns c) * unat pct < 2 ^ 64 \<and>
        unat (cpu_insns c) + unat (cpu_insns c) * unat pct div 100 < 2 ^ 64
     then Some (bt_insert name
       (c\<lparr>cpu_insns := cpu_insns c + cpu_insns c * pct div 100\<rparr>) measured)
     else None }"

definition OVERHEAD :: ustr where "OVERHEAD = lit ''invocation_overhead''"

definition sat_sub64 :: "u64 \<Rightarrow> u64 \<Rightarrow> u64" where
  "sat_sub64 a b = (if b \<le> a then a - b else 0)"

fun record_net :: "Cost \<Rightarrow> (ustr \<times> Cost) list \<Rightarrow> (ustr, Cost) btree \<Rightarrow> (ustr, Cost) btree" where
  "record_net overhead [] out = out"
| "record_net overhead ((name, total') # runs) out =
     record_net overhead runs (bt_insert name
       \<lparr>cpu_insns = sat_sub64 (cpu_insns total') (cpu_insns overhead),
        mem_bytes = sat_sub64 (mem_bytes total') (mem_bytes overhead)\<rparr> out)"

text \<open>The cost of the trivial call and of each scenario's call, in the order of
  \<open>scenarios\<close>, come from the metered host.\<close>

definition measure_all :: "Cost \<Rightarrow> (ustr \<times> Cost) list \<Rightarrow> (ustr, Cost) btree" where
  "measure_all overhead runs = record_net overhead runs [(OVERHEAD, overhead)]"

subsection \<open>The gate\<close>

text \<open>What the gate reads: the environment variables, the measurements and the text of the
  baseline file, empty when it cannot be read.\<close>

record Gate =
  g_enabled :: bool
  g_measured :: "(ustr, Cost) btree"
  g_inject :: "ustr option"
  g_baseline_src :: ustr
  g_threshold :: "ustr option"
  g_update :: bool

datatype outcome =
    Skipped
  | Panicked
  | Baseline_written ustr
  | Gate_failed "Finding list"
  | Gate_passed

definition gate_measured :: "Gate \<Rightarrow> (ustr, Cost) btree host" where
  "gate_measured g = (case g_inject g of
     None \<Rightarrow> Some (g_measured g) | Some spec \<Rightarrow> inject (g_measured g) spec)"

definition gate_baseline :: "Gate \<Rightarrow> Baseline host" where
  "gate_baseline g =
     (if g_baseline_src g = []
      then Some \<lparr>threshold_pct = DEFAULT_THRESHOLD_PCT, entries = []\<rparr>
      else case parse_baseline (g_baseline_src g) of
        Some (Inr b) \<Rightarrow> Some b | _ \<Rightarrow> None)"

definition gate_threshold :: "Gate \<Rightarrow> Baseline \<Rightarrow> u64 host" where
  "gate_threshold g b = (case g_threshold g of
     None \<Rightarrow> Some (threshold_pct b) | Some v \<Rightarrow> parse_u64 v)"

definition resource_gate :: "Gate \<Rightarrow> outcome" where
  "resource_gate g =
     (if \<not> g_enabled g then Skipped
      else case gate_measured g of None \<Rightarrow> Panicked
      | Some measured \<Rightarrow> (case gate_baseline g of None \<Rightarrow> Panicked
        | Some b \<Rightarrow> (case gate_threshold g b of None \<Rightarrow> Panicked
          | Some threshold \<Rightarrow>
              if g_update g then Baseline_written (render_baseline threshold measured)
              else (case compare_costs b measured threshold of
                  None \<Rightarrow> Panicked
                | Some fs \<Rightarrow> if fs = [] then Gate_passed else Gate_failed fs))))"

subsection \<open>The committed baseline\<close>

definition committed_entries :: "(ustr, Cost) btree" where
  "committed_entries =
    [(lit ''accept_admin'', \<lparr>cpu_insns = 90187, mem_bytes = 8264\<rparr>),
     (lit ''bond_collateral'', \<lparr>cpu_insns = 78784, mem_bytes = 8130\<rparr>),
     (lit ''complete_transaction'', \<lparr>cpu_insns = 225806, mem_bytes = 18714\<rparr>),
     (lit ''fail_transaction'', \<lparr>cpu_insns = 220694, mem_bytes = 18067\<rparr>),
     (lit ''get_transaction'', \<lparr>cpu_insns = 88161, mem_bytes = 5447\<rparr>),
     (lit ''invocation_overhead'', \<lparr>cpu_insns = 2997803, mem_bytes = 1768066\<rparr>),
     (lit ''pause'', \<lparr>cpu_insns = 56127, mem_bytes = 5994\<rparr>),
     (lit ''propose_admin'', \<lparr>cpu_insns = 55979, mem_bytes = 6253\<rparr>),
     (lit ''register_callback'', \<lparr>cpu_insns = 277268, mem_bytes = 17886\<rparr>),
     (lit ''register_callback_idempotent_replay'', \<lparr>cpu_insns = 141711, mem_bytes = 5034\<rparr>),
     (lit ''register_callback_reject_account_checksum'', \<lparr>cpu_insns = 90413, mem_bytes = 3778\<rparr>),
     (lit ''register_callback_reject_amount'', \<lparr>cpu_insns = 56678, mem_bytes = 3778\<rparr>),
     (lit ''register_callback_reject_asset_code'', \<lparr>cpu_insns = 61116, mem_bytes = 3778\<rparr>),
     (lit ''register_callback_reject_callback_status_len'', \<lparr>cpu_insns = 59342, mem_bytes = 3778\<rparr>),
     (lit ''register_callback_reject_idempotency_key'', \<lparr>cpu_insns = 57110, mem_bytes = 3778\<rparr>),
     (lit ''register_callback_reject_issuer_checksum'', \<lparr>cpu_insns = 119310, mem_bytes = 3778\<rparr>),
     (lit ''set_param'', \<lparr>cpu_insns = 64175, mem_bytes = 6974\<rparr>),
     (lit ''set_relay_signer'', \<lparr>cpu_insns = 72602, mem_bytes = 6192\<rparr>),
     (lit ''start_processing'', \<lparr>cpu_insns = 208035, mem_bytes = 17689\<rparr>),
     (lit ''unpause'', \<lparr>cpu_insns = 55193, mem_bytes = 5910\<rparr>)]"

subsection \<open>Facts\<close>

lemma exceeds_total: "unat t + 100 \<le> 2 ^ 64 \<Longrightarrow>
   exceeds b n t = Some (unat n * 100 > unat b * (100 + unat t))"
proof -
  assume t: "unat t + 100 \<le> 2 ^ 64"
  have "unat b < 2 ^ 64" using unsigned_less [of b] by simp
  with t have "unat b * (100 + unat t) < 2 ^ 64 * 2 ^ 64"
    by (intro mult_less_le_imp_less) simp_all
  then show ?thesis by (simp add: exceeds_def)
qed

lemma permille_range:
  assumes "0 \<le> x" "x < 2 ^ 64" "0 \<le> y" "y < (2 ^ 64 :: int)"
  shows "\<bar>(x - y) * 1000\<bar> < 2 ^ 127"
  using assms unfolding abs_less_iff by simp

text \<open>A metric is within the threshold.\<close>

definition within :: "u64 \<Rightarrow> u64 \<Rightarrow> u64 \<Rightarrow> bool" where
  "within t b n \<longleftrightarrow> unat n * 100 \<le> unat b * (100 + unat t)"

lemma check_metric_total:
  "unat t + 100 \<le> 2 ^ 64 \<Longrightarrow>
     check_metric t name metric b n = Some (if within t b n then [] else [Regressed name metric b n])"
  by (simp add: check_metric_def exceeds_total within_def)

text \<open>The findings about one measured scenario.\<close>

definition entry_findings :: "(ustr, Cost) btree \<Rightarrow> u64 \<Rightarrow> ustr \<Rightarrow> Cost \<Rightarrow> Finding list" where
  "entry_findings base t name now = (case bt_get base name of
     None \<Rightarrow> [MissingBaseline name]
   | Some b \<Rightarrow>
       (if within t (cpu_insns b) (cpu_insns now) then []
        else [Regressed name (lit ''cpu_insns'') (cpu_insns b) (cpu_insns now)]) @
       (if within t (mem_bytes b) (mem_bytes now) then []
        else [Regressed name (lit ''mem_bytes'') (mem_bytes b) (mem_bytes now)]))"

lemma check_entries_total:
  "unat t + 100 \<le> 2 ^ 64 \<Longrightarrow>
     check_entries base t m = Some (concat (map (\<lambda>(name, now). entry_findings base t name now) m))"
proof (induction m)
  case (Cons x m)
  have "check_entry base t name now = Some (entry_findings base t name now)" for name now
    using check_metric_total [OF Cons.prems]
    by (simp add: check_entry_def entry_findings_def split: option.split)
  with Cons show ?case by (cases x) simp
qed simp

lemma compare_total:
  "unat t + 100 \<le> 2 ^ 64 \<Longrightarrow> compare_costs b m t = Some
     (concat (map (\<lambda>(name, now). entry_findings (entries b) t name now) m) @
      map StaleBaseline (filter (\<lambda>name. bt_get m name = None) (bt_keys (entries b))))"
  by (simp add: compare_costs_def check_entries_total)

lemma within_refl: "within t b b"
  by (simp add: within_def)

lemma compare_refl:
  assumes "unat t + 100 \<le> 2 ^ 64" "bt_ok m"
  shows "compare_costs \<lparr>threshold_pct = t', entries = m\<rparr> m t = Some []"
proof -
  have "entry_findings m t name now = []" if "(name, now) \<in> set m" for name now
    using that bt_get_mem [OF assms(2), of name now] by (simp add: entry_findings_def within_refl)
  moreover have "filter (\<lambda>name. bt_get m name = None) (bt_keys m) = []"
    by (simp add: filter_empty_conv bt_get_None)
  ultimately show ?thesis by (auto simp: compare_total [OF assms(1)])
qed


lemma entry_findings_mem:
  "MissingBaseline n \<in> set (entry_findings base t name now) \<longleftrightarrow> n = name \<and> bt_get base name = None"
  "StaleBaseline n \<notin> set (entry_findings base t name now)"
  "entry_findings base t name now = [] \<longleftrightarrow> (\<exists>b. bt_get base name = Some b \<and>
     within t (cpu_insns b) (cpu_insns now) \<and> within t (mem_bytes b) (mem_bytes now))"
  by (auto simp: entry_findings_def split: option.split)

text \<open>Net of the overhead, the measured cost never wraps.\<close>

lemma unat_sat_sub64: "unat (sat_sub64 a b) = unat a - unat b"
  by (simp add: sat_sub64_def unat_sub word_le_nat_alt)

lemma record_net_get:
  assumes "distinct (map fst runs)"
  shows "bt_get (record_net o' runs out) n = (case map_of runs n of
     None \<Rightarrow> bt_get out n
   | Some c \<Rightarrow> Some \<lparr>cpu_insns = sat_sub64 (cpu_insns c) (cpu_insns o'),
                    mem_bytes = sat_sub64 (mem_bytes c) (mem_bytes o')\<rparr>)"
  using assms
proof (induction runs arbitrary: out)
  case (Cons x runs)
  obtain name c where x: "x = (name, c)" by (cases x)
  with Cons.prems have "name \<notin> fst ` set runs" by simp
  then have "map_of runs name = None" by (simp add: map_of_eq_None_iff)
  with Cons x show ?case by (auto simp: bt_get_insert split: option.split)
qed simp

lemma record_net_keys:
  "set (bt_keys (record_net o' runs out)) = fst ` set runs \<union> set (bt_keys out)"
  by (induction o' runs out rule: record_net.induct) (auto simp: bt_insert_keys)

lemma measure_all_keys: "set (bt_keys (measure_all o' runs)) = insert OVERHEAD (fst ` set runs)"
  by (simp add: measure_all_def record_net_keys)

text \<open>Which scenarios a comparison names missing and stale.\<close>

lemma compare_names:
  assumes "unat t + 100 \<le> 2 ^ 64" "compare_costs b m t = Some fs"
  shows "MissingBaseline n \<in> set fs \<longleftrightarrow> n \<in> set (bt_keys m) - set (bt_keys (entries b))"
    and "StaleBaseline n \<in> set fs \<longleftrightarrow> n \<in> set (bt_keys (entries b)) - set (bt_keys m)"
proof -
  have fs: "fs = concat (map (\<lambda>(name, now). entry_findings (entries b) t name now) m) @
      map StaleBaseline (filter (\<lambda>name. bt_get m name = None) (bt_keys (entries b)))"
    using assms(2) compare_total [OF assms(1), of b m] by simp
  show "MissingBaseline n \<in> set fs \<longleftrightarrow> n \<in> set (bt_keys m) - set (bt_keys (entries b))"
    unfolding fs by (force simp: entry_findings_mem(1) bt_get_None bt_keys_def)
  show "StaleBaseline n \<in> set fs \<longleftrightarrow> n \<in> set (bt_keys (entries b)) - set (bt_keys m)"
    unfolding fs by (auto simp: entry_findings_mem(2) bt_get_None)
qed

lemma record_net_ok: "bt_ok out \<Longrightarrow> bt_ok (record_net o' runs out)"
  by (induction o' runs out rule: record_net.induct) (simp_all add: bt_ok_insert)

lemma inject_measured:
  fixes pct :: u64
  assumes "58 \<notin> set name" "bt_get m name = Some c"
    "unat (cpu_insns c) * unat pct < 2 ^ 64"
    "unat (cpu_insns c) + unat (cpu_insns c) * unat pct div 100 < 2 ^ 64"
  shows "inject m (name @ 58 # digits (unat pct)) =
      Some (bt_insert name (c\<lparr>cpu_insns := cpu_insns c + cpu_insns c * pct div 100\<rparr>) m) \<and>
    unat (cpu_insns c + cpu_insns c * pct div 100) =
      unat (cpu_insns c) + unat (cpu_insns c) * unat pct div 100"
proof -
  have "unat (cpu_insns c * pct) = unat (cpu_insns c) * unat pct"
    using assms(3) by (simp add: unat_word_ariths)
  then have "unat (cpu_insns c * pct div 100) = unat (cpu_insns c) * unat pct div 100"
    by (simp add: unat_div)
  then have "unat (cpu_insns c + cpu_insns c * pct div 100) =
      unat (cpu_insns c) + unat (cpu_insns c) * unat pct div 100"
    using assms(4) by (simp add: unat_word_ariths(1))
  then show ?thesis
    using assms by (simp add: inject_def split_once_at parse_u64_digits)
qed

subsection \<open>Properties\<close>

text \<open>C20. The comparison is exact: for ordered maps and a threshold that does not overflow, it
  returns, names a scenario missing exactly when it is measured without a baseline and stale
  exactly when the reverse holds, and finds nothing exactly when both list the same scenarios
  and both metrics of each are within the threshold.\<close>

theorem compare_exact:
  assumes "unat t + 100 \<le> 2 ^ 64" "bt_ok m" "bt_ok (entries b)"
  shows "\<exists>fs. compare_costs b m t = Some fs \<and>
    (\<forall>n. MissingBaseline n \<in> set fs \<longleftrightarrow> n \<in> set (bt_keys m) - set (bt_keys (entries b))) \<and>
    (\<forall>n. StaleBaseline n \<in> set fs \<longleftrightarrow> n \<in> set (bt_keys (entries b)) - set (bt_keys m)) \<and>
    (fs = [] \<longleftrightarrow> bt_keys m = bt_keys (entries b) \<and>
      (\<forall>n c c'. bt_get (entries b) n = Some c \<longrightarrow> bt_get m n = Some c' \<longrightarrow>
        within t (cpu_insns c) (cpu_insns c') \<and> within t (mem_bytes c) (mem_bytes c')))"
proof -
  let ?fs = "concat (map (\<lambda>(name, now). entry_findings (entries b) t name now) m) @
      map StaleBaseline (filter (\<lambda>name. bt_get m name = None) (bt_keys (entries b)))"
  have cmp: "compare_costs b m t = Some ?fs" by (rule compare_total [OF assms(1)])
  note missing = compare_names(1) [OF assms(1) cmp] and stale = compare_names(2) [OF assms(1) cmp]
  have keys: "set (bt_keys m) = set (bt_keys (entries b)) \<Longrightarrow> bt_keys m = bt_keys (entries b)"
    using strict_sorted_equal [OF bt.keys_sorted [OF assms(2)] bt.keys_sorted [OF assms(3)]] by simp
  have inner: "concat (map (\<lambda>(name, now). entry_findings (entries b) t name now) m) = [] \<longleftrightarrow>
      (\<forall>n c'. bt_get m n = Some c' \<longrightarrow> (\<exists>c. bt_get (entries b) n = Some c \<and>
        within t (cpu_insns c) (cpu_insns c') \<and> within t (mem_bytes c) (mem_bytes c')))"
    by (auto simp: entry_findings_mem(3) bt_get_mem [OF assms(2)])
  have empty: "?fs = [] \<longleftrightarrow> bt_keys m = bt_keys (entries b) \<and>
      (\<forall>n c c'. bt_get (entries b) n = Some c \<longrightarrow> bt_get m n = Some c' \<longrightarrow>
        within t (cpu_insns c) (cpu_insns c') \<and> within t (mem_bytes c) (mem_bytes c'))"
    (is "_ \<longleftrightarrow> ?r")
  proof
    assume e: "?fs = []"
    then have "set (bt_keys m) = set (bt_keys (entries b))"
      using missing stale by (metis Diff_iff empty_iff list.set(1) subsetI subset_antisym)
    with e keys inner show ?r by (auto simp: append_is_Nil_conv) (metis option.inject)+
  next
    assume r: ?r
    have "\<exists>c. bt_get (entries b) n = Some c" if "bt_get m n = Some c'" for n c'
      using r that bt_get_None [of m n] bt_get_None [of "entries b" n] by (cases "bt_get (entries b) n") auto
    with r inner have "concat (map (\<lambda>(name, now). entry_findings (entries b) t name now) m) = []"
      by metis
    moreover have "filter (\<lambda>name. bt_get m name = None) (bt_keys (entries b)) = []"
      using r by (auto simp: filter_empty_conv bt_get_None)
    ultimately show "?fs = []" by simp
  qed
  show ?thesis
    using cmp missing stale empty by blast
qed

theorem compare_exact_witness:
  "\<exists>fs. compare_costs \<lparr>threshold_pct = 15, entries = [(lit ''old'', \<lparr>cpu_insns = 1, mem_bytes = 1\<rparr>)]\<rparr>
       [(lit ''new'', \<lparr>cpu_insns = 1, mem_bytes = 1\<rparr>)] 15 = Some fs \<and>
     MissingBaseline (lit ''new'') \<in> set fs \<and> StaleBaseline (lit ''old'') \<in> set fs \<and> fs \<noteq> []"
  using compare_exact [of 15 "[(lit ''new'', \<lparr>cpu_insns = 1, mem_bytes = 1\<rparr>)]"
      "\<lparr>threshold_pct = 15, entries = [(lit ''old'', \<lparr>cpu_insns = 1, mem_bytes = 1\<rparr>)]\<rparr>"]
  by (auto simp: bt_ok_def)

text \<open>A regression is displayed as one: when a metric exceeds its threshold, the change the
  message prints is at least the threshold, in tenths of a percent, and the computation stays
  inside an \<open>i128\<close>.\<close>

theorem exceeds_display:
  assumes "exceeds b n t = Some True"
  shows "10 * uint t \<le> delta_permille b n \<and> \<bar>(uint n - uint b) * 1000\<bar> < 2 ^ 127 \<and>
    delta_permille b n \<le> I128_MAX"
proof -
  have range: "0 \<le> uint b" "0 \<le> uint n" "0 \<le> uint t" "uint b < 2 ^ 64" "uint n < 2 ^ 64" "uint t < 2 ^ 64"
    using uint_bounded [of b] uint_bounded [of n] uint_bounded [of t] by simp_all
  from assms have e: "unat b * (100 + unat t) < unat n * 100" by (auto simp: exceeds_def split: if_splits)
  then have "int (unat b * (100 + unat t)) < int (unat n * 100)" by (simp only: of_nat_less_iff)
  then have i: "uint b * (100 + uint t) < uint n * 100" by (simp only: of_nat_mult of_nat_add uint_nat) simp
  have bound: "\<bar>(uint n - uint b) * 1000\<bar> < 2 ^ 127" using range by (intro permille_range)
  show ?thesis
  proof (cases "b = 0")
    case True
    with i range bound show ?thesis by (auto simp: delta_permille_def I128_MAX_def)
  next
    case False
    then have "uint b \<noteq> 0" by (simp add: uint_0_iff)
    with range(1) have b: "0 < uint b" by (rule le_neq_trans [OF _ not_sym])
    have d: "10 * uint t * uint b \<le> (uint n - uint b) * 1000"
      using i by (simp add: algebra_simps)
    moreover have "0 \<le> 10 * uint t * uint b" using range by simp
    ultimately have pos: "0 \<le> (uint n - uint b) * 1000" by linarith
    then have q: "delta_permille b n = (uint n - uint b) * 1000 div uint b"
      using False b by (simp add: delta_permille_def signed_divide_int_def abs_of_nonneg [OF pos]
          sgn_if)
    have "10 * uint t \<le> (uint n - uint b) * 1000 div uint b"
      using zdiv_mono1 [OF d b] b by simp
    moreover have "(uint n - uint b) * 1000 div uint b \<le> (uint n - uint b) * 1000"
      using b pos by (metis div_by_1 zdiv_mono2 zero_less_one int_one_le_iff_zero_less)
    ultimately show ?thesis using bound q by (simp add: I128_MAX_def)
  qed
qed

theorem exceeds_display_witness:
  "exceeds 1000 1151 15 = Some True \<and> 10 * uint (15 :: u64) \<le> delta_permille 1000 1151"
proof -
  have e: "exceeds 1000 1151 15 = Some True" by (simp add: exceeds_def)
  from e exceeds_display [OF e] show ?thesis by blast
qed


lemma render_nonempty: "render_baseline t m \<noteq> []"
  by (simp add: render_baseline_def header_lines_def unlines_def)

text \<open>C21. Updating the baseline makes the gate pass: when a run in update mode writes a file,
  the same run against that file in check mode, with the threshold it recorded, passes, for
  any ordered measurements under valid names and a threshold that does not overflow.\<close>

theorem update_then_pass:
  assumes "resource_gate g = Baseline_written src" "g_inject g = None"
    "bt_ok (g_measured g)" "\<forall>n \<in> set (bt_keys (g_measured g)). name_ok n"
    "\<forall>b t. gate_baseline g = Some b \<longrightarrow> gate_threshold g b = Some t \<longrightarrow> unat t + 100 \<le> 2 ^ 64"
  shows "resource_gate (g\<lparr>g_update := False, g_baseline_src := src, g_threshold := None\<rparr>) = Gate_passed"
proof -
  from assms(1,2) obtain b t where g: "g_enabled g" "gate_baseline g = Some b"
    "gate_threshold g b = Some t" "src = render_baseline t (g_measured g)"
    by (auto simp: resource_gate_def gate_measured_def split: if_splits option.splits)
  then have t: "unat t + 100 \<le> 2 ^ 64" using assms(5) by blast
  have r: "parse_baseline src = Some (Inr \<lparr>threshold_pct = t, entries = g_measured g\<rparr>)"
    unfolding g(4) by (rule parse_render [OF assms(3,4)])
  show ?thesis using g(1) r render_nonempty [of t "g_measured g"] g(4) assms(2)
      compare_refl [OF t assms(3), of t]
    by (simp add: resource_gate_def gate_measured_def gate_baseline_def gate_threshold_def)
qed

definition example_gate :: Gate where
  "example_gate = \<lparr>g_enabled = True, g_measured = [(lit ''pause'', \<lparr>cpu_insns = 5, mem_bytes = 6\<rparr>)],
     g_inject = None, g_baseline_src = [], g_threshold = None, g_update = True\<rparr>"

theorem update_then_pass_witness:
  "resource_gate (example_gate\<lparr>g_update := False,
     g_baseline_src := render_baseline 15 (g_measured example_gate), g_threshold := None\<rparr>) =
   Gate_passed"
  by (rule update_then_pass)
    (simp_all add: resource_gate_def gate_measured_def gate_baseline_def gate_threshold_def
      example_gate_def DEFAULT_THRESHOLD_PCT_def bt_ok_def name_ok_def trim_def is_whitespace_def)

text \<open>The gate's self-test works: injecting more percent than the threshold into a measured
  scenario of at least a hundred instructions, where the measurements match the baseline,
  makes the comparison report that scenario's instructions as regressed.\<close>

theorem injection_detected:
  fixes pct t :: u64
  assumes "bt_ok m" "bt_get m name = Some c" "58 \<notin> set name" "100 \<le> unat (cpu_insns c)"
    "unat t < unat pct" "unat t + 100 \<le> 2 ^ 64" "unat (cpu_insns c) * unat pct < 2 ^ 64"
    "unat (cpu_insns c) + unat (cpu_insns c) * unat pct div 100 < 2 ^ 64"
  shows "\<exists>m' fs n. inject m (name @ 58 # digits (unat pct)) = Some m' \<and>
    compare_costs \<lparr>threshold_pct = t', entries = m\<rparr> m' t = Some fs \<and>
    Regressed name (lit ''cpu_insns'') (cpu_insns c) n \<in> set fs"
proof -
  let ?n = "cpu_insns c + cpu_insns c * pct div 100"
  let ?m = "bt_insert name (c\<lparr>cpu_insns := ?n\<rparr>) m"
  note i = inject_measured [OF assms(3,2,7,8)]
  have "\<not> within t (cpu_insns c) ?n"
  proof -
    let ?c = "unat (cpu_insns c)"
    have "?c * (unat t + 1) \<le> ?c * unat pct" using assms(5) by (intro mult_le_mono2) simp
    then have "?c * unat t + ?c \<le> ?c * unat pct" by simp
    moreover have "?c * unat pct < 100 * (?c * unat pct div 100) + 100"
      using mod_less_divisor [of 100 "?c * unat pct"] by (metis div_mult_mod_eq mult.commute
          nat_add_left_cancel_less zero_less_numeral)
    ultimately have "?c * unat t < 100 * (?c * unat pct div 100)" using assms(4) by linarith
    then show ?thesis using i by (simp add: within_def algebra_simps)
  qed
  moreover have "(name, c\<lparr>cpu_insns := ?n\<rparr>) \<in> set ?m"
    using bt_get_mem [OF bt_ok_insert [OF assms(1)]] by (metis bt_get_insert)
  ultimately have "Regressed name (lit ''cpu_insns'') (cpu_insns c) ?n
      \<in> set (concat (map (\<lambda>(name, now). entry_findings m t name now) ?m))"
    using assms(2) by (force simp: entry_findings_def)
  with i compare_total [OF assms(6), of "\<lparr>threshold_pct = t', entries = m\<rparr>" ?m] show ?thesis
    by auto
qed

theorem injection_detected_witness:
  "\<exists>m' fs n. inject [(lit ''pause'', \<lparr>cpu_insns = 1000, mem_bytes = 6\<rparr>)]
      (lit ''pause'' @ 58 # digits (unat (30 :: u64))) = Some m' \<and>
    compare_costs \<lparr>threshold_pct = 15, entries = [(lit ''pause'', \<lparr>cpu_insns = 1000, mem_bytes = 6\<rparr>)]\<rparr> m' 15 =
      Some fs \<and>
    Regressed (lit ''pause'') (lit ''cpu_insns'') (cpu_insns \<lparr>cpu_insns = 1000, mem_bytes = 6\<rparr>) n \<in> set fs"
  by (rule injection_detected) (simp_all add: bt_ok_def bt_get_def)

text \<open>Measuring: the overhead is recorded as measured, every scenario under its name net of
  it, where a scenario cheaper than the overhead counts as zero and nothing wraps; the result
  is an ordered map.\<close>

theorem measure_all_net:
  assumes "distinct (map fst runs)" "OVERHEAD \<notin> fst ` set runs"
  shows "bt_ok (measure_all o' runs) \<and> bt_get (measure_all o' runs) OVERHEAD = Some o' \<and>
    (\<forall>name total'. (name, total') \<in> set runs \<longrightarrow> (\<exists>net. bt_get (measure_all o' runs) name = Some net \<and>
       unat (cpu_insns net) = unat (cpu_insns total') - unat (cpu_insns o') \<and>
       unat (mem_bytes net) = unat (mem_bytes total') - unat (mem_bytes o')))"
proof -
  have "map_of runs OVERHEAD = None" using assms(2) by (simp add: map_of_eq_None_iff)
  then have "bt_get (measure_all o' runs) OVERHEAD = Some o'"
    by (simp add: measure_all_def record_net_get [OF assms(1)]) (simp add: bt_get_def)
  moreover have "bt_ok (measure_all o' runs)"
    unfolding measure_all_def by (rule record_net_ok) (simp add: bt_ok_def)
  ultimately show ?thesis using assms(1)
    by (auto simp: measure_all_def record_net_get unat_sat_sub64)
qed

theorem measure_all_net_witness:
  "bt_get (measure_all \<lparr>cpu_insns = 10, mem_bytes = 10\<rparr> [(lit ''pause'', \<lparr>cpu_insns = 25, mem_bytes = 4\<rparr>)])
     OVERHEAD = Some \<lparr>cpu_insns = 10, mem_bytes = 10\<rparr>"
  using measure_all_net [of "[(lit ''pause'', \<lparr>cpu_insns = 25, mem_bytes = 4\<rparr>)]"]
  by (simp add: OVERHEAD_def)

end
