(* ===== verification/Scenarios.thy ===== *)
theory Scenarios
  imports Resource_Gate Contract_Types
begin

text \<open>
  The scenarios the resource gate of \<open>src/bench_resources.rs\<close> meters, as data: the calls
  that set one up and the one call it meters.  The properties relate them to the committed
  \<open>resource_baseline.toml\<close>.
\<close>

definition G_VALID :: ustr where
  "G_VALID = lit ''GA7QYNF7SOWQ3GLR2BGMZEHXAVIRZA4KVWLTJJFC7MGXUA74P7UJVSGZ''"

definition G_BAD_CRC :: ustr where
  "G_BAD_CRC = lit ''GA7QYNF7SOWQ3GLR2BGMZEHXAVIRZA4KVWLTJJFC7MGXUA74P7UJVSGY''"

record Payload =
  transaction_id :: ustr
  stellar_account :: ustr
  amount :: int
  asset_code :: ustr
  asset_issuer :: ustr
  idempotency_key :: ustr
  anchor_transaction_id :: ustr
  callback_type :: CallbackType
  callback_status :: ustr

definition payload :: "ustr \<Rightarrow> ustr \<Rightarrow> Payload" where
  "payload tx idem =
     \<lparr>transaction_id = tx, stellar_account = G_VALID, amount = 10000000,
      asset_code = lit ''USDC'', asset_issuer = G_VALID, idempotency_key = idem,
      anchor_transaction_id = lit ''anchor-tx-abc123'', callback_type = Deposit,
      callback_status = lit ''pending_external''\<rparr>"

text \<open>The id a call takes is the one \<open>registered\<close> returned; an address is the harness's
  relay or a freshly generated one.\<close>

datatype id_ref = Registered_id
datatype address_ref = Relay | Generated

datatype client_call =
    Register_callback Payload
  | Rejected_callback Payload
  | Start_processing id_ref address_ref
  | Complete_transaction id_ref ustr address_ref
  | Fail_transaction id_ref ustr address_ref
  | Get_transaction id_ref
  | Propose_admin address_ref
  | Accept_admin address_ref
  | Set_relay_signer address_ref
  | Pause
  | Unpause
  | Set_param ustr int
  | Bond_collateral address_ref int

record Scenario =
  sc_name :: ustr
  sc_setup :: "client_call list"
  sc_metered :: client_call

abbreviation (input) tx1 :: Payload where
  "tx1 \<equiv> payload (lit ''tx-1'') (lit ''idem-1'')"

definition registered :: client_call where
  "registered = Register_callback tx1"

definition scenarios :: "Scenario list" where
  "scenarios =
    [\<lparr>sc_name = lit ''register_callback'', sc_setup = [],
      sc_metered = Register_callback tx1\<rparr>,
     \<lparr>sc_name = lit ''register_callback_idempotent_replay'',
      sc_setup = [Register_callback tx1], sc_metered = Register_callback tx1\<rparr>,
     \<lparr>sc_name = lit ''register_callback_reject_amount'', sc_setup = [],
      sc_metered = Rejected_callback (tx1\<lparr>amount := 0\<rparr>)\<rparr>,
     \<lparr>sc_name = lit ''register_callback_reject_idempotency_key'', sc_setup = [],
      sc_metered = Rejected_callback (payload (lit ''tx-1'') [])\<rparr>,
     \<lparr>sc_name = lit ''register_callback_reject_callback_status_len'', sc_setup = [],
      sc_metered = Rejected_callback (tx1\<lparr>callback_status := lit (replicate 33 CHR ''x'')\<rparr>)\<rparr>,
     \<lparr>sc_name = lit ''register_callback_reject_asset_code'', sc_setup = [],
      sc_metered = Rejected_callback (tx1\<lparr>asset_code := lit ''usdc''\<rparr>)\<rparr>,
     \<lparr>sc_name = lit ''register_callback_reject_account_checksum'', sc_setup = [],
      sc_metered = Rejected_callback (tx1\<lparr>stellar_account := G_BAD_CRC\<rparr>)\<rparr>,
     \<lparr>sc_name = lit ''register_callback_reject_issuer_checksum'', sc_setup = [],
      sc_metered = Rejected_callback (tx1\<lparr>asset_issuer := G_BAD_CRC\<rparr>)\<rparr>,
     \<lparr>sc_name = lit ''start_processing'', sc_setup = [registered],
      sc_metered = Start_processing Registered_id Relay\<rparr>,
     \<lparr>sc_name = lit ''complete_transaction'',
      sc_setup = [registered, Start_processing Registered_id Relay],
      sc_metered = Complete_transaction Registered_id
        (lit ''d3b07384d113edec49eaa6238ad5ff00a975b0a5b2c6b2b13d7b6e6e10f7b3c1'') Relay\<rparr>,
     \<lparr>sc_name = lit ''fail_transaction'', sc_setup = [registered],
      sc_metered = Fail_transaction Registered_id (lit ''horizon_timeout'') Relay\<rparr>,
     \<lparr>sc_name = lit ''get_transaction'', sc_setup = [registered],
      sc_metered = Get_transaction Registered_id\<rparr>,
     \<lparr>sc_name = lit ''propose_admin'', sc_setup = [], sc_metered = Propose_admin Generated\<rparr>,
     \<lparr>sc_name = lit ''accept_admin'', sc_setup = [Propose_admin Generated],
      sc_metered = Accept_admin Generated\<rparr>,
     \<lparr>sc_name = lit ''set_relay_signer'', sc_setup = [], sc_metered = Set_relay_signer Generated\<rparr>,
     \<lparr>sc_name = lit ''pause'', sc_setup = [], sc_metered = Pause\<rparr>,
     \<lparr>sc_name = lit ''unpause'', sc_setup = [Pause], sc_metered = Unpause\<rparr>,
     \<lparr>sc_name = lit ''set_param'', sc_setup = [], sc_metered = Set_param (lit ''slash_bps'') 5000\<rparr>,
     \<lparr>sc_name = lit ''bond_collateral'', sc_setup = [], sc_metered = Bond_collateral Relay 1000\<rparr>]"

text \<open>The names the baseline must list, in the order the gate measures them.\<close>

definition metered_names :: "ustr list" where
  "metered_names = OVERHEAD # map sc_name scenarios"

lemma metered_names_distinct: "distinct metered_names"
  by (simp add: metered_names_def scenarios_def OVERHEAD_def)

lemma committed_ok: "bt_ok committed_entries"
  by (simp add: bt_ok_def committed_entries_def)

lemma committed_names: "\<forall>n \<in> set (bt_keys committed_entries). name_ok n"
  by (simp add: committed_entries_def name_ok_def trim_def is_whitespace_def)

lemma committed_covers:
  "length (bt_keys committed_entries) = length metered_names"
  "set (bt_keys committed_entries) = set metered_names"
proof -
  have "list_all (\<lambda>n. n \<in> set metered_names) (bt_keys committed_entries)" by code_simp
  then have sub: "set (bt_keys committed_entries) \<subseteq> set metered_names" by (auto simp: list_all_iff)
  show l: "length (bt_keys committed_entries) = length metered_names"
    by (simp add: committed_entries_def metered_names_def scenarios_def)
  have "card (set (bt_keys committed_entries)) = card (set metered_names)"
    using l bt.keys_distinct [OF committed_ok] metered_names_distinct by (simp add: distinct_card)
  with sub show "set (bt_keys committed_entries) = set metered_names"
    by (intro card_subset_eq) simp_all
qed

subsection \<open>Properties\<close>

text \<open>The committed baseline is complete and has no stale entry: its entries are in map
  order, its names are exactly the overhead and the scenarios, and the file the renderer
  writes for them at the committed threshold parses back to them.\<close>

theorem committed_baseline_covers:
  "bt_ok committed_entries \<and> set (bt_keys committed_entries) = set metered_names \<and>
   length (bt_keys committed_entries) = length metered_names \<and>
   parse_baseline (render_baseline 15 committed_entries) =
     Some (Inr \<lparr>threshold_pct = 15, entries = committed_entries\<rparr>)"
  using committed_covers committed_ok parse_render [OF committed_ok committed_names] by blast

text \<open>Gating the scenarios against the committed baseline finds no missing and no stale
  entry whatever the calls cost: measuring every scenario gives an ordered map over exactly
  the committed names, so the gate reports regressions only.\<close>

theorem scenarios_gate_names:
  assumes "map fst runs = map sc_name scenarios" "unat t + 100 \<le> 2 ^ 64"
    "compare_costs \<lparr>threshold_pct = 15, entries = committed_entries\<rparr> (measure_all o' runs) t = Some fs"
  shows "\<forall>n. MissingBaseline n \<notin> set fs \<and> StaleBaseline n \<notin> set fs"
proof -
  have "fst ` set runs = sc_name ` set scenarios" using assms(1) by (metis set_map)
  then have "set (bt_keys (measure_all o' runs)) = set (bt_keys committed_entries)"
    by (simp add: measure_all_keys committed_covers(2) metered_names_def)
  with compare_names [OF assms(2,3)] show ?thesis by simp
qed

theorem scenarios_gate_names_witness:
  "\<exists>fs. compare_costs \<lparr>threshold_pct = 15, entries = committed_entries\<rparr>
      (measure_all \<lparr>cpu_insns = 3, mem_bytes = 4\<rparr>
        (map (\<lambda>s. (sc_name s, \<lparr>cpu_insns = 9, mem_bytes = 9\<rparr>)) scenarios)) 15 = Some fs \<and>
     MissingBaseline (lit ''pause'') \<notin> set fs"
proof -
  have t: "unat (15 :: u64) + 100 \<le> 2 ^ 64" by simp
  obtain fs where e: "compare_costs \<lparr>threshold_pct = 15, entries = committed_entries\<rparr>
      (measure_all \<lparr>cpu_insns = 3, mem_bytes = 4\<rparr>
        (map (\<lambda>s. (sc_name s, \<lparr>cpu_insns = 9, mem_bytes = 9\<rparr>)) scenarios)) 15 = Some fs"
    using compare_total [OF t] by blast
  with scenarios_gate_names [OF _ t e] show ?thesis by (simp add: comp_def)
qed

end
