(* ===== verification/Gate_Tests.thy ===== *)
theory Gate_Tests
  imports Scenarios
begin

text \<open>
  The unit tests of the resource gate at the end of \<open>src/bench_resources.rs\<close>, each as the
  conjunction of its assertions over the modelled functions; a failed \<open>unwrap\<close> is a failed
  assertion.  All of them hold.
\<close>

definition cost :: "u64 \<Rightarrow> u64 \<Rightarrow> Cost" where
  "cost c m = \<lparr>cpu_insns = c, mem_bytes = m\<rparr>"

definition one :: "ustr \<Rightarrow> Cost \<Rightarrow> (ustr, Cost) btree" where
  "one name c = [(name, c)]"

definition text_contains :: "ustr \<Rightarrow> ustr \<Rightarrow> bool" where
  "text_contains needle t \<longleftrightarrow>
     list_ex (\<lambda>i. take (length needle) (drop i t) = needle) [0..<Suc (length t)]"

definition gate_passes_within_and_exactly_at_threshold :: bool where
  "gate_passes_within_and_exactly_at_threshold \<longleftrightarrow>
     (let b = \<lparr>threshold_pct = 15, entries = one (lit ''x'') (cost 1000 1000)\<rparr> in
      compare_costs b (one (lit ''x'') (cost 1100 900)) 15 = Some [] \<and>
      compare_costs b (one (lit ''x'') (cost 1150 1150)) 15 = Some [])"

definition gate_fails_one_above_threshold_and_names_the_metric :: bool where
  "gate_fails_one_above_threshold_and_names_the_metric \<longleftrightarrow>
     (let b = \<lparr>threshold_pct = 15, entries = one (lit ''register_callback'') (cost 1000 1000)\<rparr>;
          f = compare_costs b (one (lit ''register_callback'') (cost 1151 1000)) 15
      in f = Some [Regressed (lit ''register_callback'') (lit ''cpu_insns'') 1000 1151] \<and>
         (case f of Some (x # _) \<Rightarrow>
            (let msg = describe 15 x in
             text_contains (lit ''register_callback'') msg \<and> text_contains (lit ''+15.1%'') msg)
          | _ \<Rightarrow> False))"

definition gate_flags_missing_and_stale_entries :: bool where
  "gate_flags_missing_and_stale_entries \<longleftrightarrow>
     (let b = \<lparr>threshold_pct = 15, entries = one (lit ''old'') (cost 1 1)\<rparr> in
      case compare_costs b (one (lit ''new'') (cost 1 1)) 15 of
        Some f \<Rightarrow> MissingBaseline (lit ''new'') \<in> set f \<and> StaleBaseline (lit ''old'') \<in> set f
      | None \<Rightarrow> False)"

definition baseline_round_trips_through_render_and_parse :: bool where
  "baseline_round_trips_through_render_and_parse \<longleftrightarrow>
     (let m = [(lit ''a'', cost 1234567 89), (lit ''b'', cost 0 0)] in
      case parse_baseline (render_baseline 12 m) of
        Some (Inr parsed) \<Rightarrow> threshold_pct parsed = 12 \<and> entries parsed = m
      | _ \<Rightarrow> False)"

definition is_parse_error :: "ustr \<Rightarrow> bool" where
  "is_parse_error src = (case parse_baseline src of Some (Inl _) \<Rightarrow> True | _ \<Rightarrow> False)"

definition baseline_parser_rejects_incomplete_entries :: bool where
  "baseline_parser_rejects_incomplete_entries \<longleftrightarrow>
     is_parse_error (lit ''[x]'' @ [10] @ lit ''cpu_insns = 1'' @ [10]) \<and>
     is_parse_error (lit ''[x]'' @ [10] @ lit ''cpu_insns = one'' @ [10] @ lit ''mem_bytes = 1'' @ [10])"

text \<open>The committed file is what the renderer writes for its entries.\<close>

definition committed_file :: ustr where
  "committed_file = render_baseline 15 committed_entries"

definition committed_baseline_parses_and_covers_every_scenario :: bool where
  "committed_baseline_parses_and_covers_every_scenario \<longleftrightarrow>
     (case parse_baseline committed_file of
        Some (Inr b) \<Rightarrow>
          (let names = map sc_name scenarios in
           list_all (\<lambda>name. bt_get (entries b) name \<noteq> None) (names @ [OVERHEAD]) \<and>
           length (entries b) = length names + 1)
      | _ \<Rightarrow> False)"

subsection \<open>The tests pass\<close>

lemmas gate_defs = Let_def one_def cost_def compare_costs_def check_entry_def check_metric_def
  exceeds_def bt_get_def

lemma within_test: gate_passes_within_and_exactly_at_threshold
  by (simp add: gate_passes_within_and_exactly_at_threshold_def gate_defs)

lemma describe_test:
  "describe 15 (Regressed n m 1000 1151) =
     lit ''REGRESSION  '' @ n @ (lit '': '' @ m @ lit '' 1151 vs baseline 1000 ('') @ lit ''+15.1%'' @
     lit ''; threshold +15%)''"
  by (simp add: fmt_pct_def delta_permille_def I128_MAX_def digits.simps signed_divide_int_def)

lemma text_contains_append: "text_contains n (a @ n @ b)"
  unfolding text_contains_def list_ex_iff by (rule bexI [of _ "length a"]) auto

lemma above_test: gate_fails_one_above_threshold_and_names_the_metric
proof -
  let ?n = "lit ''register_callback''"
  have "compare_costs \<lparr>threshold_pct = 15, entries = one ?n (cost 1000 1000)\<rparr> (one ?n (cost 1151 1000)) 15 =
      Some [Regressed ?n (lit ''cpu_insns'') 1000 1151]"
    by (simp add: gate_defs del: lit_simps)
  then show ?thesis
    using text_contains_append [of ?n "lit ''REGRESSION  ''"]
      text_contains_append [of "lit ''+15.1%''" "lit ''REGRESSION  '' @ ?n @ lit '': '' @
        lit ''cpu_insns'' @ lit '' 1151 vs baseline 1000 (''"]
    by (simp add: gate_fails_one_above_threshold_and_names_the_metric_def Let_def describe_test
        del: lit_simps describe.simps)
qed

lemma missing_test: gate_flags_missing_and_stale_entries
  by (simp add: gate_flags_missing_and_stale_entries_def gate_defs)

lemma round_trip_test: baseline_round_trips_through_render_and_parse
proof -
  let ?m = "[(lit ''a'', cost 1234567 89), (lit ''b'', cost 0 0)]"
  have "bt_ok ?m" by (simp add: bt_ok_def)
  moreover have "\<forall>n \<in> set (bt_keys ?m). name_ok n"
    by (simp add: name_ok_def trim_def is_whitespace_def)
  ultimately show ?thesis
    unfolding baseline_round_trips_through_render_and_parse_def Let_def by (simp add: parse_render)
qed

lemma incomplete_test: baseline_parser_rejects_incomplete_entries
proof -
  have 1: "text_lines (lit ''[x]'' @ [10] @ lit ''cpu_insns = 1'' @ [10]) = [lit ''[x]'', lit ''cpu_insns = 1'']"
    "text_lines (lit ''[x]'' @ [10] @ lit ''cpu_insns = one'' @ [10] @ lit ''mem_bytes = 1'' @ [10]) =
      [lit ''[x]'', lit ''cpu_insns = one'', lit ''mem_bytes = 1'']"
    by (simp_all add: text_lines_def strip_cr_def strip_suffix_def)
  show ?thesis
    unfolding baseline_parser_rejects_incomplete_entries_def is_parse_error_def parse_baseline_def 1
    by (simp add: parse_line_def Let_def trim_def is_whitespace_def before_def section_name_def
        strip_suffix_def open_section_def bt_get_def assign_def set_entry_def parse_u64_def
        delete_all_def is_digit_def digits_value_def)
qed

lemma committed_test: committed_baseline_parses_and_covers_every_scenario
proof -
  have "name \<in> set (bt_keys committed_entries)" if "name \<in> set (map sc_name scenarios @ [OVERHEAD])" for name
    using that unfolding committed_covers(2) metered_names_def by auto
  then have "list_all (\<lambda>name. bt_get committed_entries name \<noteq> None) (map sc_name scenarios @ [OVERHEAD])"
    by (simp only: list_all_iff bt_get_None) blast
  moreover have "length committed_entries = length (map sc_name scenarios) + 1"
    using committed_covers(1) by (simp add: bt_keys_def metered_names_def)
  ultimately show ?thesis
    unfolding committed_baseline_parses_and_covers_every_scenario_def committed_file_def
      parse_render [OF committed_ok committed_names]
    by (simp add: Let_def del: lit_simps)
qed

subsection \<open>Properties\<close>

text \<open>Every unit test of the gate logic passes on the model.\<close>

theorem gate_unit_tests_pass:
  "list_all id [gate_passes_within_and_exactly_at_threshold,
     gate_fails_one_above_threshold_and_names_the_metric, gate_flags_missing_and_stale_entries,
     baseline_round_trips_through_render_and_parse, baseline_parser_rejects_incomplete_entries,
     committed_baseline_parses_and_covers_every_scenario]"
  by (simp add: within_test above_test missing_test round_trip_test incomplete_test committed_test)

end
