(* ===== verification/Bench_Events.thy ===== *)
theory Bench_Events
  imports Prelude
begin

text \<open>
  The gates of \<open>src/bench_events.rs\<close>: the net cost of one event, the per-event ceilings, the
  cumulative ceilings over the ten events and the ceilings of \<open>register_callback\<close>.  The
  budget readings come from the SDK and are arguments; \<open>None\<close> is the panic of an overflowing
  addition.
\<close>

definition SANITY_CPU_CEILING :: u64 where "SANITY_CPU_CEILING = 500000"
definition SANITY_MEM_CEILING :: u64 where "SANITY_MEM_CEILING = 100000"
definition CUMULATIVE_CPU_CEILING :: u64 where "CUMULATIVE_CPU_CEILING = 5000000"
definition CUMULATIVE_MEM_CEILING :: u64 where "CUMULATIVE_MEM_CEILING = 1000000"
definition REGISTER_CPU_CEILING :: u64 where "REGISTER_CPU_CEILING = 450000"
definition REGISTER_MEM_CEILING :: u64 where "REGISTER_MEM_CEILING = 65000"

record BenchResult =
  cpu :: u64
  mem :: u64

text \<open>The readings of the budget after the empty and after the measured run.\<close>

definition saturating_sub :: "u64 \<Rightarrow> u64 \<Rightarrow> u64" where
  "saturating_sub a b = (if b \<le> a then a - b else 0)"

definition measure_event :: "BenchResult \<Rightarrow> BenchResult \<Rightarrow> BenchResult" where
  "measure_event base full =
     \<lparr>cpu = saturating_sub (cpu full) (cpu base), mem = saturating_sub (mem full) (mem base)\<rparr>"

text \<open>The assertions of a per-event benchmark.\<close>

definition event_gate :: "BenchResult \<Rightarrow> bool" where
  "event_gate r \<longleftrightarrow> 0 < cpu r \<and> cpu r \<le> SANITY_CPU_CEILING \<and> mem r \<le> SANITY_MEM_CEILING"

subsection \<open>The cumulative gate\<close>

record EventCosts =
  r_init :: BenchResult
  r_reg :: BenchResult
  r_status :: BenchResult
  r_done :: BenchResult
  r_fail :: BenchResult
  r_propose :: BenchResult
  r_admin_t :: BenchResult
  r_relay :: BenchResult
  r_pause :: BenchResult
  r_upgrade :: BenchResult

definition all_results :: "EventCosts \<Rightarrow> BenchResult list" where
  "all_results c = [r_init c, r_reg c, r_status c, r_done c, r_fail c, r_propose c, r_admin_t c,
     r_relay c, r_pause c, r_upgrade c]"

definition add64 :: "u64 \<Rightarrow> u64 \<Rightarrow> u64 host" where
  "add64 a b = (if unat a + unat b < 2 ^ 64 then Some (a + b) else None)"

definition mul64 :: "u64 \<Rightarrow> u64 \<Rightarrow> u64 host" where
  "mul64 a b = (if unat a * unat b < 2 ^ 64 then Some (a * b) else None)"

text \<open>\<open>a + b + c + ...\<close> from the left.\<close>

fun sum64 :: "u64 \<Rightarrow> u64 list \<Rightarrow> u64 host" where
  "sum64 acc [] = Some acc"
| "sum64 acc (x # xs) = do { acc' \<leftarrow> add64 acc x; sum64 acc' xs }"

definition lifecycle_cost :: "(BenchResult \<Rightarrow> u64) \<Rightarrow> EventCosts \<Rightarrow> u64 host" where
  "lifecycle_cost f c = do {
     twice \<leftarrow> mul64 2 (f (r_status c));
     sum64 (f (r_reg c)) [twice, f (r_done c)] }"

definition total_cost :: "(BenchResult \<Rightarrow> u64) \<Rightarrow> EventCosts \<Rightarrow> u64 host" where
  "total_cost f c = sum64 (f (hd (all_results c))) (map f (tl (all_results c)))"

definition cumulative_gate :: "EventCosts \<Rightarrow> bool host" where
  "cumulative_gate c = do {
     lifecycle_cpu \<leftarrow> lifecycle_cost cpu c;
     lifecycle_mem \<leftarrow> lifecycle_cost mem c;
     total_cpu \<leftarrow> total_cost cpu c;
     total_mem \<leftarrow> total_cost mem c;
     Some (total_cpu \<le> CUMULATIVE_CPU_CEILING \<and> total_mem \<le> CUMULATIVE_MEM_CEILING \<and>
       0 < lifecycle_cpu) }"

definition register_gate :: "BenchResult \<Rightarrow> BenchResult \<Rightarrow> BenchResult \<Rightarrow> BenchResult \<Rightarrow> bool" where
  "register_gate happy replay soft_rej paused \<longleftrightarrow> 0 < cpu happy \<and>
     (cpu replay < cpu happy \<and> cpu soft_rej < cpu happy \<and> cpu paused < cpu happy) \<and>
     cpu happy \<le> REGISTER_CPU_CEILING \<and> mem happy \<le> REGISTER_MEM_CEILING"

subsection \<open>Sums that fit\<close>

lemma add64_fits:
  "unat a + unat b < 2 ^ 64 \<Longrightarrow> \<exists>s. add64 a b = Some s \<and> unat s = unat a + unat b"
  by (simp add: add64_def unat_word_ariths)

lemma mul64_fits:
  "unat a * unat b < 2 ^ 64 \<Longrightarrow> \<exists>p. mul64 a b = Some p \<and> unat p = unat a * unat b"
  by (simp add: mul64_def unat_word_ariths)

lemma sum64_fits:
  "unat acc + sum_list (map unat xs) < 2 ^ 64 \<Longrightarrow>
     \<exists>s. sum64 acc xs = Some s \<and> unat s = unat acc + sum_list (map unat xs)"
proof (induction xs arbitrary: acc)
  case Nil
  then show ?case by simp
next
  case (Cons x xs)
  then have "unat acc + unat x < 2 ^ 64" by simp
  from add64_fits [OF this] obtain s where s: "add64 acc x = Some s" "unat s = unat acc + unat x"
    by blast
  with Cons.prems have "unat s + sum_list (map unat xs) < 2 ^ 64" by simp
  from Cons.IH [OF this] s show ?case by auto
qed

lemma total_cost_fits:
  assumes "\<forall>r \<in> set (all_results c). unat (f r) \<le> m" "10 * m < 2 ^ 64"
  shows "\<exists>s. total_cost f c = Some s \<and> unat s \<le> 10 * m"
proof -
  let ?sum = "unat (f (hd (all_results c))) + sum_list (map unat (map f (tl (all_results c))))"
  have "?sum \<le> 10 * m" using assms(1) by (simp add: all_results_def)
  with assms(2) have "?sum < 2 ^ 64" by linarith
  from sum64_fits [OF this] \<open>?sum \<le> 10 * m\<close> show ?thesis by (auto simp: total_cost_def)
qed

lemma lifecycle_cost_fits:
  assumes "\<forall>r \<in> set (all_results c). unat (f r) \<le> m" "10 * m < 2 ^ 64"
  shows "\<exists>s. lifecycle_cost f c = Some s \<and>
    unat s = unat (f (r_reg c)) + 2 * unat (f (r_status c)) + unat (f (r_done c))"
proof -
  have b: "unat (f (r_reg c)) \<le> m" "unat (f (r_status c)) \<le> m" "unat (f (r_done c)) \<le> m"
    using assms(1) by (simp_all add: all_results_def)
  with assms(2) have "unat (2 :: u64) * unat (f (r_status c)) < 2 ^ 64" by simp
  from mul64_fits [OF this] obtain p where p: "mul64 2 (f (r_status c)) = Some p"
    "unat p = 2 * unat (f (r_status c))" by auto
  with b assms(2) have "unat (f (r_reg c)) + sum_list (map unat [p, f (r_done c)]) < 2 ^ 64" by simp
  from sum64_fits [OF this] p show ?thesis by (auto simp: lifecycle_cost_def)
qed

subsection \<open>Properties\<close>

text \<open>The net cost of an event is the difference of the two readings, zero when the
  measured run cost less, and never wraps.\<close>

theorem measure_event_net:
  "unat (cpu (measure_event base full)) = unat (cpu full) - unat (cpu base) \<and>
   unat (mem (measure_event base full)) = unat (mem full) - unat (mem base)"
  by (simp add: measure_event_def saturating_sub_def unat_sub word_le_nat_alt)

text \<open>The ceilings are consistent: when all ten events pass their own gate, the sums do
  not overflow and the cumulative gate passes, so it can only fail together with a per-event
  gate; and the lifecycle cost is the registration, two status changes and the completion.\<close>

theorem cumulative_gate_follows:
  assumes "\<forall>r \<in> set (all_results c). event_gate r"
  shows "cumulative_gate c = Some True \<and>
    (\<exists>l. lifecycle_cost cpu c = Some l \<and>
       unat l = unat (cpu (r_reg c)) + 2 * unat (cpu (r_status c)) + unat (cpu (r_done c)))"
proof -
  have ceil: "\<forall>r \<in> set (all_results c). unat (cpu r) \<le> 500000"
    "\<forall>r \<in> set (all_results c). unat (mem r) \<le> 100000"
    using assms by (auto simp: event_gate_def SANITY_CPU_CEILING_def SANITY_MEM_CEILING_def
        word_le_nat_alt)
  obtain l where l: "lifecycle_cost cpu c = Some l"
    "unat l = unat (cpu (r_reg c)) + 2 * unat (cpu (r_status c)) + unat (cpu (r_done c))"
    using lifecycle_cost_fits [OF ceil(1)] by auto
  obtain lm where lm: "lifecycle_cost mem c = Some lm" using lifecycle_cost_fits [OF ceil(2)] by auto
  obtain t where t: "total_cost cpu c = Some t" "unat t \<le> 5000000"
    using total_cost_fits [OF ceil(1)] by auto
  obtain tm where tm: "total_cost mem c = Some tm" "unat tm \<le> 1000000"
    using total_cost_fits [OF ceil(2)] by auto
  have "0 < unat (cpu (r_reg c))"
    using assms by (simp add: all_results_def event_gate_def word_less_nat_alt)
  with l t lm tm show ?thesis
    by (simp add: cumulative_gate_def CUMULATIVE_CPU_CEILING_def CUMULATIVE_MEM_CEILING_def
        word_le_nat_alt word_less_nat_alt)
qed

theorem cumulative_gate_follows_witness:
  "let r = \<lparr>cpu = 40000, mem = 3000\<rparr> in cumulative_gate
     \<lparr>r_init = r, r_reg = r, r_status = r, r_done = r, r_fail = r, r_propose = r, r_admin_t = r,
      r_relay = r, r_pause = r, r_upgrade = r\<rparr> = Some True"
  unfolding Let_def
  by (rule cumulative_gate_follows [THEN conjunct1])
    (simp add: all_results_def event_gate_def SANITY_CPU_CEILING_def SANITY_MEM_CEILING_def)

end
