(* ===== verification/Bench_Runs.thy ===== *)
theory Bench_Runs
  imports Bench_Events Scenarios Contract_Types
begin

text \<open>
  The benchmarks of \<open>src/bench_events.rs\<close>: the emitter call each measures, the line it
  prints and its verdict; the cumulative benchmark over the ten calls; and the four paths of
  \<open>register_callback\<close>.  \<open>EventEmitter\<close> is not in the repository: a call is data, and the
  budget readings after an empty or a measured run are a parameter, the meter.
\<close>

definition G_ADDRESS_STR :: ustr where
  "G_ADDRESS_STR = lit ''GA7QYNF7SOWQ3GLR2BGMZEHXAVIRZA4KVWLTJJFC7MGXUA74P7UJVSGZ''"
definition TX_ID_STR :: ustr where
  "TX_ID_STR = lit ''550e8400-e29b-41d4-a716-446655440000''"

subsection \<open>The measured calls\<close>




definition pad_right :: "nat \<Rightarrow> ustr \<Rightarrow> ustr" where
  "pad_right n t = t @ replicate (n - length t) 32"

definition cost_text :: "u64 \<Rightarrow> u64 \<Rightarrow> ustr" where
  "cost_text c m = lit ''cpu='' @ pad_right 8 (digits (unat c)) @ lit ''  mem='' @
     pad_right 8 (digits (unat m))"

definition bench_line :: "ustr \<Rightarrow> BenchResult \<Rightarrow> ustr" where
  "bench_line label r = lit ''[bench] '' @ pad_right 10 label @ lit '' '' @ cost_text (cpu r) (mem r)"


subsection \<open>One benchmark per event\<close>


text \<open>The transaction the registration benchmarks build; the call they measure does not
  take it but four names that are declared nowhere, which are parameters.\<close>

record BenchTransaction =
  bt_id :: ustr
  bt_stellar_account :: ustr
  bt_amount :: int
  bt_asset_code :: ustr
  bt_asset_issuer :: ustr
  bt_status :: TransactionStatus
  bt_created_at_ledger :: u32
  bt_updated_at_ledger :: u32
  bt_anchor_transaction_id :: ustr
  bt_callback_type :: CallbackType
  bt_callback_status :: ustr
  bt_stellar_tx_hash :: ustr
  bt_failure_reason :: ustr
  bt_retry_count :: u32
  bt_settled_amount :: "int option"

definition bench_tx :: BenchTransaction where
  "bench_tx =
     \<lparr>bt_id = TX_ID_STR, bt_stellar_account = G_ADDRESS_STR, bt_amount = 10000000,
      bt_asset_code = lit ''USDC'', bt_asset_issuer = G_ADDRESS_STR, bt_status = Pending,
      bt_created_at_ledger = 1, bt_updated_at_ledger = 1,
      bt_anchor_transaction_id = lit ''anchor-tx-abc123'', bt_callback_type = Deposit,
      bt_callback_status = lit ''pending_external'', bt_stellar_tx_hash = [],
      bt_failure_reason = [], bt_retry_count = 0, bt_settled_amount = None\<rparr>"










subsection \<open>The cumulative benchmark\<close>






subsection \<open>The paths of \<open>register_callback\<close>\<close>

text \<open>A client call is metered after the calls that came before it on the same
  environment.\<close>

type_synonym call_meter = "client_call list \<Rightarrow> client_call \<Rightarrow> BenchResult"

record InitArgs =
  init_args_admin :: Address
  init_args_relay :: Address
  init_args_hash :: bytes32

definition register_env :: "Address \<Rightarrow> Address \<Rightarrow> InitArgs" where
  "register_env admin relay =
     \<lparr>init_args_admin = admin, init_args_relay = relay, init_args_hash = replicate 32 0x01\<rparr>"

definition register_payload :: "int \<Rightarrow> Payload" where
  "register_payload amount' =
     \<lparr>transaction_id = TX_ID_STR, stellar_account = G_ADDRESS_STR, amount = amount',
      asset_code = lit ''USDC'', asset_issuer = G_ADDRESS_STR,
      idempotency_key = lit ''6fa459ea-ee8a-3ca4-894e-db77e160355e'',
      anchor_transaction_id = lit ''anchor-tx-abc123'', callback_type = Deposit,
      callback_status = lit ''pending_external''\<rparr>"

definition register_line :: "ustr \<Rightarrow> BenchResult \<Rightarrow> ustr" where
  "register_line name r =
     lit ''[bench] register_callback '' @ pad_right 9 name @ lit '' '' @ cost_text (cpu r) (mem r)"

definition bench_register_callback_paths :: "call_meter \<Rightarrow> ustr list \<times> bool" where
  "bench_register_callback_paths measure_call =
     (let payload = register_payload 10000000;
          happy = measure_call [] (Register_callback payload);
          replay = measure_call [Register_callback payload] (Register_callback payload);
          over = register_payload 10000000000001;
          soft_rej = measure_call [] (Rejected_callback over);
          paused = measure_call [Pause] (Rejected_callback (register_payload 10000000))
      in (map (\<lambda>(name, r). register_line (lit name) r)
            [(''happy'', happy), (''replay'', replay), (''soft_rej'', soft_rej), (''paused'', paused)],
          register_gate happy replay soft_rej paused))"

subsection \<open>Reading a line back\<close>

text \<open>What a script that greps for the lines does with one.\<close>

definition read_bench_line :: "ustr \<Rightarrow> (ustr \<times> u64 \<times> u64) option" where
  "read_bench_line t = do {
     (a, rest) \<leftarrow> split_once 61 t;
     (b, c) \<leftarrow> split_once 61 rest;
     x \<leftarrow> parse_u64 (before 32 b);
     y \<leftarrow> parse_u64 (before 32 c);
     Some (before 32 (drop 8 a), x, y) }"

lemma before_space: "32 \<notin> set t \<Longrightarrow> before 32 (t @ 32 # u) = t"
  unfolding before_def by (induction t) auto

lemma before_pad:
  assumes "32 \<notin> set t"
  shows "before 32 (pad_right n t) = t" "before 32 (pad_right n t @ 32 # u) = t"
proof -
  have "before 32 (replicate k 32) = []" "before 32 (replicate k 32 @ 32 # u) = []" for k
    by (cases k; simp add: before_def)+
  moreover have "before 32 (t @ w) = t @ before 32 w" for w
    using assms unfolding before_def by (induction t) auto
  ultimately show "before 32 (pad_right n t) = t" "before 32 (pad_right n t @ 32 # u) = t"
    by (simp_all add: pad_right_def)
qed

lemma digits_no: "c < 48 \<or> 57 < c \<Longrightarrow> c \<notin> set (digits n)"
  using digits_range by fastforce

lemma pad_no: "c \<noteq> 32 \<Longrightarrow> c \<notin> set t \<Longrightarrow> c \<notin> set (pad_right n t)"
  by (auto simp: pad_right_def)

lemma read_cost_text:
  assumes "61 \<notin> set label" "32 \<notin> set label"
  shows "read_bench_line (bench_line label r) = Some (label, cpu r, mem r)"
proof -
  let ?c = "digits (unat (cpu r))" and ?m = "digits (unat (mem r))"
  let ?a = "lit ''[bench] '' @ pad_right 10 label @ lit '' cpu''"
  let ?b = "pad_right 8 ?c @ lit ''  mem''"
  have line: "bench_line label r = ?a @ 61 # ?b @ 61 # pad_right 8 ?m"
    by (simp add: bench_line_def cost_text_def)
  have "61 \<notin> set ?a" using assms(1) pad_no [of 61 label 10] by simp
  then have 1: "split_once 61 (bench_line label r) = Some (?a, ?b @ 61 # pad_right 8 ?m)"
    unfolding line by (rule split_once_at)
  have "61 \<notin> set ?b" using pad_no [of 61 ?c 8] digits_no [of 61 "unat (cpu r)"] by simp
  then have 2: "split_once 61 (?b @ 61 # pad_right 8 ?m) = Some (?b, pad_right 8 ?m)"
    by (rule split_once_at)
  have 3: "before 32 ?b = ?c" "before 32 (pad_right 8 ?m) = ?m"
    using before_pad(2) [of ?c 8 "lit '' mem''"] before_pad(1) [of ?m 8] by (simp_all add: digits_no)
  have 4: "before 32 (drop 8 ?a) = label"
    using before_pad(2) [OF assms(2), of 10 "lit ''cpu''"] by simp
  show ?thesis unfolding read_bench_line_def 1 using 2 3 4 by (simp add: parse_u64_digits)
qed

subsection \<open>Properties\<close>

text \<open>A printed benchmark line can be read back: the label and both costs, whatever their
  number of digits, provided the label has no space and no equals sign.\<close>

theorem bench_line_round_trip:
  assumes "61 \<notin> set label" "32 \<notin> set label"
  shows "read_bench_line (bench_line label r) = Some (label, cpu r, mem r)"
  using assms by (rule read_cost_text)

theorem bench_line_round_trip_witness:
  "read_bench_line (bench_line (lit ''init'') \<lparr>cpu = 12345, mem = 456\<rparr>) = Some (lit ''init'', 12345, 456)"
  using bench_line_round_trip [of "lit ''init''" "\<lparr>cpu = 12345, mem = 456\<rparr>"] by simp






end
