(* ===== verification/Harness.thy ===== *)
theory Harness
  imports Scenarios Bench_Events
begin

text \<open>
  The metering harness of \<open>src/bench_resources.rs\<close> and \<open>measure_call\<close> of \<open>src/bench_events.rs\<close>: a
  fresh environment with the release WASM, the metered closure between a reset of the budget
  and its readings, and the scenarios run through it.  The SDK's environment and the compiled
  contract are a record of operations; what the results rely on is that a reset clears the two
  counters and leaves the rest of the environment alone.
\<close>

subsection \<open>The SDK\<close>

record ('e, 'c) Sdk =
  sdk_default :: 'e
  sdk_reset_unlimited :: "'e \<Rightarrow> 'e"
  sdk_reset_tracker :: "'e \<Rightarrow> 'e"
  sdk_cpu :: "'e \<Rightarrow> u64"
  sdk_mem :: "'e \<Rightarrow> u64"
  sdk_mock_all_auths :: "'e \<Rightarrow> 'e"
  sdk_register :: "'e \<Rightarrow> u8 list \<Rightarrow> ('c \<times> 'e) host"
  sdk_generate :: "'e \<Rightarrow> Address \<times> 'e"
  sdk_initialize :: "'c \<Rightarrow> Address \<Rightarrow> Address \<Rightarrow> 'e \<Rightarrow> 'e host"

record ('e, 'c) Harness =
  h_env :: 'e
  h_client :: 'c
  h_relay :: Address

definition new_harness :: "('e, 'c) Sdk \<Rightarrow> u8 list \<Rightarrow> ('e, 'c) Harness host" where
  "new_harness k wasm = do {
     let env = sdk_mock_all_auths k (sdk_reset_unlimited k (sdk_default k));
     (client, env) \<leftarrow> sdk_register k env wasm;
     let (admin, env) = sdk_generate k env;
     let (relay, env) = sdk_generate k env;
     env \<leftarrow> sdk_initialize k client admin relay env;
     Some \<lparr>h_env = env, h_client = client, h_relay = relay\<rparr> }"

text \<open>The closure may panic; the harness is borrowed, the environment behind it changes.\<close>

definition harness_measure ::
    "('e, 'c) Sdk \<Rightarrow> ('e, 'c) Harness \<Rightarrow> ('e \<Rightarrow> 'e host) \<Rightarrow> (Cost \<times> ('e, 'c) Harness) host" where
  "harness_measure k h f = do {
     env \<leftarrow> f (sdk_reset_unlimited k (h_env h));
     Some (\<lparr>cpu_insns = sdk_cpu k env, mem_bytes = sdk_mem k env\<rparr>, h\<lparr>h_env := env\<rparr>) }"

definition measure_call ::
    "('e, 'c) Sdk \<Rightarrow> 'e \<Rightarrow> ('e \<Rightarrow> 'e host) \<Rightarrow> (BenchResult \<times> 'e) host" where
  "measure_call k env call = do {
     env' \<leftarrow> call (sdk_reset_tracker k env);
     Some (\<lparr>cpu = sdk_cpu k env', mem = sdk_mem k env'\<rparr>, env') }"

subsection \<open>The scenarios\<close>

text \<open>The entry points of the compiled contract as the scenarios call them: \<open>None\<close> is the panic
  of the generated client; \<open>try_register_callback\<close> tells whether it was refused.  The id a
  scenario uses is the one its registration returned, the generated address is made before
  the scenario's first call.\<close>

record ('e, 'c) Entry_Points =
  ep_health :: "'c \<Rightarrow> 'e \<Rightarrow> 'e host"
  ep_register_callback :: "'c \<Rightarrow> Payload \<Rightarrow> 'e \<Rightarrow> (ustr \<times> 'e) host"
  ep_try_register_callback :: "'c \<Rightarrow> Payload \<Rightarrow> 'e \<Rightarrow> (bool \<times> 'e) host"
  ep_start_processing :: "'c \<Rightarrow> ustr \<Rightarrow> Address \<Rightarrow> 'e \<Rightarrow> 'e host"
  ep_complete_transaction :: "'c \<Rightarrow> ustr \<Rightarrow> ustr \<Rightarrow> Address \<Rightarrow> 'e \<Rightarrow> 'e host"
  ep_fail_transaction :: "'c \<Rightarrow> ustr \<Rightarrow> ustr \<Rightarrow> Address \<Rightarrow> 'e \<Rightarrow> 'e host"
  ep_get_transaction :: "'c \<Rightarrow> ustr \<Rightarrow> 'e \<Rightarrow> 'e host"
  ep_propose_admin :: "'c \<Rightarrow> Address \<Rightarrow> 'e \<Rightarrow> 'e host"
  ep_accept_admin :: "'c \<Rightarrow> Address \<Rightarrow> 'e \<Rightarrow> 'e host"
  ep_set_relay_signer :: "'c \<Rightarrow> Address \<Rightarrow> 'e \<Rightarrow> 'e host"
  ep_pause :: "'c \<Rightarrow> 'e \<Rightarrow> 'e host"
  ep_unpause :: "'c \<Rightarrow> 'e \<Rightarrow> 'e host"
  ep_set_param :: "'c \<Rightarrow> ustr \<Rightarrow> int \<Rightarrow> 'e \<Rightarrow> 'e host"
  ep_bond_collateral :: "'c \<Rightarrow> Address \<Rightarrow> int \<Rightarrow> 'e \<Rightarrow> 'e host"

record Run_Refs =
  rr_id :: "ustr option"
  rr_relay :: Address
  rr_generated :: Address

definition address_of :: "Run_Refs \<Rightarrow> address_ref \<Rightarrow> Address" where
  "address_of r a = (case a of Relay \<Rightarrow> rr_relay r | Generated \<Rightarrow> rr_generated r)"

fun run_call ::
    "('e, 'c) Entry_Points \<Rightarrow> 'c \<Rightarrow> client_call \<Rightarrow> Run_Refs \<Rightarrow> 'e \<Rightarrow> (Run_Refs \<times> 'e) host" where
  "run_call ep c (Register_callback p) r env = do {
     (i, env) \<leftarrow> ep_register_callback ep c p env; Some (r\<lparr>rr_id := Some i\<rparr>, env) }"
| "run_call ep c (Rejected_callback p) r env = do {
     (is_err, env) \<leftarrow> ep_try_register_callback ep c p env; assert_that is_err; Some (r, env) }"
| "run_call ep c (Start_processing _ a) r env = do {
     i \<leftarrow> rr_id r; env \<leftarrow> ep_start_processing ep c i (address_of r a) env; Some (r, env) }"
| "run_call ep c (Complete_transaction _ h a) r env = do {
     i \<leftarrow> rr_id r; env \<leftarrow> ep_complete_transaction ep c i h (address_of r a) env; Some (r, env) }"
| "run_call ep c (Fail_transaction _ m a) r env = do {
     i \<leftarrow> rr_id r; env \<leftarrow> ep_fail_transaction ep c i m (address_of r a) env; Some (r, env) }"
| "run_call ep c (Get_transaction _) r env = do {
     i \<leftarrow> rr_id r; env \<leftarrow> ep_get_transaction ep c i env; Some (r, env) }"
| "run_call ep c (Propose_admin a) r env = do {
     env \<leftarrow> ep_propose_admin ep c (address_of r a) env; Some (r, env) }"
| "run_call ep c (Accept_admin a) r env = do {
     env \<leftarrow> ep_accept_admin ep c (address_of r a) env; Some (r, env) }"
| "run_call ep c (Set_relay_signer a) r env = do {
     env \<leftarrow> ep_set_relay_signer ep c (address_of r a) env; Some (r, env) }"
| "run_call ep c Pause r env = do { env \<leftarrow> ep_pause ep c env; Some (r, env) }"
| "run_call ep c Unpause r env = do { env \<leftarrow> ep_unpause ep c env; Some (r, env) }"
| "run_call ep c (Set_param n v) r env = do {
     env \<leftarrow> ep_set_param ep c n v env; Some (r, env) }"
| "run_call ep c (Bond_collateral a v) r env = do {
     env \<leftarrow> ep_bond_collateral ep c (address_of r a) v env; Some (r, env) }"

definition uses_generated :: "client_call \<Rightarrow> bool" where
  "uses_generated cc \<longleftrightarrow> cc \<in> {Propose_admin Generated, Accept_admin Generated, Set_relay_signer Generated}"

definition run_scenario ::
    "('e, 'c) Sdk \<Rightarrow> ('e, 'c) Entry_Points \<Rightarrow> Scenario \<Rightarrow> ('e, 'c) Harness \<Rightarrow> Cost host" where
  "run_scenario k ep sc h = do {
     let (gen, env) = (if uses_generated (sc_metered sc) then sdk_generate k (h_env h) else ([], h_env h));
     (r, env) \<leftarrow> fold_host (\<lambda>(r, env) cc. run_call ep (h_client h) cc r env)
       (\<lparr>rr_id = None, rr_relay = h_relay h, rr_generated = gen\<rparr>, env) (sc_setup sc);
     (cost, _) \<leftarrow> harness_measure k (h\<lparr>h_env := env\<rparr>)
       (\<lambda>env. map_option snd (run_call ep (h_client h) (sc_metered sc) r env));
     Some cost }"

text \<open>Every scenario in a fresh harness, net of the trivial call.\<close>

definition measure_wasm ::
    "('e, 'c) Sdk \<Rightarrow> ('e, 'c) Entry_Points \<Rightarrow> u8 list \<Rightarrow> (ustr, Cost) btree host" where
  "measure_wasm k ep wasm = do {
     h \<leftarrow> new_harness k wasm;
     (overhead, _) \<leftarrow> harness_measure k h (ep_health ep (h_client h));
     runs \<leftarrow> fold_host (\<lambda>runs sc. do {
         h \<leftarrow> new_harness k wasm;
         total' \<leftarrow> run_scenario k ep sc h;
         Some (runs @ [(sc_name sc, total')]) }) [] scenarios;
     Some (measure_all overhead runs) }"

subsection \<open>What a measurement is\<close>

definition sdk_laws :: "('e, 'c) Sdk \<Rightarrow> ('e \<Rightarrow> 'v) \<Rightarrow> bool" where
  "sdk_laws k view \<longleftrightarrow> (\<forall>e.
     sdk_cpu k (sdk_reset_unlimited k e) = 0 \<and> sdk_mem k (sdk_reset_unlimited k e) = 0 \<and>
     sdk_cpu k (sdk_reset_tracker k e) = 0 \<and> sdk_mem k (sdk_reset_tracker k e) = 0 \<and>
     view (sdk_reset_unlimited k e) = view e \<and> view (sdk_reset_tracker k e) = view e)"

text \<open>A metered call: what it does and what it charges depend on the environment apart from
  the counters, and it adds its charge to them.\<close>

definition metered ::
    "('e, 'c) Sdk \<Rightarrow> ('e \<Rightarrow> 'v) \<Rightarrow> ('e \<Rightarrow> 'e host) \<Rightarrow> ('v \<Rightarrow> Cost) \<Rightarrow> ('v \<Rightarrow> 'v host) \<Rightarrow> bool" where
  "metered k view f charge eff \<longleftrightarrow> (\<forall>e. case eff (view e) of None \<Rightarrow> f e = None
     | Some v \<Rightarrow> \<exists>e'. f e = Some e' \<and> view e' = v \<and>
         sdk_cpu k e' = sdk_cpu k e + cpu_insns (charge (view e)) \<and>
         sdk_mem k e' = sdk_mem k e + mem_bytes (charge (view e)))"

text \<open>A measurement charges exactly the measured calls: whatever was metered before, the
  harness of the resource gate and \<open>measure_call\<close> of the event benchmarks both read the charge
  of the closure in the state it runs in, leave its effect, and panic exactly when it does.\<close>

theorem measurements_exact:
  assumes "sdk_laws k view" "metered k view f charge eff"
  shows "(case eff (view (h_env h)) of
      None \<Rightarrow> harness_measure k h f = None \<and> measure_call k (h_env h) f = None
    | Some v \<Rightarrow>
        (\<exists>env. harness_measure k h f = Some (charge (view (h_env h)), h\<lparr>h_env := env\<rparr>) \<and> view env = v) \<and>
        (\<exists>env. measure_call k (h_env h) f =
           Some (\<lparr>cpu = cpu_insns (charge (view (h_env h))), mem = mem_bytes (charge (view (h_env h)))\<rparr>, env)
           \<and> view env = v))"
proof (cases "eff (view (h_env h))")
  case None
  have "f e = None" if "view e = view (h_env h)" for e
    using assms(2) [unfolded metered_def, THEN spec, of e] None that by simp
  with assms(1) have "f (sdk_reset_unlimited k (h_env h)) = None" "f (sdk_reset_tracker k (h_env h)) = None"
    unfolding sdk_laws_def by blast+
  with None show ?thesis by (simp add: harness_measure_def measure_call_def)
next
  case (Some v)
  let ?c = "charge (view (h_env h))"
  have run: "\<exists>e'. f e = Some e' \<and> view e' = v \<and> sdk_cpu k e' = cpu_insns ?c \<and> sdk_mem k e' = mem_bytes ?c"
    if "view e = view (h_env h)" "sdk_cpu k e = 0" "sdk_mem k e = 0" for e
    using assms(2) [unfolded metered_def, THEN spec, of e] Some that by simp
  obtain e1 where "f (sdk_reset_unlimited k (h_env h)) = Some e1" "view e1 = v"
    "sdk_cpu k e1 = cpu_insns ?c" "sdk_mem k e1 = mem_bytes ?c"
    using run [of "sdk_reset_unlimited k (h_env h)"] assms(1) unfolding sdk_laws_def by blast
  moreover obtain e2 where "f (sdk_reset_tracker k (h_env h)) = Some e2" "view e2 = v"
    "sdk_cpu k e2 = cpu_insns ?c" "sdk_mem k e2 = mem_bytes ?c"
    using run [of "sdk_reset_tracker k (h_env h)"] assms(1) unfolding sdk_laws_def by blast
  ultimately show ?thesis using Some
    by (auto simp: harness_measure_def measure_call_def intro!: exI [of _ e1])
qed

subsection \<open>The measured scenarios and the committed baseline\<close>

lemma fold_host_collect:
  "fold_host (\<lambda>runs sc. do { h \<leftarrow> H; c \<leftarrow> R sc h; Some (runs @ [(n sc, c)]) }) acc xs = Some runs \<Longrightarrow>
     map fst runs = map fst acc @ map n xs"
  by (induction xs arbitrary: acc) (auto simp: bind_eq_Some_conv)

text \<open>C19. Whenever the measurement of a compiled contract finishes, gating its result against
  the committed baseline names no scenario missing and none stale, whatever it cost: the
  measured map is in order and over exactly the committed names.\<close>

theorem measured_gate_names:
  assumes "measure_wasm k ep wasm = Some m" "unat t + 100 \<le> 2 ^ 64"
    "compare_costs \<lparr>threshold_pct = 15, entries = committed_entries\<rparr> m t = Some fs"
  shows "bt_ok m \<and> bt_keys m = bt_keys committed_entries \<and>
    MissingBaseline n \<notin> set fs \<and> StaleBaseline n \<notin> set fs"
proof -
  obtain overhead runs where m: "m = measure_all overhead runs" and r: "map fst runs = map sc_name scenarios"
    using assms(1) fold_host_collect [of "new_harness k wasm" "run_scenario k ep" sc_name "[]" scenarios]
    by (auto simp: measure_wasm_def bind_eq_Some_conv)
  have ok: "bt_ok m" unfolding m measure_all_def by (rule record_net_ok) (simp add: bt_ok_def)
  have keys: "set (bt_keys m) = set (bt_keys committed_entries)"
    unfolding m measure_all_keys committed_covers(2) metered_names_def using r
    by (metis list.set(2) set_map)
  have "sorted_wrt (<) (bt_keys m)" "sorted_wrt (<) (bt_keys committed_entries)"
    using ok committed_ok by (simp_all add: bt_ok_def)
  with keys have "bt_keys m = bt_keys committed_entries" using strict_sorted_equal by blast
  with ok keys compare_names [OF assms(2,3)] show ?thesis by simp
qed

subsection \<open>Witnesses\<close>

text \<open>An environment of a state and the two counters, and entry points that charge one unit.\<close>

type_synonym counted = "nat \<times> u64 \<times> u64"

definition counted_sdk :: "(counted, unit) Sdk" where
  "counted_sdk =
    \<lparr>sdk_default = (0, 7, 7), sdk_reset_unlimited = (\<lambda>(s, _). (s, 0, 0)),
     sdk_reset_tracker = (\<lambda>(s, _). (s, 0, 0)), sdk_cpu = (\<lambda>(_, c, _). c), sdk_mem = (\<lambda>(_, _, m). m),
     sdk_mock_all_auths = (\<lambda>e. e), sdk_register = (\<lambda>e _. Some ((), e)),
     sdk_generate = (\<lambda>(s, c). (replicate s CHR ''G'', (Suc s, c))),
     sdk_initialize = (\<lambda>_ _ _ e. Some e)\<rparr>"

definition unit_call :: "counted \<Rightarrow> counted host" where
  "unit_call = (\<lambda>(s, c, m). Some (Suc s, c + 1, m + 2))"

definition unit_entry_points :: "(counted, unit) Entry_Points" where
  "unit_entry_points =
    \<lparr>ep_health = (\<lambda>_. unit_call),
     ep_register_callback = (\<lambda>_ p e. map_option (\<lambda>e. (lit ''tx-1'', e)) (unit_call e)),
     ep_try_register_callback = (\<lambda>_ p e. map_option (\<lambda>e. (True, e)) (unit_call e)),
     ep_start_processing = (\<lambda>_ _ _. unit_call), ep_complete_transaction = (\<lambda>_ _ _ _. unit_call),
     ep_fail_transaction = (\<lambda>_ _ _ _. unit_call), ep_get_transaction = (\<lambda>_ _. unit_call),
     ep_propose_admin = (\<lambda>_ _. unit_call), ep_accept_admin = (\<lambda>_ _. unit_call),
     ep_set_relay_signer = (\<lambda>_ _. unit_call), ep_pause = (\<lambda>_. unit_call),
     ep_unpause = (\<lambda>_. unit_call), ep_set_param = (\<lambda>_ _ _. unit_call),
     ep_bond_collateral = (\<lambda>_ _ _. unit_call)\<rparr>"

theorem measurements_exact_witness:
  "harness_measure counted_sdk \<lparr>h_env = (4, 9, 9), h_client = (), h_relay = []\<rparr> unit_call =
     Some (\<lparr>cpu_insns = 1, mem_bytes = 2\<rparr>, \<lparr>h_env = (5, 1, 2), h_client = (), h_relay = []\<rparr>) \<and>
   (\<exists>env. measure_call counted_sdk (4, 9, 9) unit_call = Some (\<lparr>cpu = 1, mem = 2\<rparr>, env) \<and> fst env = 5)"
proof -
  have l: "sdk_laws counted_sdk fst" by (simp add: sdk_laws_def counted_sdk_def)
  have m: "metered counted_sdk fst unit_call (\<lambda>_. \<lparr>cpu_insns = 1, mem_bytes = 2\<rparr>) (\<lambda>s. Some (Suc s))"
    by (simp add: metered_def counted_sdk_def unit_call_def)
  from measurements_exact [OF l m, of "\<lparr>h_env = (4, 9, 9), h_client = (), h_relay = []\<rparr>"]
  have "\<exists>env. measure_call counted_sdk (4, 9, 9) unit_call = Some (\<lparr>cpu = 1, mem = 2\<rparr>, env) \<and> fst env = 5"
    by simp
  then show ?thesis by (simp add: harness_measure_def counted_sdk_def unit_call_def)
qed

lemma unit_measure: "\<exists>m. measure_wasm counted_sdk unit_entry_points [] = Some m"
  by (simp add: measure_wasm_def new_harness_def harness_measure_def run_scenario_def counted_sdk_def
      unit_entry_points_def unit_call_def scenarios_def registered_def uses_generated_def
      del: lit_simps)

theorem measured_gate_names_witness:
  "\<exists>m fs. measure_wasm counted_sdk unit_entry_points [] = Some m \<and>
     compare_costs \<lparr>threshold_pct = 15, entries = committed_entries\<rparr> m 15 = Some fs \<and>
     MissingBaseline (lit ''pause'') \<notin> set fs"
proof -
  have t: "unat (15 :: u64) + 100 \<le> 2 ^ 64" by simp
  obtain m where m: "measure_wasm counted_sdk unit_entry_points [] = Some m" using unit_measure by blast
  obtain fs where f: "compare_costs \<lparr>threshold_pct = 15, entries = committed_entries\<rparr> m 15 = Some fs"
    using compare_total [OF t] by blast
  from measured_gate_names [OF m t f] m f show ?thesis by blast
qed

end
