(* ===== verification/Vectors.thy ===== *)
theory Vectors
  imports Rust_Text
begin

text \<open>
  The test vectors of \<open>tools/export-test-vectors/src/main.rs\<close>: the records, the helpers that
  build them and the vectors themselves, one definition per entry point.  The JSON text
  \<open>serde\<close> prints is not modelled; a \<open>Value\<close> is the JSON value it would print.
\<close>

subsection \<open>Data types\<close>

datatype Value = JString ustr | JNumber nat | JBool bool | JNull

record EventExpectation =
  ev_topics :: "ustr list"
  ev_present :: bool

record TestVector =
  tv_id :: ustr
  tv_description :: ustr
  tv_category :: ustr
  tv_entry_point :: ustr
  tv_inputs :: "(ustr, Value) btree"
  tv_pre_state :: "(ustr, Value) btree"
  tv_expected_result :: ustr
  tv_expected_events :: "EventExpectation list"
  tv_expected_state :: "(ustr, Value) btree"
  tv_notes :: "ustr list"

record TestVectorFile =
  tf_schema_version :: u32
  tf_contract_version :: ustr
  tf_description :: ustr
  tf_reference_docs :: "ustr list"
  tf_vectors :: "TestVector list"

subsection \<open>Helpers\<close>

definition arrow :: ustr where "arrow = [0x2192]"
definition dquote :: ustr where "dquote = [34]"

definition event_expect :: "ustr list \<Rightarrow> bool \<Rightarrow> EventExpectation" where
  "event_expect topics present = \<lparr>ev_topics = topics, ev_present = present\<rparr>"

definition synapse_event :: "ustr \<Rightarrow> EventExpectation" where
  "synapse_event name = event_expect [lit ''synapse'', name] True"

definition no_event :: "ustr \<Rightarrow> EventExpectation" where
  "no_event name = event_expect [lit ''synapse'', name] False"

text \<open>Collecting pairs into a \<open>BTreeMap\<close> inserts them one by one.\<close>

definition inputs :: "(ustr \<times> Value) list \<Rightarrow> (ustr, Value) btree" where
  "inputs pairs = foldl (\<lambda>m (k, v). bt_insert k v m) [] pairs"

definition state :: "(ustr \<times> Value) list \<Rightarrow> (ustr, Value) btree" where
  "state pairs = foldl (\<lambda>m (k, v). bt_insert k v m) [] pairs"

text \<open>\<open>i128\<close> is printed as a decimal string.\<close>

definition i128_max :: int where "i128_max = 2 ^ 127 - 1"

definition v_str :: "ustr \<Rightarrow> Value" where "v_str t = JString t"
definition v_i128 :: "int \<Rightarrow> Value" where "v_i128 n = JString (display_int n)"
definition v_u32 :: "nat \<Rightarrow> Value" where "v_u32 n = JNumber n"
definition v_bool :: "bool \<Rightarrow> Value" where "v_bool b = JBool b"
definition v_null :: Value where "v_null = JNull"

definition G_ADDR :: ustr where
  "G_ADDR = lit ''GA7QYNF7SOWQ3GLR2BGMZEHXAVIRZA4KVWLTJJFC7MGXUA74P7UJVSGZ''"

subsection \<open>The vectors\<close>

definition vectors_initialize :: "TestVector list" where
  "vectors_initialize =
    [\<lparr>tv_id = lit ''init-001'',
      tv_description = lit ''initialize() with valid admin and relay '' @ em_dash @ lit '' succeeds and sets state'',
      tv_category = lit ''initialisation'', tv_entry_point = lit ''initialize'',
      tv_inputs = inputs [(lit ''admin'', v_str (lit ''<admin_address>'')),
                         (lit ''relay_signer'', v_str (lit ''<relay_address>''))],
      tv_pre_state = state [(lit ''initialized'', v_bool False)],
      tv_expected_result = lit ''ok'',
      tv_expected_events = [synapse_event (lit ''init'')],
      tv_expected_state = state [(lit ''initialized'', v_bool True),
                                (lit ''admin'', v_str (lit ''<admin_address>'')),
                                (lit ''relay_signer'', v_str (lit ''<relay_address>'')),
                                (lit ''paused'', v_bool False),
                                (lit ''schema_version'', v_u32 1)],
      tv_notes = [lit ''THREAT_MODEL '' @ section_sign @ lit ''4.1: double-init guard enforced'',
                  lit ''I-08: contract must be initialised before state-mutating calls'']\<rparr>,
     \<lparr>tv_id = lit ''init-002'',
      tv_description = lit ''initialize() called twice '' @ em_dash @ lit '' returns AlreadyInitialised'',
      tv_category = lit ''initialisation'', tv_entry_point = lit ''initialize'',
      tv_inputs = inputs [(lit ''admin'', v_str (lit ''<admin_address>'')),
                         (lit ''relay_signer'', v_str (lit ''<relay_address>''))],
      tv_pre_state = state [(lit ''initialized'', v_bool True)],
      tv_expected_result = lit ''err:AlreadyInitialised'',
      tv_expected_events = [no_event (lit ''init'')],
      tv_expected_state = state [],
      tv_notes = [lit ''ContractError::AlreadyInitialised = 1'']\<rparr>]"

definition vectors_register_callback :: "TestVector list" where
  "vectors_register_callback =
    [\<lparr>tv_id = lit ''reg-001'',
      tv_description = lit ''register_callback() with valid payload '' @ em_dash @ lit '' creates Pending transaction'',
      tv_category = lit ''lifecycle'', tv_entry_point = lit ''register_callback'',
      tv_inputs = inputs [(lit ''transaction_id'', v_str (lit ''tx-uuid-001'')),
                         (lit ''stellar_account'', v_str G_ADDR),
                         (lit ''amount'', v_i128 1000000),
                         (lit ''asset_code'', v_str (lit ''USDC'')),
                         (lit ''asset_issuer'', v_str G_ADDR),
                         (lit ''idempotency_key'', v_str (lit ''idem-001'')),
                         (lit ''anchor_transaction_id'', v_str (lit ''anchor-001'')),
                         (lit ''callback_type'', v_str (lit ''Deposit'')),
                         (lit ''callback_status'', v_str (lit ''pending_external''))],
      tv_pre_state = state [(lit ''initialized'', v_bool True),
                           (lit ''paused'', v_bool False),
                           (lit ''transaction_exists'', v_bool False),
                           (lit ''idempotency_known'', v_bool False)],
      tv_expected_result = lit ''ok:'' @ dquote @ lit ''tx-uuid-001'' @ dquote,
      tv_expected_events = [synapse_event (lit ''reg'')],
      tv_expected_state = state [(lit ''transaction.status'', v_str (lit ''Pending'')),
                                (lit ''transaction.stellar_tx_hash'', v_str ([])),
                                (lit ''transaction.failure_reason'', v_str ([])),
                                (lit ''idempotency_key_recorded'', v_bool True)],
      tv_notes = [lit ''I-01: transaction created in Pending state'',
                  lit ''I-10: stellar_tx_hash empty until Completed'',
                  lit ''I-11: failure_reason empty until Failed'']\<rparr>,
     \<lparr>tv_id = lit ''reg-002'',
      tv_description = lit ''register_callback() duplicate idempotency_key within TTL '' @ em_dash @ lit '' idempotent return, no write'',
      tv_category = lit ''idempotency'', tv_entry_point = lit ''register_callback'',
      tv_inputs = inputs [(lit ''transaction_id'', v_str (lit ''tx-uuid-001'')),
                         (lit ''idempotency_key'', v_str (lit ''idem-001''))],
      tv_pre_state = state [(lit ''idempotency_known'', v_bool True)],
      tv_expected_result = lit ''ok:'' @ dquote @ lit ''tx-uuid-001'' @ dquote,
      tv_expected_events = [no_event (lit ''reg'')],
      tv_expected_state = state [],
      tv_notes = [lit ''R-04: idempotency window finite '' @ em_dash @ lit '' within window, deduplication works'',
                  lit ''No second write occurs'']\<rparr>,
     \<lparr>tv_id = lit ''reg-003'',
      tv_description = lit ''register_callback() same transaction_id after idempotency TTL expiry '' @ em_dash @ lit '' DuplicateRequest (F-07)'',
      tv_category = lit ''idempotency'', tv_entry_point = lit ''register_callback'',
      tv_inputs = inputs [(lit ''transaction_id'', v_str (lit ''tx-uuid-001'')),
                         (lit ''idempotency_key'', v_str (lit ''idem-fresh-new-key''))],
      tv_pre_state = state [(lit ''idempotency_known'', v_bool False),
                           (lit ''transaction_exists'', v_bool True)],
      tv_expected_result = lit ''err:DuplicateRequest'',
      tv_expected_events = [no_event (lit ''reg'')],
      tv_expected_state = state [],
      tv_notes = [lit ''F-07 fixed: persistent transaction_id guard, independent of idempotency TTL'',
                  lit ''R-04 compensating control'',
                  lit ''ContractError::DuplicateRequest = 40'']\<rparr>,
     \<lparr>tv_id = lit ''reg-004'',
      tv_description = lit ''register_callback() while paused '' @ em_dash @ lit '' ContractPaused'',
      tv_category = lit ''pause'', tv_entry_point = lit ''register_callback'',
      tv_inputs = inputs [(lit ''transaction_id'', v_str (lit ''tx-any''))],
      tv_pre_state = state [(lit ''paused'', v_bool True)],
      tv_expected_result = lit ''err:ContractPaused'',
      tv_expected_events = [],
      tv_expected_state = state [],
      tv_notes = [lit ''ContractError::ContractPaused = 12'',
                  lit ''R-01 compensating control: pause halts new ingestion'']\<rparr>,
     \<lparr>tv_id = lit ''reg-005'',
      tv_description = lit ''register_callback() with invalid stellar_account '' @ em_dash @ lit '' InvalidStellarAccount'',
      tv_category = lit ''validation'', tv_entry_point = lit ''register_callback'',
      tv_inputs = inputs [(lit ''stellar_account'', v_str (lit ''GSHORT''))],
      tv_pre_state = state [(lit ''initialized'', v_bool True),
                           (lit ''paused'', v_bool False)],
      tv_expected_result = lit ''err:InvalidStellarAccount'',
      tv_expected_events = [],
      tv_expected_state = state [],
      tv_notes = [lit ''F-01 fixed: full SEP-23 base32 + CRC16 validation'',
                  lit ''ContractError::InvalidStellarAccount = 20'']\<rparr>,
     \<lparr>tv_id = lit ''reg-006'',
      tv_description = lit ''register_callback() with zero amount '' @ em_dash @ lit '' InvalidAmount'',
      tv_category = lit ''validation'', tv_entry_point = lit ''register_callback'',
      tv_inputs = inputs [(lit ''amount'', v_i128 0)],
      tv_pre_state = state [(lit ''initialized'', v_bool True),
                           (lit ''paused'', v_bool False)],
      tv_expected_result = lit ''err:InvalidAmount'',
      tv_expected_events = [],
      tv_expected_state = state [],
      tv_notes = [lit ''ContractError::InvalidAmount = 21'']\<rparr>,
     \<lparr>tv_id = lit ''reg-007'',
      tv_description = lit ''register_callback() transaction_id over 64-byte cap '' @ em_dash @ lit '' StringTooLong'',
      tv_category = lit ''validation'', tv_entry_point = lit ''register_callback'',
      tv_inputs = inputs [(lit ''transaction_id'', v_str (lit (replicate 65 CHR ''t'')))],
      tv_pre_state = state [(lit ''initialized'', v_bool True),
                           (lit ''paused'', v_bool False)],
      tv_expected_result = lit ''err:StringTooLong'',
      tv_expected_events = [],
      tv_expected_state = state [],
      tv_notes = [lit ''MAX_TX_ID_LEN = 64'',
                  lit ''ContractError::StringTooLong = 25'']\<rparr>]"

definition vectors_start_processing :: "TestVector list" where
  "vectors_start_processing =
    [\<lparr>tv_id = lit ''proc-001'',
      tv_description = lit ''start_processing() on Pending transaction '' @ em_dash @ lit '' transitions to Processing'',
      tv_category = lit ''lifecycle'', tv_entry_point = lit ''start_processing'',
      tv_inputs = inputs [(lit ''tx_id'', v_str (lit ''tx-uuid-001'')),
                         (lit ''caller'', v_str (lit ''<relay_or_admin_address>''))],
      tv_pre_state = state [(lit ''transaction.status'', v_str (lit ''Pending''))],
      tv_expected_result = lit ''ok'',
      tv_expected_events = [synapse_event (lit ''status'')],
      tv_expected_state = state [(lit ''transaction.status'', v_str (lit ''Processing''))],
      tv_notes = [lit ''I-02: only Pending'' @ arrow @ lit ''Processing is valid here'']\<rparr>,
     \<lparr>tv_id = lit ''proc-002'',
      tv_description = lit ''start_processing() on Completed transaction '' @ em_dash @ lit '' InvalidStatusTransition'',
      tv_category = lit ''lifecycle'', tv_entry_point = lit ''start_processing'',
      tv_inputs = inputs [(lit ''tx_id'', v_str (lit ''tx-uuid-001'')),
                         (lit ''caller'', v_str (lit ''<relay_or_admin_address>''))],
      tv_pre_state = state [(lit ''transaction.status'', v_str (lit ''Completed''))],
      tv_expected_result = lit ''err:InvalidStatusTransition'',
      tv_expected_events = [],
      tv_expected_state = state [(lit ''transaction.status'', v_str (lit ''Completed''))],
      tv_notes = [lit ''I-05: Completed is terminal'',
                  lit ''ContractError::InvalidStatusTransition = 31'']\<rparr>,
     \<lparr>tv_id = lit ''proc-003'',
      tv_description = lit ''start_processing() by non-admin/non-relay '' @ em_dash @ lit '' Unauthorised'',
      tv_category = lit ''auth'', tv_entry_point = lit ''start_processing'',
      tv_inputs = inputs [(lit ''tx_id'', v_str (lit ''tx-uuid-001'')),
                         (lit ''caller'', v_str (lit ''<attacker_address>''))],
      tv_pre_state = state [(lit ''transaction.status'', v_str (lit ''Pending'')),
                           (lit ''caller_is_admin'', v_bool False),
                           (lit ''caller_is_relay'', v_bool False)],
      tv_expected_result = lit ''err:Unauthorised'',
      tv_expected_events = [],
      tv_expected_state = state [(lit ''transaction.status'', v_str (lit ''Pending''))],
      tv_notes = [lit ''ContractError::Unauthorised = 10'']\<rparr>]"

definition vectors_complete_transaction :: "TestVector list" where
  "vectors_complete_transaction =
    [\<lparr>tv_id = lit ''comp-001'',
      tv_description = lit ''complete_transaction() on Processing '' @ em_dash @ lit '' Completed, fee accrued (100 bps on 1_000_000)'',
      tv_category = lit ''lifecycle'', tv_entry_point = lit ''complete_transaction'',
      tv_inputs = inputs [(lit ''tx_id'', v_str (lit ''tx-uuid-001'')),
                         (lit ''stellar_tx_hash'', v_str (lit ''abc123stellarhash'')),
                         (lit ''caller'', v_str (lit ''<relay_or_admin_address>''))],
      tv_pre_state = state [(lit ''transaction.status'', v_str (lit ''Processing'')),
                           (lit ''transaction.amount'', v_i128 1000000),
                           (lit ''param.base_fee_bps'', v_i128 100),
                           (lit ''treasury_balance'', v_i128 0)],
      tv_expected_result = lit ''ok'',
      tv_expected_events = [synapse_event (lit ''status''),
                            synapse_event (lit ''done''),
                            synapse_event (lit ''fee'')],
      tv_expected_state = state [(lit ''transaction.status'', v_str (lit ''Completed'')),
                                (lit ''transaction.stellar_tx_hash'', v_str (lit ''abc123stellarhash'')),
                                (lit ''treasury_balance'', v_i128 10000)],
      tv_notes = [lit ''I-03: Processing'' @ arrow @ lit ''Completed is the only valid transition'',
                  lit ''I-10: stellar_tx_hash set at Completed'',
                  lit ''fee = floor(1_000_000 * 100 / 10_000) = 10_000 stroops'',
                  lit ''#141 fee accrual'',
                  lit ''Events emitted in order: status, done, fee'']\<rparr>,
     \<lparr>tv_id = lit ''comp-002'',
      tv_description = lit ''complete_transaction() with base_fee_bps=0 '' @ em_dash @ lit '' Completed, no fee event'',
      tv_category = lit ''fee'', tv_entry_point = lit ''complete_transaction'',
      tv_inputs = inputs [(lit ''tx_id'', v_str (lit ''tx-uuid-001'')),
                         (lit ''stellar_tx_hash'', v_str (lit ''abc123stellarhash'')),
                         (lit ''caller'', v_str (lit ''<relay_or_admin_address>''))],
      tv_pre_state = state [(lit ''transaction.status'', v_str (lit ''Processing'')),
                           (lit ''param.base_fee_bps'', v_i128 0),
                           (lit ''treasury_balance'', v_i128 0)],
      tv_expected_result = lit ''ok'',
      tv_expected_events = [synapse_event (lit ''status''),
                            synapse_event (lit ''done''),
                            no_event (lit ''fee'')],
      tv_expected_state = state [(lit ''transaction.status'', v_str (lit ''Completed'')),
                                (lit ''treasury_balance'', v_i128 0)],
      tv_notes = [lit ''With base_fee_bps=0 (or unset), no fee is accrued and no fee event is emitted'',
                  lit ''Events emitted: exactly 2 (status, done)'']\<rparr>,
     \<lparr>tv_id = lit ''comp-003'',
      tv_description = lit ''complete_transaction() on Pending (skipping Processing) '' @ em_dash @ lit '' InvalidStatusTransition'',
      tv_category = lit ''lifecycle'', tv_entry_point = lit ''complete_transaction'',
      tv_inputs = inputs [(lit ''tx_id'', v_str (lit ''tx-uuid-001'')),
                         (lit ''stellar_tx_hash'', v_str (lit ''abc123stellarhash'')),
                         (lit ''caller'', v_str (lit ''<relay_or_admin_address>''))],
      tv_pre_state = state [(lit ''transaction.status'', v_str (lit ''Pending''))],
      tv_expected_result = lit ''err:InvalidStatusTransition'',
      tv_expected_events = [],
      tv_expected_state = state [(lit ''transaction.status'', v_str (lit ''Pending''))],
      tv_notes = [lit ''State machine strictly enforced: Pending'' @ arrow @ lit ''Completed is not a valid transition'']\<rparr>]"

definition vectors_fail_transaction :: "TestVector list" where
  "vectors_fail_transaction =
    [\<lparr>tv_id = lit ''fail-001'',
      tv_description = lit ''fail_transaction() on Pending '' @ em_dash @ lit '' Failed, no fee accrued'',
      tv_category = lit ''lifecycle'', tv_entry_point = lit ''fail_transaction'',
      tv_inputs = inputs [(lit ''tx_id'', v_str (lit ''tx-uuid-001'')),
                         (lit ''reason'', v_str (lit ''horizon_timeout'')),
                         (lit ''caller'', v_str (lit ''<relay_or_admin_address>''))],
      tv_pre_state = state [(lit ''transaction.status'', v_str (lit ''Pending'')),
                           (lit ''param.base_fee_bps'', v_i128 100),
                           (lit ''treasury_balance'', v_i128 0)],
      tv_expected_result = lit ''ok'',
      tv_expected_events = [synapse_event (lit ''status''),
                            synapse_event (lit ''fail'')],
      tv_expected_state = state [(lit ''transaction.status'', v_str (lit ''Failed'')),
                                (lit ''transaction.failure_reason'', v_str (lit ''horizon_timeout'')),
                                (lit ''treasury_balance'', v_i128 0)],
      tv_notes = [lit ''I-04: Pending'' @ arrow @ lit ''Failed is valid'',
                  lit ''I-11: failure_reason set at Failed'',
                  lit ''No fee accrual on Failed '' @ em_dash @ lit '' fees only on Completed'']\<rparr>,
     \<lparr>tv_id = lit ''fail-002'',
      tv_description = lit ''fail_transaction() on Completed '' @ em_dash @ lit '' InvalidStatusTransition'',
      tv_category = lit ''lifecycle'', tv_entry_point = lit ''fail_transaction'',
      tv_inputs = inputs [(lit ''tx_id'', v_str (lit ''tx-uuid-001'')),
                         (lit ''reason'', v_str (lit ''late-fail'')),
                         (lit ''caller'', v_str (lit ''<relay_or_admin_address>''))],
      tv_pre_state = state [(lit ''transaction.status'', v_str (lit ''Completed''))],
      tv_expected_result = lit ''err:InvalidStatusTransition'',
      tv_expected_events = [],
      tv_expected_state = state [(lit ''transaction.status'', v_str (lit ''Completed''))],
      tv_notes = [lit ''I-05: Completed is terminal '' @ em_dash @ lit '' cannot be failed after completion'']\<rparr>]"

definition vectors_base_fee :: "TestVector list" where
  "vectors_base_fee =
    [\<lparr>tv_id = lit ''fee-001'',
      tv_description = lit ''set_param(base_fee_bps, 200) by admin '' @ em_dash @ lit '' updates fee rate, emits param event'',
      tv_category = lit ''fee'', tv_entry_point = lit ''set_param'',
      tv_inputs = inputs [(lit ''name'', v_str (lit ''base_fee_bps'')),
                         (lit ''value'', v_i128 200)],
      tv_pre_state = state [(lit ''param.base_fee_bps'', v_i128 100),
                           (lit ''caller_is_admin'', v_bool True)],
      tv_expected_result = lit ''ok'',
      tv_expected_events = [synapse_event (lit ''param'')],
      tv_expected_state = state [(lit ''param.base_fee_bps'', v_i128 200)],
      tv_notes = [lit ''#141: fee rate is the base_fee_bps registry param; applies to future completions only'']\<rparr>,
     \<lparr>tv_id = lit ''fee-002'',
      tv_description = lit ''set_param(base_fee_bps, 10_001) '' @ em_dash @ lit '' InvalidParamValue'',
      tv_category = lit ''fee'', tv_entry_point = lit ''set_param'',
      tv_inputs = inputs [(lit ''name'', v_str (lit ''base_fee_bps'')),
                         (lit ''value'', v_i128 10001)],
      tv_pre_state = state [(lit ''param.base_fee_bps'', v_i128 100),
                           (lit ''caller_is_admin'', v_bool True)],
      tv_expected_result = lit ''err:InvalidParamValue'',
      tv_expected_events = [no_event (lit ''param'')],
      tv_expected_state = state [(lit ''param.base_fee_bps'', v_i128 100)],
      tv_notes = [lit ''ContractError::InvalidParamValue = 71'',
                  lit ''Valid range 0..=10_000'']\<rparr>,
     \<lparr>tv_id = lit ''fee-003'',
      tv_description = lit ''set_param(base_fee_bps) by non-admin '' @ em_dash @ lit '' auth error'',
      tv_category = lit ''fee'', tv_entry_point = lit ''set_param'',
      tv_inputs = inputs [(lit ''name'', v_str (lit ''base_fee_bps'')),
                         (lit ''value'', v_i128 200)],
      tv_pre_state = state [(lit ''caller_is_admin'', v_bool False)],
      tv_expected_result = lit ''err:auth_error'',
      tv_expected_events = [],
      tv_expected_state = state [],
      tv_notes = [lit ''R-02: all admin operations require admin auth'']\<rparr>,
     \<lparr>tv_id = lit ''fee-004'',
      tv_description = lit ''complete_transaction() with amount = i128::MAX at 1 bps '' @ em_dash @ lit '' exact fee, no overflow'',
      tv_category = lit ''fee'', tv_entry_point = lit ''complete_transaction'',
      tv_inputs = inputs [(lit ''tx_id'', v_str (lit ''tx-uuid-max'')),
                         (lit ''stellar_tx_hash'', v_str (lit ''abc123stellarhash'')),
                         (lit ''caller'', v_str (lit ''<relay_or_admin_address>''))],
      tv_pre_state = state [(lit ''transaction.status'', v_str (lit ''Processing'')),
                           (lit ''transaction.amount'', v_i128 i128_max),
                           (lit ''param.base_fee_bps'', v_i128 1),
                           (lit ''treasury_balance'', v_i128 0)],
      tv_expected_result = lit ''ok'',
      tv_expected_events = [synapse_event (lit ''status''),
                            synapse_event (lit ''done''),
                            synapse_event (lit ''fee'')],
      tv_expected_state = state [(lit ''transaction.status'', v_str (lit ''Completed'')),
                                (lit ''treasury_balance'', v_i128 (i128_max div 10000))],
      tv_notes = [lit ''fee = floor(amount * base_fee_bps / 10_000), computed without an intermediate overflow'',
                  lit ''#141: checked arithmetic; see docs/adr/0008-fee-accrual-and-treasury-withdrawal.md'']\<rparr>,
     \<lparr>tv_id = lit ''fee-005'',
      tv_description = lit ''complete_transaction() whose fee would overflow the treasury '' @ em_dash @ lit '' ArithmeticOverflow, call rolled back'',
      tv_category = lit ''fee'', tv_entry_point = lit ''complete_transaction'',
      tv_inputs = inputs [(lit ''tx_id'', v_str (lit ''tx-uuid-002'')),
                         (lit ''stellar_tx_hash'', v_str (lit ''abc123stellarhash'')),
                         (lit ''caller'', v_str (lit ''<relay_or_admin_address>''))],
      tv_pre_state = state [(lit ''transaction.status'', v_str (lit ''Processing'')),
                           (lit ''transaction.amount'', v_i128 1),
                           (lit ''param.base_fee_bps'', v_i128 10000),
                           (lit ''treasury_balance'', v_i128 i128_max)],
      tv_expected_result = lit ''err:ArithmeticOverflow'',
      tv_expected_events = [],
      tv_expected_state = state [(lit ''transaction.status'', v_str (lit ''Processing'')),
                                (lit ''treasury_balance'', v_i128 i128_max)],
      tv_notes = [lit ''ContractError::ArithmeticOverflow = 116'',
                  lit ''#141: treasury accounting must never wrap'']\<rparr>]"

definition vectors_propose_withdrawal :: "TestVector list" where
  "vectors_propose_withdrawal =
    [\<lparr>tv_id = lit ''wdraw-001'',
      tv_description = lit ''propose_withdrawal() by admin '' @ em_dash @ lit '' creates PendingWithdrawal, emits wprop'',
      tv_category = lit ''treasury'', tv_entry_point = lit ''propose_withdrawal'',
      tv_inputs = inputs [(lit ''amount'', v_i128 5000),
                         (lit ''destination'', v_str (lit ''<destination_address>''))],
      tv_pre_state = state [(lit ''caller_is_admin'', v_bool True),
                           (lit ''treasury_balance'', v_i128 10000),
                           (lit ''param.treasury_epoch_cap'', v_i128 1000000),
                           (lit ''param.treasury_epoch_length'', v_i128 1000),
                           (lit ''pending_withdrawal'', v_null)],
      tv_expected_result = lit ''ok'',
      tv_expected_events = [synapse_event (lit ''wprop'')],
      tv_expected_state = state [(lit ''pending_withdrawal.amount'', v_i128 5000),
                                (lit ''pending_withdrawal.destination'', v_str (lit ''<destination_address>''))],
      tv_notes = [lit ''#142 step 1 of 2: admin proposes, relay must co-authorize'']\<rparr>,
     \<lparr>tv_id = lit ''wdraw-002'',
      tv_description = lit ''propose_withdrawal() amount > treasury balance '' @ em_dash @ lit '' InsufficientTreasuryBalance'',
      tv_category = lit ''treasury'', tv_entry_point = lit ''propose_withdrawal'',
      tv_inputs = inputs [(lit ''amount'', v_i128 10001)],
      tv_pre_state = state [(lit ''caller_is_admin'', v_bool True),
                           (lit ''treasury_balance'', v_i128 10000),
                           (lit ''param.treasury_epoch_cap'', v_i128 1000000),
                           (lit ''param.treasury_epoch_length'', v_i128 1000)],
      tv_expected_result = lit ''err:InsufficientTreasuryBalance'',
      tv_expected_events = [],
      tv_expected_state = state [],
      tv_notes = [lit ''ContractError::InsufficientTreasuryBalance = 114'']\<rparr>,
     \<lparr>tv_id = lit ''wdraw-003'',
      tv_description = lit ''propose_withdrawal() when treasury not configured '' @ em_dash @ lit '' TreasuryNotConfigured'',
      tv_category = lit ''treasury'', tv_entry_point = lit ''propose_withdrawal'',
      tv_inputs = inputs [(lit ''amount'', v_i128 1)],
      tv_pre_state = state [(lit ''caller_is_admin'', v_bool True),
                           (lit ''param.treasury_epoch_cap'', v_null)],
      tv_expected_result = lit ''err:TreasuryNotConfigured'',
      tv_expected_events = [],
      tv_expected_state = state [],
      tv_notes = [lit ''ContractError::TreasuryNotConfigured = 115'']\<rparr>]"

definition vectors_authorize_withdrawal :: "TestVector list" where
  "vectors_authorize_withdrawal =
    [\<lparr>tv_id = lit ''wdraw-004'',
      tv_description = lit ''authorize_withdrawal() by relay signer '' @ em_dash @ lit '' executes withdrawal, emits wexec'',
      tv_category = lit ''treasury'', tv_entry_point = lit ''authorize_withdrawal'',
      tv_inputs = inputs [(lit ''caller'', v_str (lit ''<relay_address>'')),
                         (lit ''amount'', v_i128 5000),
                         (lit ''destination'', v_str (lit ''<destination_address>''))],
      tv_pre_state = state [(lit ''caller_is_relay'', v_bool True),
                           (lit ''pending_withdrawal.amount'', v_i128 5000),
                           (lit ''treasury_balance'', v_i128 10000),
                           (lit ''epoch_withdrawn'', v_i128 0),
                           (lit ''param.treasury_epoch_cap'', v_i128 1000000)],
      tv_expected_result = lit ''ok'',
      tv_expected_events = [synapse_event (lit ''wexec'')],
      tv_expected_state = state [(lit ''treasury_balance'', v_i128 5000),
                                (lit ''pending_withdrawal'', v_null),
                                (lit ''epoch_withdrawn'', v_i128 5000)],
      tv_notes = [lit ''#142 step 2 of 2: relay co-authorizes and executes'',
                  lit ''Two-party authorization: admin proposes, relay authorizes'',
                  lit ''Treasury balance reduced by withdrawal amount'']\<rparr>,
     \<lparr>tv_id = lit ''wdraw-005'',
      tv_description = lit ''authorize_withdrawal() by admin (not relay) '' @ em_dash @ lit '' WithdrawalNotRelaySigner'',
      tv_category = lit ''treasury'', tv_entry_point = lit ''authorize_withdrawal'',
      tv_inputs = inputs [(lit ''caller'', v_str (lit ''<admin_address>'')),
                         (lit ''amount'', v_i128 5000),
                         (lit ''destination'', v_str (lit ''<destination_address>''))],
      tv_pre_state = state [(lit ''caller_is_relay'', v_bool False),
                           (lit ''caller_is_admin'', v_bool True),
                           (lit ''pending_withdrawal.amount'', v_i128 5000)],
      tv_expected_result = lit ''err:WithdrawalNotRelaySigner'',
      tv_expected_events = [],
      tv_expected_state = state [(lit ''pending_withdrawal_still_present'', v_bool True),
                                (lit ''treasury_balance_unchanged'', v_bool True)],
      tv_notes = [lit ''ContractError::WithdrawalNotRelaySigner = 113'',
                  lit ''#142: admin cannot unilaterally execute its own proposal'',
                  lit ''R-02 compensating control: two-party authorization prevents single-key drainage'']\<rparr>,
     \<lparr>tv_id = lit ''wdraw-006'',
      tv_description = lit ''authorize_withdrawal() exceeds per-epoch cap '' @ em_dash @ lit '' WithdrawalCapExceeded'',
      tv_category = lit ''treasury'', tv_entry_point = lit ''authorize_withdrawal'',
      tv_inputs = inputs [(lit ''caller'', v_str (lit ''<relay_address>'')),
                         (lit ''amount'', v_i128 1),
                         (lit ''destination'', v_str (lit ''<destination_address>''))],
      tv_pre_state = state [(lit ''caller_is_relay'', v_bool True),
                           (lit ''pending_withdrawal.amount'', v_i128 1),
                           (lit ''epoch_withdrawn'', v_i128 1000000),
                           (lit ''param.treasury_epoch_cap'', v_i128 1000000)],
      tv_expected_result = lit ''err:WithdrawalCapExceeded'',
      tv_expected_events = [],
      tv_expected_state = state [],
      tv_notes = [lit ''ContractError::WithdrawalCapExceeded = 111'',
                  lit ''epoch_withdrawn + amount > epoch_cap triggers rejection'']\<rparr>,
     \<lparr>tv_id = lit ''wdraw-007'',
      tv_description = lit ''authorize_withdrawal() after epoch reset '' @ em_dash @ lit '' cap resets, withdrawal succeeds'',
      tv_category = lit ''treasury'', tv_entry_point = lit ''authorize_withdrawal'',
      tv_inputs = inputs [(lit ''caller'', v_str (lit ''<relay_address>'')),
                         (lit ''amount'', v_i128 1),
                         (lit ''destination'', v_str (lit ''<destination_address>''))],
      tv_pre_state = state [(lit ''caller_is_relay'', v_bool True),
                           (lit ''pending_withdrawal.amount'', v_i128 1),
                           (lit ''epoch_withdrawn'', v_i128 1000000),
                           (lit ''param.treasury_epoch_cap'', v_i128 1000000),
                           (lit ''ledger_sequence'', v_str (lit ''>= epoch_start + treasury_epoch_length''))],
      tv_expected_result = lit ''ok'',
      tv_expected_events = [synapse_event (lit ''wexec'')],
      tv_expected_state = state [(lit ''epoch_withdrawn'', v_i128 1)],
      tv_notes = [lit ''Epoch resets automatically when now >= epoch_start + treasury_epoch_length'',
                  lit ''epoch_withdrawn counter starts at 0 in new epoch'']\<rparr>,
     \<lparr>tv_id = lit ''wdraw-008'',
      tv_description = lit ''set_param(treasury_epoch_length, 0) '' @ em_dash @ lit '' InvalidParamValue'',
      tv_category = lit ''treasury'', tv_entry_point = lit ''set_param'',
      tv_inputs = inputs [(lit ''name'', v_str (lit ''treasury_epoch_length'')),
                         (lit ''value'', v_i128 0)],
      tv_pre_state = state [(lit ''caller_is_admin'', v_bool True)],
      tv_expected_result = lit ''err:InvalidParamValue'',
      tv_expected_events = [no_event (lit ''param'')],
      tv_expected_state = state [],
      tv_notes = [lit ''ContractError::InvalidParamValue = 71'',
                  lit ''A zero-length epoch would reset the cap on every call, defeating it'']\<rparr>,
     \<lparr>tv_id = lit ''wdraw-009'',
      tv_description = lit ''authorize_withdrawal() naming a different amount/destination than the pending proposal '' @ em_dash @ lit '' WithdrawalProposalMismatch'',
      tv_category = lit ''treasury'', tv_entry_point = lit ''authorize_withdrawal'',
      tv_inputs = inputs [(lit ''caller'', v_str (lit ''<relay_address>'')),
                         (lit ''amount'', v_i128 500),
                         (lit ''destination'', v_str (lit ''<destination_address>''))],
      tv_pre_state = state [(lit ''caller_is_relay'', v_bool True),
                           (lit ''pending_withdrawal.amount'', v_i128 1000),
                           (lit ''pending_withdrawal.destination'', v_str (lit ''<attacker_address>'')),
                           (lit ''treasury_balance'', v_i128 5000)],
      tv_expected_result = lit ''err:WithdrawalProposalMismatch'',
      tv_expected_events = [no_event (lit ''wexec'')],
      tv_expected_state = state [(lit ''treasury_balance'', v_i128 5000),
                                (lit ''pending_withdrawal_still_present'', v_bool True)],
      tv_notes = [lit ''ContractError::WithdrawalProposalMismatch = 117'',
                  lit ''R-06 control (d): the relay co-signs one specific (amount, destination); an admin-side proposal swap after relay review cannot execute'']\<rparr>]"

definition vectors_pause :: "TestVector list" where
  "vectors_pause =
    [\<lparr>tv_id = lit ''pause-001'',
      tv_description = lit ''pause() by admin '' @ em_dash @ lit '' blocks register_callback, emits pause event'',
      tv_category = lit ''pause'', tv_entry_point = lit ''pause'',
      tv_inputs = inputs [],
      tv_pre_state = state [(lit ''paused'', v_bool False),
                           (lit ''caller_is_admin'', v_bool True)],
      tv_expected_result = lit ''ok'',
      tv_expected_events = [synapse_event (lit ''pause'')],
      tv_expected_state = state [(lit ''paused'', v_bool True)],
      tv_notes = [lit ''R-01 compensating control: pause halts new ingestion'',
                  lit ''Status transitions intentionally still work while paused (draining in-flight work)'']\<rparr>,
     \<lparr>tv_id = lit ''pause-002'',
      tv_description = lit ''unpause() by admin '' @ em_dash @ lit '' resumes register_callback, emits pause event'',
      tv_category = lit ''pause'', tv_entry_point = lit ''unpause'',
      tv_inputs = inputs [],
      tv_pre_state = state [(lit ''paused'', v_bool True),
                           (lit ''caller_is_admin'', v_bool True)],
      tv_expected_result = lit ''ok'',
      tv_expected_events = [synapse_event (lit ''pause'')],
      tv_expected_state = state [(lit ''paused'', v_bool False)],
      tv_notes = []\<rparr>,
     \<lparr>tv_id = lit ''pause-003'',
      tv_description = lit ''pause() by non-admin '' @ em_dash @ lit '' auth error, contract stays unpaused'',
      tv_category = lit ''pause'', tv_entry_point = lit ''pause'',
      tv_inputs = inputs [],
      tv_pre_state = state [(lit ''paused'', v_bool False),
                           (lit ''caller_is_admin'', v_bool False)],
      tv_expected_result = lit ''err:auth_error'',
      tv_expected_events = [],
      tv_expected_state = state [(lit ''paused'', v_bool False)],
      tv_notes = [lit ''R-02: pause gated by admin auth'']\<rparr>]"

definition vectors_admin :: "TestVector list" where
  "vectors_admin =
    [\<lparr>tv_id = lit ''admin-001'',
      tv_description = lit ''propose_admin() '' @ em_dash @ lit '' nominates new_admin without transferring yet'',
      tv_category = lit ''admin'', tv_entry_point = lit ''propose_admin'',
      tv_inputs = inputs [(lit ''new_admin'', v_str (lit ''<new_admin_address>''))],
      tv_pre_state = state [(lit ''caller_is_admin'', v_bool True)],
      tv_expected_result = lit ''ok'',
      tv_expected_events = [synapse_event (lit ''propose'')],
      tv_expected_state = state [(lit ''admin'', v_str (lit ''<old_admin_address>'')),
                                (lit ''pending_admin'', v_str (lit ''<new_admin_address>''))],
      tv_notes = [lit ''F-03 fixed: two-step transfer '' @ em_dash @ lit '' propose alone does not transfer admin'']\<rparr>,
     \<lparr>tv_id = lit ''admin-002'',
      tv_description = lit ''accept_admin() by nominee '' @ em_dash @ lit '' completes transfer, emits admin event'',
      tv_category = lit ''admin'', tv_entry_point = lit ''accept_admin'',
      tv_inputs = inputs [(lit ''caller'', v_str (lit ''<new_admin_address>''))],
      tv_pre_state = state [(lit ''pending_admin'', v_str (lit ''<new_admin_address>''))],
      tv_expected_result = lit ''ok'',
      tv_expected_events = [synapse_event (lit ''admin'')],
      tv_expected_state = state [(lit ''admin'', v_str (lit ''<new_admin_address>'')),
                                (lit ''pending_admin'', v_null)],
      tv_notes = [lit ''R-02 compensating control (c): nominee must prove key control'']\<rparr>]"

definition vectors_upgrade :: "TestVector list" where
  "vectors_upgrade =
    [\<lparr>tv_id = lit ''upg-001'',
      tv_description = lit ''upgrade() with wrong expected_schema_version '' @ em_dash @ lit '' SchemaVersionMismatch, WASM unchanged'',
      tv_category = lit ''upgrade'', tv_entry_point = lit ''upgrade'',
      tv_inputs = inputs [(lit ''new_wasm_hash'', v_str (lit ''<32-byte WASM hash>'')),
                         (lit ''expected_schema_version'', v_u32 999)],
      tv_pre_state = state [(lit ''schema_version'', v_u32 1),
                           (lit ''caller_is_admin'', v_bool True)],
      tv_expected_result = lit ''err:SchemaVersionMismatch'',
      tv_expected_events = [no_event (lit ''upgrade'')],
      tv_expected_state = state [(lit ''wasm_unchanged'', v_bool True)],
      tv_notes = [lit ''F-04 fixed: schema version guard fires before update_current_contract_wasm'',
                  lit ''R-05 compensating control (c)'',
                  lit ''ContractError::SchemaVersionMismatch = 60'']\<rparr>,
     \<lparr>tv_id = lit ''upg-002'',
      tv_description = lit ''upgrade() by non-admin '' @ em_dash @ lit '' auth error, WASM unchanged'',
      tv_category = lit ''upgrade'', tv_entry_point = lit ''upgrade'',
      tv_inputs = inputs [(lit ''new_wasm_hash'', v_str (lit ''<32-byte WASM hash>'')),
                         (lit ''expected_schema_version'', v_u32 1)],
      tv_pre_state = state [(lit ''schema_version'', v_u32 1),
                           (lit ''caller_is_admin'', v_bool False)],
      tv_expected_result = lit ''err:auth_error'',
      tv_expected_events = [no_event (lit ''upgrade'')],
      tv_expected_state = state [(lit ''wasm_unchanged'', v_bool True)],
      tv_notes = [lit ''R-05 compensating control (a): upgrade requires admin auth'',
                  lit ''R-02: admin operations are auth-gated'']\<rparr>]"

definition vectors :: "TestVector list" where
  "vectors = vectors_initialize @ vectors_register_callback @ vectors_start_processing @
     vectors_complete_transaction @ vectors_fail_transaction @ vectors_base_fee @
     vectors_propose_withdrawal @ vectors_authorize_withdrawal @ vectors_pause @ vectors_admin @
     vectors_upgrade"

text \<open>The file \<open>main\<close> serializes.\<close>

definition test_vector_file :: TestVectorFile where
  "test_vector_file =
     \<lparr>tf_schema_version = 1, tf_contract_version = lit ''0.1.0'',
      tf_description = lit ''Language-agnostic test vectors for synapse-core-contract. '' @
        lit ''Each vector specifies entry-point inputs, required pre-state, expected result, '' @
        lit ''expected events, and expected post-state. An external auditor can replay these '' @
        lit ''against a deployed contract instance using any tooling that can invoke Soroban '' @
        lit ''contract methods and read ledger state/events.'',
      tf_reference_docs =
        [lit ''THREAT_MODEL.md'', lit ''EVENTS.md'',
         lit ''docs/adr/0001-relay-signer-trust-model.md'',
         lit ''docs/adr/0002-two-step-admin-transfer.md'',
         lit ''docs/adr/0003-upgrade-schema-version-guard.md'',
         lit ''docs/adr/0008-fee-accrual-and-treasury-withdrawal.md'',
         lit ''docs/test-vectors.md''],
      tf_vectors = vectors\<rparr>"

lemmas vector_group_defs =
  vectors_initialize_def vectors_register_callback_def vectors_start_processing_def
  vectors_complete_transaction_def vectors_fail_transaction_def vectors_base_fee_def
  vectors_propose_withdrawal_def vectors_authorize_withdrawal_def vectors_pause_def
  vectors_admin_def vectors_upgrade_def

end
