(* ===== verification/Vector_Conformance.thy ===== *)
theory Vector_Conformance
  imports Vectors
begin

text \<open>
  What every consumer of the exported test vectors relies on: they are well formed, and the
  value a vector's state gives to a key is the one listed last for it.
\<close>

subsection \<open>Well-formed vectors\<close>

lemma foldl_insert_ok: "bt_ok m \<Longrightarrow> bt_ok (foldl (\<lambda>m (k, v). bt_insert k v m) m pairs)"
  by (induction pairs arbitrary: m) (auto simp: bt_ok_insert)

lemma inputs_ok: "bt_ok (inputs pairs)"
  unfolding inputs_def by (rule foldl_insert_ok) (simp add: bt_ok_def)

lemma state_ok: "bt_ok (state pairs)"
  unfolding state_def by (rule foldl_insert_ok) (simp add: bt_ok_def)

definition is_ok :: "ustr \<Rightarrow> bool" where
  "is_ok r \<longleftrightarrow> take 2 r = lit ''ok''"

definition is_err :: "ustr \<Rightarrow> bool" where
  "is_err r \<longleftrightarrow> take 4 r = lit ''err:''"

text \<open>The maps are in order, the result is an ok or an error, and an error expects no event
  to be emitted.\<close>

definition vector_ok :: "TestVector \<Rightarrow> bool" where
  "vector_ok v \<longleftrightarrow> bt_ok (tv_inputs v) \<and> bt_ok (tv_pre_state v) \<and> bt_ok (tv_expected_state v) \<and>
     (is_ok (tv_expected_result v) \<or>
      is_err (tv_expected_result v) \<and> list_all (\<lambda>e. \<not> ev_present e) (tv_expected_events v))"

lemma lit_inj: "lit s = lit t \<longleftrightarrow> s = t"
  unfolding lit_def by (auto simp: inj_map_eq_map inj_on_def)

lemma take_lit: "take n (lit s) = lit (take n s)"
  by (simp add: lit_def take_map)

lemma take_lit_append: "take 2 (lit (a # b # s) @ t) = lit [a, b]"
  by simp

lemma is_ok_lit:
  "is_ok (lit s) \<longleftrightarrow> take 2 s = ''ok''"
  "is_ok (lit (a # b # s) @ t) \<longleftrightarrow> [a, b] = ''ok''"
  unfolding is_ok_def take_lit take_lit_append lit_inj by (rule refl)+

lemma is_err_lit: "is_err (lit s) \<longleftrightarrow> take 4 s = ''err:''"
  unfolding is_err_def take_lit lit_inj by (rule refl)

lemmas vector_ok_defs = vector_ok_def is_ok_lit is_err_lit inputs_ok state_ok synapse_event_def
  no_event_def event_expect_def

lemma groups_ok:
  "list_all vector_ok vectors_initialize" "list_all vector_ok vectors_register_callback"
  "list_all vector_ok vectors_start_processing" "list_all vector_ok vectors_complete_transaction"
  "list_all vector_ok vectors_fail_transaction" "list_all vector_ok vectors_base_fee"
  "list_all vector_ok vectors_propose_withdrawal" "list_all vector_ok vectors_authorize_withdrawal"
  "list_all vector_ok vectors_pause" "list_all vector_ok vectors_admin"
  "list_all vector_ok vectors_upgrade"
  by (simp_all add: vector_group_defs vector_ok_defs del: lit_simps)

lemma vector_ids:
  "map tv_id vectors =
     map lit [''init-001'', ''init-002'', ''reg-001'', ''reg-002'', ''reg-003'', ''reg-004'',
       ''reg-005'', ''reg-006'', ''reg-007'', ''proc-001'', ''proc-002'', ''proc-003'',
       ''comp-001'', ''comp-002'', ''comp-003'', ''fail-001'', ''fail-002'', ''fee-001'',
       ''fee-002'', ''fee-003'', ''fee-004'', ''fee-005'', ''wdraw-001'', ''wdraw-002'',
       ''wdraw-003'', ''wdraw-004'', ''wdraw-005'', ''wdraw-006'', ''wdraw-007'', ''wdraw-008'',
       ''wdraw-009'', ''pause-001'', ''pause-002'', ''pause-003'', ''admin-001'', ''admin-002'',
       ''upg-001'', ''upg-002'']"
  by (simp add: vectors_def vector_group_defs del: lit_simps)

subsection \<open>Reading a state\<close>

lemma bt_get_state:
  "bt_get (foldl (\<lambda>m (k, v). bt_insert k v m) m pairs) key =
     (case map_of (rev pairs) key of None \<Rightarrow> bt_get m key | Some v \<Rightarrow> Some v)"
  by (induction pairs arbitrary: m)
    (auto simp: bt_get_insert map_add_def split: option.split prod.split)

lemma bt_get_state_eq: "bt_get (state pairs) key = map_of (rev pairs) key"
  unfolding state_def bt_get_state by (simp add: bt_get_def split: option.split)

subsection \<open>Properties\<close>

text \<open>The exported vectors are well formed: their ids are pairwise different, their maps
  are in key order, every result is an ok or an error, and a vector that expects an error
  expects no event to be emitted.\<close>

theorem vectors_well_formed:
  "distinct (map tv_id (tf_vectors test_vector_file)) \<and>
   list_all vector_ok (tf_vectors test_vector_file)"
proof -
  have "distinct (map tv_id vectors)" unfolding vector_ids by (simp add: lit_inj del: lit_simps)
  then show ?thesis using groups_ok by (simp add: test_vector_file_def vectors_def)
qed

end
