(* ===== verification/Export_Main.thy ===== *)
theory Export_Main
  imports Vector_Conformance
begin

text \<open>
  \<open>main\<close> of \<open>tools/export-test-vectors\<close>: the flag, the file and the printed line.  The two JSON
  printers are \<open>serde_json\<close>'s and parameters; what an auditor relies on is that a JSON reader
  gets the printed value back from either form, with the line feed \<open>println!\<close> adds.
\<close>

record Json_Printers =
  to_string :: "TestVectorFile \<Rightarrow> ustr option"
  to_string_pretty :: "TestVectorFile \<Rightarrow> ustr option"

definition export_main :: "Json_Printers \<Rightarrow> ustr list \<Rightarrow> ustr host" where
  "export_main j args = do {
     let pretty = list_ex (\<lambda>a. a = lit ''--pretty'') args;
     output \<leftarrow> (if pretty then to_string_pretty j test_vector_file else to_string j test_vector_file);
     Some (output @ [10]) }"

definition reads_back :: "Json_Printers \<Rightarrow> (ustr \<Rightarrow> TestVectorFile option) \<Rightarrow> bool" where
  "reads_back j rd \<longleftrightarrow> (\<forall>f t. to_string j f = Some t \<or> to_string_pretty j f = Some t \<longrightarrow>
     rd (t @ [10]) = Some f)"

text \<open>What the exporter prints is what the repository promises: whatever its arguments,
  either it fails in the printer or an auditor reads from its output exactly the committed
  file, with pairwise different and well-formed vectors; the flag changes the text only.\<close>

theorem exported_file_reads_back:
  assumes "reads_back j rd" "export_main j args = Some out"
  shows "rd out = Some test_vector_file \<and>
    (export_main j args' = Some out' \<longrightarrow> rd out' = rd out) \<and>
    (lit ''--pretty'' \<in> set args \<longrightarrow> to_string_pretty j test_vector_file = Some (butlast out)) \<and>
    (lit ''--pretty'' \<notin> set args \<longrightarrow> to_string j test_vector_file = Some (butlast out))"
proof -
  have main: "export_main j as = Some os \<longleftrightarrow> (\<exists>t. os = t @ [10] \<and>
      (if lit ''--pretty'' \<in> set as then to_string_pretty j test_vector_file
       else to_string j test_vector_file) = Some t)" for as os
    by (auto simp: export_main_def list_ex_iff Let_def bind_eq_Some_conv simp del: lit_simps)
  have rd: "export_main j as = Some os \<Longrightarrow> rd os = Some test_vector_file" for as os
    using assms(1) unfolding main reads_back_def by (metis (full_types))
  from assms(2) show ?thesis
    using rd [OF assms(2)] rd [of args' out'] unfolding main by (auto simp del: lit_simps)
qed

text \<open>Printers and a reader for the committed file alone.\<close>

definition example_printers :: Json_Printers where
  "example_printers =
    \<lparr>to_string = (\<lambda>f. if f = test_vector_file then Some [1] else None),
     to_string_pretty = (\<lambda>f. if f = test_vector_file then Some [2] else None)\<rparr>"

definition example_reader :: "ustr \<Rightarrow> TestVectorFile option" where
  "example_reader t = (if t \<in> {[1, 10], [2, 10]} then Some test_vector_file else None)"

theorem exported_file_reads_back_witness:
  "export_main example_printers [lit ''tool''] = Some [1, 10] \<and>
   example_reader [1, 10] = Some test_vector_file"
proof -
  have r: "reads_back example_printers example_reader"
    by (simp add: reads_back_def example_printers_def example_reader_def)
  have e: "export_main example_printers [lit ''tool''] = Some [1, 10]"
    by (simp add: export_main_def example_printers_def lit_inj del: lit_simps)
  from exported_file_reads_back [OF r e] e show ?thesis by blast
qed

end
