(* ===== verification/Fees.thy ===== *)
theory Fees
  imports Vector_Conformance Contract_Types
begin

text \<open>
  The arithmetic tests of the completion fee in \<open>src/test_fee_treasury.rs\<close>.  No code of the
  repository computes the fee: \<open>compute_fee\<close> is a parameter of the tests.  The two forms of the
  formula the decision record discusses are specifications, compared on \<open>i128\<close>, and the tests
  are shown to tell them apart.
\<close>

subsection \<open>Checked arithmetic on \<open>i128\<close>\<close>

definition fits_i128 :: "int \<Rightarrow> bool" where
  "fits_i128 n \<longleftrightarrow> - (2 ^ 127) \<le> n \<and> n < 2 ^ 127"

definition checked_i128 :: "int \<Rightarrow> int option" where
  "checked_i128 n = (if fits_i128 n then Some n else None)"

type_synonym fee_error = ContractError

text \<open>The formula as a single product, and split at the basis-point denominator.\<close>

definition floor_fee :: "int \<Rightarrow> int \<Rightarrow> int" where
  "floor_fee amount bps = amount * bps div 10000"

definition product_fee :: "int \<Rightarrow> int \<Rightarrow> fee_error + int" where
  "product_fee amount bps =
     (if amount \<le> 0 then Inr 0
      else case checked_i128 (amount * bps) of
        None \<Rightarrow> Inl ArithmeticOverflow | Some p \<Rightarrow> Inr (p div 10000))"

definition split_fee :: "int \<Rightarrow> int \<Rightarrow> fee_error + int" where
  "split_fee amount bps =
     (if amount \<le> 0 then Inr 0
      else let q = amount div 10000; r = amount mod 10000 in
        case do {
            a \<leftarrow> checked_i128 (q * bps);
            b \<leftarrow> checked_i128 (r * bps);
            checked_i128 (a + b div 10000) } of
          None \<Rightarrow> Inl ArithmeticOverflow | Some fee \<Rightarrow> Inr fee)"

lemma floor_fee_zero [simp]: "floor_fee 0 bps = 0"
  by (simp add: floor_fee_def)

lemma checked_i128_Some [simp]: "fits_i128 n \<Longrightarrow> checked_i128 n = Some n"
  by (simp add: checked_i128_def)

lemma split_sum: "amount div 10000 * bps + amount mod 10000 * bps div 10000 = floor_fee amount bps"
proof -
  let ?q = "amount div 10000" and ?r = "amount mod 10000"
  have "amount * bps = (?q * 10000 + ?r) * bps" by (simp only: div_mult_mod_eq)
  then have "amount * bps = ?r * bps + (?q * bps) * 10000" by (simp only: algebra_simps)
  then have "floor_fee amount bps = (?r * bps + (?q * bps) * 10000) div 10000"
    by (simp only: floor_fee_def)
  also have "\<dots> = ?q * bps + ?r * bps div 10000" by (rule div_mult_self1) simp
  finally show ?thesis by (rule sym)
qed

lemma floor_fee_bounds:
  assumes "0 \<le> amount" "0 \<le> bps" "bps \<le> 10000"
  shows "0 \<le> floor_fee amount bps" "floor_fee amount bps \<le> amount"
proof -
  from assms show "0 \<le> floor_fee amount bps"
    by (simp add: floor_fee_def pos_imp_zdiv_nonneg_iff)
  have "amount * bps div 10000 \<le> amount * 10000 div 10000"
    using assms by (intro zdiv_mono1 mult_left_mono) simp_all
  then show "floor_fee amount bps \<le> amount" by (simp add: floor_fee_def)
qed

lemma split_fee_value:
  assumes "fits_i128 amount" "0 \<le> bps" "bps \<le> 10000"
  shows "split_fee amount bps = Inr (if amount \<le> 0 then 0 else floor_fee amount bps)"
proof (cases "amount \<le> 0")
  case False
  let ?q = "amount div 10000" and ?r = "amount mod 10000"
  have "?q * bps \<le> ?q * 10000" using False assms(3) by (intro mult_left_mono) simp_all
  also have "\<dots> \<le> amount" by (simp add: minus_mod_eq_div_mult [symmetric])
  finally have "?q * bps \<le> amount" .
  moreover have "0 \<le> ?q * bps"
    using assms(2) False by (intro mult_nonneg_nonneg) (simp_all add: pos_imp_zdiv_nonneg_iff)
  ultimately have a: "fits_i128 (?q * bps)" using assms(1) by (simp add: fits_i128_def)
  have "?r * bps \<le> 10000 * 10000" using assms(2,3) by (intro mult_mono) simp_all
  moreover have "0 \<le> ?r * bps" using assms(2) by simp
  ultimately have b: "fits_i128 (?r * bps)" by (simp add: fits_i128_def)
  have c: "fits_i128 (floor_fee amount bps)"
    using floor_fee_bounds [of amount bps] assms False by (simp add: fits_i128_def)
  show ?thesis using False a b c by (simp add: split_fee_def Let_def split_sum)
qed (simp add: split_fee_def)

text \<open>The chosen form of the fee is exact and total: for every \<open>i128\<close> amount and every rate
  from 0 to 10000 basis points it does not overflow and is the floor of amount times rate over
  10000, between 0 and the amount; the single product gives the same value exactly while the
  product fits, and overflows otherwise.\<close>

theorem split_fee_exact:
  assumes "fits_i128 amount" "0 \<le> bps" "bps \<le> 10000"
  shows "\<exists>fee. split_fee amount bps = Inr fee \<and> 0 \<le> fee \<and> fee \<le> max 0 amount \<and>
    (amount > 0 \<longrightarrow> fee = floor_fee amount bps) \<and>
    product_fee amount bps = (if amount > 0 \<and> \<not> fits_i128 (amount * bps) then Inl ArithmeticOverflow else Inr fee)"
proof (cases "amount \<le> 0")
  case True
  then show ?thesis using split_fee_value [OF assms] by (simp add: product_fee_def)
next
  case False
  then show ?thesis
    using split_fee_value [OF assms] floor_fee_bounds [of amount bps] assms
    by (simp add: product_fee_def checked_i128_def floor_fee_def)
qed

theorem split_fee_exact_witness:
  "split_fee (2 ^ 127 - 1) 10000 = Inr (2 ^ 127 - 1) \<and>
   product_fee (2 ^ 127 - 1) 10000 = Inl ArithmeticOverflow"
  using split_fee_exact [of "2 ^ 127 - 1" 10000] by (simp add: fits_i128_def floor_fee_def)

subsection \<open>The arithmetic tests\<close>

type_synonym fee_function = "int \<Rightarrow> int \<Rightarrow> fee_error + int"

definition fee_amounts :: "int list" where
  "fee_amounts =
    [1, 9999, 10000, 10001, 12345, 99999999, 1000000007, 2 ^ 63 - 1, 2 ^ 64 - 1, 10 ^ 30 + 7,
     i128_max div 10000, i128_max div 10000 - 1]"

text \<open>The unchecked product of the test panics when it does not fit.\<close>

definition test_compute_fee_matches_floor_formula_across_amounts :: "fee_function \<Rightarrow> unit host" where
  "test_compute_fee_matches_floor_formula_across_amounts compute_fee =
     fold_host (\<lambda>_ bps. fold_host (\<lambda>_ amount. do {
         p \<leftarrow> checked_i128 (amount * bps);
         assert_that (compute_fee amount bps = Inr (p div 10000)) }) () fee_amounts)
       () [0, 1, 7, 30, 100, 2500, 9999, 10000]"

definition test_compute_fee_exact_at_i128_max :: "fee_function \<Rightarrow> unit host" where
  "test_compute_fee_exact_at_i128_max compute_fee = do {
     assert_that (compute_fee i128_max 10000 = Inr i128_max);
     assert_that (compute_fee i128_max 1 = Inr (i128_max div 10000));
     assert_that (compute_fee i128_max 5000 = Inr (i128_max div 2)) }"

definition test_compute_fee_non_positive_amount_is_zero :: "fee_function \<Rightarrow> unit host" where
  "test_compute_fee_non_positive_amount_is_zero compute_fee = do {
     assert_that (compute_fee 0 10000 = Inr 0);
     assert_that (compute_fee (- 1) 10000 = Inr 0) }"

lemma fold_host_all:
  "(\<And>x. x \<in> set xs \<Longrightarrow> f () x = Some ()) \<Longrightarrow> fold_host f () xs = Some ()"
  by (induction xs) simp_all

lemma fee_amounts_fit:
  "amount \<in> set fee_amounts \<Longrightarrow> 0 < amount \<and> amount * 10000 < 2 ^ 127"
  by (auto simp: fee_amounts_def i128_max_def)

lemma product_fits:
  "amount \<in> set fee_amounts \<Longrightarrow> 0 \<le> bps \<Longrightarrow> bps \<le> 10000 \<Longrightarrow>
     fits_i128 amount \<and> fits_i128 (amount * bps) \<and> amount > 0"
proof -
  assume a: "amount \<in> set fee_amounts" and b: "0 \<le> bps" "bps \<le> 10000"
  note f = fee_amounts_fit [OF a]
  have "amount * bps \<le> amount * 10000" using f b by (intro mult_left_mono) simp_all
  with f have "amount * bps < 2 ^ 127" by (metis le_less_trans)
  moreover have "0 \<le> amount * bps" using f b by simp
  moreover have "amount < 2 ^ 127" using f by simp
  ultimately show ?thesis using f by (simp add: fits_i128_def)
qed

lemma formula_test_passes:
  assumes "\<And>amount bps. amount \<in> set fee_amounts \<Longrightarrow> 0 \<le> bps \<Longrightarrow> bps \<le> 10000 \<Longrightarrow>
    cf amount bps = Inr (floor_fee amount bps)"
  shows "test_compute_fee_matches_floor_formula_across_amounts cf = Some ()"
  unfolding test_compute_fee_matches_floor_formula_across_amounts_def
proof (intro fold_host_all)
  fix bps amount :: int
  assume "bps \<in> set [0, 1, 7, 30, 100, 2500, 9999, 10000]" and a: "amount \<in> set fee_amounts"
  then have "0 \<le> bps" "bps \<le> 10000" by auto
  with product_fits [OF a] assms [OF a]
  show "do { p \<leftarrow> checked_i128 (amount * bps); assert_that (cf amount bps = Inr (p div 10000)) } = Some ()"
    by (simp add: floor_fee_def)
qed

text \<open>The arithmetic tests tell the two forms apart: the split form passes all three; the
  single product passes the cross-check, which only uses amounts whose product fits, and the
  zero cases, and fails at the greatest amount.\<close>

theorem fee_tests_decide:
  "test_compute_fee_matches_floor_formula_across_amounts split_fee = Some () \<and>
   test_compute_fee_exact_at_i128_max split_fee = Some () \<and>
   test_compute_fee_non_positive_amount_is_zero split_fee = Some () \<and>
   test_compute_fee_matches_floor_formula_across_amounts product_fee = Some () \<and>
   test_compute_fee_exact_at_i128_max product_fee = None \<and>
   test_compute_fee_non_positive_amount_is_zero product_fee = Some ()"
proof (intro conjI formula_test_passes)
  fix amount bps :: int
  assume a: "amount \<in> set fee_amounts" "0 \<le> bps" "bps \<le> 10000"
  with product_fits [OF a] show "split_fee amount bps = Inr (floor_fee amount bps)"
    using split_fee_value [of amount bps] by simp
  from product_fits [OF a] show "product_fee amount bps = Inr (floor_fee amount bps)"
    by (simp add: product_fee_def floor_fee_def)
next
  show "test_compute_fee_exact_at_i128_max split_fee = Some ()"
    by (simp add: test_compute_fee_exact_at_i128_max_def split_fee_value fits_i128_def floor_fee_def
        i128_max_def)
  show "test_compute_fee_exact_at_i128_max product_fee = None"
    by (simp add: test_compute_fee_exact_at_i128_max_def product_fee_def checked_i128_def fits_i128_def
        i128_max_def assert_that_def)
qed (simp_all add: test_compute_fee_non_positive_amount_is_zero_def split_fee_def product_fee_def)

end
