(* ===== verification/Packing.thy ===== *)
theory Packing
  imports Contract_Types
begin

text \<open>
  The unit tests at the end of \<open>src/storage.rs\<close>.  They exercise a packed representation of a
  transaction whose \<open>pack\<close>, \<open>unpack\<close>, \<open>RETRY_SHIFT\<close> and \<open>RETRY_MASK\<close> are defined nowhere; all four are
  parameters.  The result says what the tests need of them: a four-bit field for the retry
  count that the other fields leave alone.
\<close>

unbundle bit_operations_syntax

subsection \<open>The packed transaction\<close>

datatype PackCallbackType = NoCallback | OnComplete | OnFailure

record PackTransaction =
  pt_tx_id :: "u8 list"
  pt_status :: TransactionStatus
  pt_callback_type :: PackCallbackType
  pt_amount :: i128
  pt_stellar_account :: Address
  pt_asset_code :: string
  pt_asset_issuer :: Address
  pt_retry_count :: u32
  pt_tags :: "string list"

record 's Packing =
  pack :: "PackTransaction \<Rightarrow> 's"
  unpack :: "'s \<Rightarrow> PackTransaction"
  packed :: "'s \<Rightarrow> u32"
  RETRY_SHIFT :: nat
  RETRY_MASK :: u32

text \<open>\<open>>>\<close> panics when the distance reaches the width.\<close>

definition retry_field :: "'s Packing \<Rightarrow> 's \<Rightarrow> u32 host" where
  "retry_field p s =
     (if RETRY_SHIFT p < 32 then Some (drop_bit (RETRY_SHIFT p) (packed p s) AND RETRY_MASK p) else None)"

subsection \<open>The tests\<close>

text \<open>The two addresses are generated by the environment.\<close>

definition round_trip_preserves_every_field :: "'s Packing \<Rightarrow> Address \<Rightarrow> Address \<Rightarrow> unit host" where
  "round_trip_preserves_every_field p account issuer =
     (let tx = \<lparr>pt_tx_id = [1, 2, 3, 4], pt_status = Retrying, pt_callback_type = OnFailure,
         pt_amount = 1000000, pt_stellar_account = account, pt_asset_code = ''USDC'',
         pt_asset_issuer = issuer, pt_retry_count = 3, pt_tags = []\<rparr>;
       stored = pack p tx;
       restored = unpack p stored
     in assert_that (restored = tx))"

definition retry_count_defaults_to_zero_and_round_trips ::
    "'s Packing \<Rightarrow> Address \<Rightarrow> Address \<Rightarrow> unit host" where
  "retry_count_defaults_to_zero_and_round_trips p account issuer =
     (let tx = \<lparr>pt_tx_id = [9, 9], pt_status = Pending, pt_callback_type = NoCallback,
         pt_amount = 0, pt_stellar_account = account, pt_asset_code = ''XLM'',
         pt_asset_issuer = issuer, pt_retry_count = 0, pt_tags = []\<rparr>;
       stored = pack p tx
     in do {
       field \<leftarrow> retry_field p stored;
       assert_that (field = 0);
       assert_that (pt_retry_count (unpack p stored) = 0) })"

definition retry_count_is_masked_to_four_bits ::
    "'s Packing \<Rightarrow> Address \<Rightarrow> Address \<Rightarrow> unit host" where
  "retry_count_is_masked_to_four_bits p account issuer =
     (let tx = \<lparr>pt_tx_id = [7], pt_status = Retrying, pt_callback_type = OnComplete,
         pt_amount = 5, pt_stellar_account = account, pt_asset_code = ''USDC'',
         pt_asset_issuer = issuer, pt_retry_count = 0xF, pt_tags = []\<rparr>;
       stored = pack p tx
     in do {
       field \<leftarrow> retry_field p stored;
       assert_that (field = 0xF);
       assert_that (pt_retry_count (unpack p stored) = 0xF) })"

subsection \<open>A four-bit field\<close>

text \<open>The retry count is put into its field next to bits that leave the field clear, and read
  back from it; every other field survives.\<close>

definition four_bit_layout :: "'s Packing \<Rightarrow> (PackTransaction \<Rightarrow> u32) \<Rightarrow> bool" where
  "four_bit_layout p rest \<longleftrightarrow> RETRY_SHIFT p + 4 \<le> 32 \<and> RETRY_MASK p = 0xF \<and>
     (\<forall>tx. packed p (pack p tx) = rest tx OR push_bit (RETRY_SHIFT p) (pt_retry_count tx AND RETRY_MASK p)) \<and>
     (\<forall>tx. drop_bit (RETRY_SHIFT p) (rest tx) AND RETRY_MASK p = 0) \<and>
     (\<forall>s. pt_retry_count (unpack p s) = drop_bit (RETRY_SHIFT p) (packed p s) AND RETRY_MASK p) \<and>
     (\<forall>tx. unpack p (pack p tx) = tx\<lparr>pt_retry_count := pt_retry_count (unpack p (pack p tx))\<rparr>)"

lemma field_of_push:
  fixes r x :: u32
  assumes "n + 4 \<le> 32" "drop_bit n r AND 0xF = 0"
  shows "drop_bit n (r OR push_bit n (x AND 0xF)) AND 0xF = x AND 0xF"
proof -
  have m: "(0xF :: u32) = mask 4" by (simp add: mask_eq_exp_minus_1)
  have "drop_bit n (push_bit n (x AND 0xF)) = x AND 0xF"
  proof (rule bit_word_eqI)
    fix i assume "i < LENGTH(32)"
    then show "bit (drop_bit n (push_bit n (x AND 0xF))) i = bit (x AND 0xF) i"
      using assms(1) unfolding m by (auto simp: bit_simps)
  qed
  then have "drop_bit n (r OR push_bit n (x AND 0xF)) AND 0xF = (drop_bit n r OR (x AND 0xF)) AND 0xF"
    by (simp add: drop_bit_or)
  also have "\<dots> = (drop_bit n r AND 0xF) OR (x AND 0xF)"
    by (simp add: bit.conj_disj_distrib2 and.assoc)
  finally show ?thesis using assms(2) by simp
qed

lemma mask_four: "(x :: u32) AND 0xF = x \<longleftrightarrow> unat x < 16"
proof -
  have "x AND 0xF = take_bit 4 x" by (simp add: take_bit_eq_mask mask_eq_exp_minus_1)
  moreover have "take_bit 4 x = x \<longleftrightarrow> unat x < 2 ^ 4"
    by (metis unsigned_take_bit_eq take_bit_nat_eq_self_iff unsigned_word_eqI)
  ultimately show ?thesis by simp
qed

lemma packed_field:
  assumes "four_bit_layout p rest"
  shows "retry_field p (pack p tx) = Some (pt_retry_count tx AND 0xF)"
    and "pt_retry_count (unpack p (pack p tx)) = pt_retry_count tx AND 0xF"
proof -
  have l: "RETRY_SHIFT p + 4 \<le> 32" "RETRY_MASK p = 0xF"
    "packed p (pack p tx) = rest tx OR push_bit (RETRY_SHIFT p) (pt_retry_count tx AND 0xF)"
    "drop_bit (RETRY_SHIFT p) (rest tx) AND 0xF = 0"
    "pt_retry_count (unpack p (pack p tx)) = drop_bit (RETRY_SHIFT p) (packed p (pack p tx)) AND 0xF"
    using assms unfolding four_bit_layout_def by metis+
  show "retry_field p (pack p tx) = Some (pt_retry_count tx AND 0xF)"
    and "pt_retry_count (unpack p (pack p tx)) = pt_retry_count tx AND 0xF"
    using l(1) by (simp_all only: l(5)) (simp_all only: retry_field_def l(2,3) field_of_push [OF l(1,4)], simp)
qed

lemma unpack_pack:
  assumes "four_bit_layout p rest"
  shows "unpack p (pack p tx) = tx\<lparr>pt_retry_count := pt_retry_count tx AND 0xF\<rparr>"
  using assms packed_field(2) [OF assms, of tx] unfolding four_bit_layout_def by metis

text \<open>A four-bit layout passes the three tests; it keeps a transaction exactly when its retry
  count is at most 15, and otherwise keeps the count modulo 16 and every other field.\<close>

theorem packing_round_trip:
  assumes "four_bit_layout p rest"
  shows "round_trip_preserves_every_field p a b = Some () \<and>
    retry_count_defaults_to_zero_and_round_trips p a b = Some () \<and>
    retry_count_is_masked_to_four_bits p a b = Some () \<and>
    (unpack p (pack p tx) = tx \<longleftrightarrow> unat (pt_retry_count tx) < 16) \<and>
    unpack p (pack p tx) = tx\<lparr>pt_retry_count := pt_retry_count tx AND 0xF\<rparr>"
proof -
  note f = packed_field [OF assms] unpack_pack [OF assms]
  have "tx\<lparr>pt_retry_count := pt_retry_count tx AND 0xF\<rparr> = tx \<longleftrightarrow> pt_retry_count tx AND 0xF = pt_retry_count tx"
    by (cases tx) simp
  then show ?thesis
    by (simp add: f mask_four round_trip_preserves_every_field_def
        retry_count_defaults_to_zero_and_round_trips_def retry_count_is_masked_to_four_bits_def)
qed

text \<open>A layout with the status in the low bits and the retry count above it.\<close>

definition status_code :: "TransactionStatus \<Rightarrow> u32" where
  "status_code s = (case s of Pending \<Rightarrow> 0 | Processing \<Rightarrow> 1 | Completed \<Rightarrow> 2 | Failed \<Rightarrow> 3
     | Cancelled \<Rightarrow> 4 | Retrying \<Rightarrow> 5)"

definition example_packing :: "(PackTransaction \<times> u32) Packing" where
  "example_packing =
    \<lparr>pack = (\<lambda>tx. (tx, status_code (pt_status tx) OR push_bit 8 (pt_retry_count tx AND 0xF))),
     unpack = (\<lambda>(tx, w). tx\<lparr>pt_retry_count := drop_bit 8 w AND 0xF\<rparr>), packed = snd,
     RETRY_SHIFT = 8, RETRY_MASK = 0xF\<rparr>"

theorem packing_round_trip_witness:
  "retry_count_is_masked_to_four_bits example_packing ''GA'' ''GB'' = Some ()"
proof -
  have "drop_bit 8 (status_code s) AND 0xF = 0" for s
    by (cases s) (simp_all add: status_code_def)
  then have "four_bit_layout example_packing (\<lambda>tx. status_code (pt_status tx))"
    by (simp add: four_bit_layout_def example_packing_def)
  from packing_round_trip [OF this] show ?thesis by blast
qed

end
