(* ===== verification/Test_Support.thy ===== *)
theory Test_Support
  imports Rust_Text
begin

text \<open>
  The rendering helpers of \<open>src/test_support.rs\<close>: hexadecimal text, the FNV-1a digest, the
  line diff, and the renderings of events and of the ledger that the snapshot tests and the
  profile comparison rest on.  XDR encodings, the \<open>Debug\<close> text of a string and the \<open>Display\<close>
  text of an address come from the SDK and are parameters.
\<close>

unbundle bit_operations_syntax

subsection \<open>Hexadecimal text\<close>

definition hex_digit :: "nat \<Rightarrow> nat" where
  "hex_digit d = (if d < 10 then 48 + d else 87 + d)"

text \<open>\<open>{b:02x}\<close>.\<close>

definition hex_byte :: "u8 \<Rightarrow> ustr" where
  "hex_byte b = [hex_digit (unat b div 16), hex_digit (unat b mod 16)]"

definition hex :: "u8 list \<Rightarrow> ustr" where
  "hex bytes = foldl (\<lambda>out b. out @ hex_byte b) [] bytes"

text \<open>The reader of such text: lower-case digits in pairs, anything else refused.\<close>

definition unhex_digit :: "nat \<Rightarrow> nat option" where
  "unhex_digit c =
     (if 48 \<le> c \<and> c \<le> 57 then Some (c - 48) else if 97 \<le> c \<and> c \<le> 102 then Some (c - 87) else None)"

definition byte_of :: "nat \<Rightarrow> nat \<Rightarrow> u8" where
  "byte_of h l = word_of_nat (16 * h + l)"

fun unhex :: "ustr \<Rightarrow> u8 list option" where
  "unhex [] = Some []"
| "unhex [_] = None"
| "unhex (h # l # t) = do {
     a \<leftarrow> unhex_digit h;
     b \<leftarrow> unhex_digit l;
     bs \<leftarrow> unhex t;
     Some (byte_of a b # bs) }"

lemma foldl_append_concat: "foldl (\<lambda>out b. out @ f b) acc xs = acc @ concat (map f xs)"
  by (induction xs arbitrary: acc) simp_all

lemma hex_concat: "hex bs = concat (map hex_byte bs)"
  by (simp add: hex_def foldl_append_concat)

lemma hex_simps [simp]: "hex [] = []" "hex (b # bs) = hex_byte b @ hex bs"
  by (simp_all add: hex_concat)

lemma unhex_hex_digit: "d < 16 \<Longrightarrow> unhex_digit (hex_digit d) = Some d"
  by (simp add: hex_digit_def unhex_digit_def)

lemma hex_unhex_digit: "unhex_digit c = Some d \<Longrightarrow> hex_digit d = c \<and> d < 16"
  by (auto simp: hex_digit_def unhex_digit_def split: if_splits)

lemma byte_range: "unat (b :: u8) < 256"
  using unsigned_less [of b] by simp

lemma unat_byte_of: "h < 16 \<Longrightarrow> l < 16 \<Longrightarrow> unat (byte_of h l) = 16 * h + l"
  unfolding byte_of_def by (subst unat_of_nat) (simp add: take_bit_eq_mod)

lemma byte_of_digits: "byte_of (unat b div 16) (unat b mod 16) = b"
  unfolding byte_of_def mult_div_mod_eq by simp

lemma unhex_byte: "unhex (hex_byte b @ t) = map_option ((#) b) (unhex t)"
proof -
  have "unat b div 16 < 16" "unat b mod 16 < 16" using byte_range [of b] by auto
  then show ?thesis
    by (cases "unhex t") (simp_all add: hex_byte_def unhex_hex_digit byte_of_digits)
qed

lemma unhex_hex: "unhex (hex bs) = Some bs"
  by (induction bs) (simp_all add: unhex_byte)

lemma hex_unhex: "unhex t = Some bs \<Longrightarrow> hex bs = t"
proof (induction t arbitrary: bs rule: unhex.induct)
  case (3 h l t)
  then obtain a b bs' where d: "unhex_digit h = Some a" "unhex_digit l = Some b"
    "unhex t = Some bs'" "bs = byte_of a b # bs'"
    by (auto simp: bind_eq_Some_conv)
  from d(1,2) have ab: "hex_digit a = h" "hex_digit b = l" "a < 16" "b < 16"
    by (simp_all add: hex_unhex_digit)
  then have u: "unat (byte_of a b) = 16 * a + b" by (simp add: unat_byte_of)
  from 3(1) [OF d(1,2,3)] d(4) ab show ?case by (simp add: hex_byte_def u)
qed simp_all

lemma hex_chars: "c \<in> set (hex bs) \<Longrightarrow> 48 \<le> c \<and> c \<le> 57 \<or> 97 \<le> c \<and> c \<le> 102"
proof (induction bs)
  case (Cons b bs)
  have "unat b div 16 < 16" "unat b mod 16 < 16" using byte_range [of b] by auto
  with Cons show ?case by (auto simp: hex_byte_def hex_digit_def split: if_splits)
qed simp

lemma hex_inj: "hex bs = hex bs' \<longleftrightarrow> bs = bs'"
  by (metis unhex_hex option.inject)

lemma hex_length: "length (hex bs) = 2 * length bs"
  by (induction bs) (simp_all add: hex_byte_def)

subsection \<open>The FNV-1a digest\<close>

definition FNV_OFFSET :: u64 where "FNV_OFFSET = 0xcbf29ce484222325"
definition FNV_PRIME :: u64 where "FNV_PRIME = 0x100000001b3"

definition fnv_step :: "u64 \<Rightarrow> u8 \<Rightarrow> u64" where
  "fnv_step h b = (h XOR ucast b) * FNV_PRIME"

definition fnv1a64 :: "u8 list \<Rightarrow> u64" where
  "fnv1a64 data = foldl fnv_step FNV_OFFSET data"

text \<open>The prime is odd, so multiplying by it can be undone.\<close>

lemma fnv_prime_inverse: "FNV_PRIME * 0xCE965057AFF6957B = 1"
  by (simp add: FNV_PRIME_def)

lemma fnv_prime_cancel: "x * FNV_PRIME = y * FNV_PRIME \<longleftrightarrow> x = y"
proof
  assume "x * FNV_PRIME = y * FNV_PRIME"
  then have "x * (FNV_PRIME * 0xCE965057AFF6957B) = y * (FNV_PRIME * 0xCE965057AFF6957B)"
    by (simp only: mult.assoc [symmetric])
  then show "x = y" by (simp add: fnv_prime_inverse)
qed simp

lemma xor_cancel: "(a :: 'a :: len word) XOR c = b XOR c \<longleftrightarrow> a = b"
  by (metis xor.assoc xor.right_neutral xor_self_eq)

lemma fnv_step_state: "fnv_step h b = fnv_step h' b \<longleftrightarrow> h = h'"
  by (simp add: fnv_step_def fnv_prime_cancel xor_cancel)

lemma ucast_byte_inj: "(ucast (b :: u8) :: u64) = ucast b' \<longleftrightarrow> b = b'"
proof
  assume e: "(ucast b :: u64) = ucast b'"
  have "unat (ucast x :: u64) = unat x" for x :: u8
    using byte_range [of x] by (simp add: unsigned_ucast_eq take_bit_eq_mod)
  with e have "unat b = unat b'" by metis
  then show "b = b'" by (rule word_unat_eq_iff [THEN iffD2])
qed simp

lemma fnv_step_byte: "fnv_step h b = fnv_step h b' \<longleftrightarrow> b = b'"
proof -
  have "h XOR ucast b = h XOR (ucast b' :: u64) \<longleftrightarrow> (ucast b :: u64) = ucast b'"
    by (metis xor_cancel xor.commute)
  then show ?thesis by (simp add: fnv_step_def fnv_prime_cancel ucast_byte_inj)
qed

lemma fnv_fold_state: "foldl fnv_step h bs = foldl fnv_step h' bs \<longleftrightarrow> h = h'"
  by (induction bs arbitrary: h h') (simp_all add: fnv_step_state)

lemma fnv_one_byte:
  "b \<noteq> b' \<Longrightarrow> fnv1a64 (xs @ b # ys) \<noteq> fnv1a64 (xs @ b' # ys)"
  by (simp add: fnv1a64_def fnv_fold_state fnv_step_byte)

lemma fnv_same_tail:
  "fnv1a64 (xs @ zs) = fnv1a64 (ys @ zs) \<longleftrightarrow> fnv1a64 xs = fnv1a64 ys"
  by (simp add: fnv1a64_def fnv_fold_state)

text \<open>The state digest cannot miss a change of one byte, and a common suffix neither hides nor
  makes a difference: every step of the digest is a bijection of the state, because the prime
  is odd.\<close>

theorem fnv1a64_detects_byte:
  "(fnv1a64 (xs @ b # ys) = fnv1a64 (xs @ b' # ys) \<longleftrightarrow> b = b') \<and>
   (fnv1a64 (xs @ zs) = fnv1a64 (ys @ zs) \<longleftrightarrow> fnv1a64 xs = fnv1a64 ys)"
  using fnv_one_byte fnv_same_tail by blast

subsection \<open>The line diff\<close>

definition get_line :: "ustr list \<Rightarrow> nat \<Rightarrow> ustr option" where
  "get_line xs i = (if i < length xs then Some (xs ! i) else None)"

text \<open>One round of the loop: an unchanged line, or the expected and the actual one.\<close>

definition marked :: "nat \<Rightarrow> ustr option \<Rightarrow> ustr" where
  "marked c l = (case l of None \<Rightarrow> [] | Some t \<Rightarrow> [c, 32] @ t @ [10])"

definition diff_entry :: "ustr option \<Rightarrow> ustr option \<Rightarrow> ustr" where
  "diff_entry e a =
     (if e = a \<and> e \<noteq> None then marked 32 e else marked 45 e @ marked 43 a)"

definition line_diff :: "ustr \<Rightarrow> ustr \<Rightarrow> ustr option" where
  "line_diff expected actual =
     (if expected = actual then None
      else let exp' = text_lines expected; act = text_lines actual
           in Some (foldl (\<lambda>out i. out @ diff_entry (get_line exp' i) (get_line act i)) []
                [0..<max (length exp') (length act)]))"

text \<open>What a reader of the diff does to get one of the two texts back: keep the unchanged
  lines and the lines with its mark, and cut the mark off.\<close>

definition has_mark :: "nat \<Rightarrow> ustr \<Rightarrow> bool" where
  "has_mark c l \<longleftrightarrow> take 2 l = [32, 32] \<or> take 2 l = [c, 32]"

definition diff_side :: "nat \<Rightarrow> ustr \<Rightarrow> ustr list" where
  "diff_side c d = map (drop 2) (filter (has_mark c) (text_lines d))"

definition line_ok :: "ustr \<Rightarrow> bool" where
  "line_ok l \<longleftrightarrow> 10 \<notin> set l \<and> 13 \<notin> set l"

lemma text_lines_marked:
  "line_ok l \<Longrightarrow> c \<notin> {10, 13} \<Longrightarrow>
     text_lines ([c, 32] @ l @ [10] @ rest) = ([c, 32] @ l) # text_lines rest"
  using text_lines_Cons [of "[c, 32] @ l" rest] strip_cr_none [of "[c, 32] @ l"]
  by (simp add: line_ok_def)

lemma lines_from_line_ok:
  "13 \<notin> set t \<Longrightarrow> line_ok cur \<Longrightarrow> list_all line_ok (lines_from cur t)"
proof (induction cur t rule: lines_from.induct)
  case (2 cur x xs)
  then show ?case by (auto simp: strip_cr_none line_ok_def)
qed simp

lemma text_lines_line_ok: "13 \<notin> set t \<Longrightarrow> list_all line_ok (text_lines t)"
  by (simp add: text_lines_def lines_from_line_ok line_ok_def)

lemma get_line_line_ok: "list_all line_ok xs \<Longrightarrow> get_line xs i = Some l \<Longrightarrow> line_ok l"
  by (auto simp: get_line_def list_all_length split: if_splits)

definition opt_list :: "'a option \<Rightarrow> 'a list" where
  "opt_list x = (case x of None \<Rightarrow> [] | Some a \<Rightarrow> [a])"

lemma diff_side_entry:
  assumes "\<And>l. e = Some l \<Longrightarrow> line_ok l" "\<And>l. a = Some l \<Longrightarrow> line_ok l"
  shows "diff_side 45 (diff_entry e a @ rest) = opt_list e @ diff_side 45 rest"
    and "diff_side 43 (diff_entry e a @ rest) = opt_list a @ diff_side 43 rest"
  using assms text_lines_marked
  by (cases e; cases a; simp add: diff_side_def diff_entry_def marked_def has_mark_def opt_list_def)+

lemma opt_lists:
  assumes "length xs \<le> n"
  shows "concat (map (\<lambda>i. opt_list (get_line xs i)) [0..<n]) = xs"
proof -
  from assms have split: "[0..<n] = [0..<length xs] @ [length xs..<n]"
    by (metis le_add_diff_inverse upt_add_eq_append zero_le)
  have "map (\<lambda>i. opt_list (get_line xs i)) [0..<length xs] = map (\<lambda>i. [xs ! i]) [0..<length xs]"
    by (simp add: get_line_def opt_list_def)
  then have 1: "concat (map (\<lambda>i. opt_list (get_line xs i)) [0..<length xs]) = xs"
    by (simp only: concat_map_singleton map_nth)
  have 2: "concat (map (\<lambda>i. opt_list (get_line xs i)) [length xs..<n]) = []"
    by (simp add: get_line_def opt_list_def)
  show ?thesis unfolding split map_append concat_append 1 2 by simp
qed

lemma diff_side_entries:
  assumes "list_all line_ok exp'" "list_all line_ok act"
  shows "diff_side 45 (concat (map (\<lambda>i. diff_entry (get_line exp' i) (get_line act i)) is)) =
      concat (map (\<lambda>i. opt_list (get_line exp' i)) is)"
    and "diff_side 43 (concat (map (\<lambda>i. diff_entry (get_line exp' i) (get_line act i)) is)) =
      concat (map (\<lambda>i. opt_list (get_line act i)) is)"
proof -
  note entry = diff_side_entry [OF get_line_line_ok [OF assms(1)] get_line_line_ok [OF assms(2)]]
  have "diff_side 45 (concat (map (\<lambda>i. diff_entry (get_line exp' i) (get_line act i)) is)) =
      concat (map (\<lambda>i. opt_list (get_line exp' i)) is) \<and>
    diff_side 43 (concat (map (\<lambda>i. diff_entry (get_line exp' i) (get_line act i)) is)) =
      concat (map (\<lambda>i. opt_list (get_line act i)) is)"
  proof (induction "is")
    case Nil
    show ?case by (simp add: diff_side_def)
  next
    case (Cons i "is")
    then show ?case by (simp add: entry)
  qed
  then show "diff_side 45 (concat (map (\<lambda>i. diff_entry (get_line exp' i) (get_line act i)) is)) =
      concat (map (\<lambda>i. opt_list (get_line exp' i)) is)"
    and "diff_side 43 (concat (map (\<lambda>i. diff_entry (get_line exp' i) (get_line act i)) is)) =
      concat (map (\<lambda>i. opt_list (get_line act i)) is)" by simp_all
qed

lemma line_diff_None: "line_diff expected actual = None \<longleftrightarrow> expected = actual"
  by (simp add: line_diff_def Let_def)

lemma line_diff_sides:
  assumes "line_diff expected actual = Some d" "13 \<notin> set expected" "13 \<notin> set actual"
  shows "expected \<noteq> actual \<and> diff_side 45 d = text_lines expected \<and>
    diff_side 43 d = text_lines actual"
  using assms
  by (auto simp: line_diff_def Let_def foldl_append_concat diff_side_entries text_lines_line_ok
      opt_lists split: if_splits)

text \<open>Writing the lines of a text again closes its last line; without carriage returns nothing
  else is lost.\<close>

definition closed :: "ustr \<Rightarrow> bool" where
  "closed t \<longleftrightarrow> t = [] \<or> last t = 10"

lemma unlines_lines_from:
  "13 \<notin> set cur \<Longrightarrow> 13 \<notin> set t \<Longrightarrow>
     unlines (lines_from cur t) = cur @ t @ (if closed (cur @ t) then [] else [10])"
  if "10 \<notin> set cur"
  using that
proof (induction cur t rule: lines_from.induct)
  case (1 cur)
  have "closed cur \<longleftrightarrow> cur = []" using 1(3) by (metis closed_def last_in_set)
  then show ?case by (simp add: unlines_def)
next
  case (2 cur x xs)
  show ?case
  proof (cases "x = 10")
    case True
    with 2 have "unlines (lines_from [] xs) = xs @ (if closed xs then [] else [10])" by simp
    with True 2(3) show ?thesis by (simp add: unlines_def strip_cr_none closed_def)
  next
    case False
    with 2 show ?thesis by simp
  qed
qed

lemma unlines_text_lines:
  "13 \<notin> set t \<Longrightarrow> unlines (text_lines t) = t @ (if closed t then [] else [10])"
  using unlines_lines_from [of "[]" t] by (simp add: text_lines_def)

text \<open>So two texts have the same lines exactly when they agree up to the line feed that closes
  the last line.\<close>

lemma text_lines_eq:
  assumes "13 \<notin> set s" "13 \<notin> set t"
  shows "text_lines s = text_lines t \<longleftrightarrow>
    s = t \<or> \<not> closed s \<and> t = s @ [10] \<or> \<not> closed t \<and> s = t @ [10]"
proof
  assume "text_lines s = text_lines t"
  then have "s @ (if closed s then [] else [10]) = t @ (if closed t then [] else [10])"
    using unlines_text_lines [OF assms(1)] unlines_text_lines [OF assms(2)] by simp
  then show "s = t \<or> \<not> closed s \<and> t = s @ [10] \<or> \<not> closed t \<and> s = t @ [10]"
    by (auto split: if_splits)
next
  have close: "text_lines (t @ [10]) = text_lines t" if "\<not> closed t" "13 \<notin> set t" for t
  proof -
    from that have "unlines (text_lines t) = t @ [10]" by (simp add: unlines_text_lines)
    moreover have "text_lines (unlines (text_lines t)) = text_lines t"
      using text_lines_line_ok [OF that(2)]
      by (intro text_lines_unlines) (auto simp: list_all_iff line_ok_def plain_def strip_cr_none)
    ultimately show ?thesis by simp
  qed
  assume "s = t \<or> \<not> closed s \<and> t = s @ [10] \<or> \<not> closed t \<and> s = t @ [10]"
  with assms close show "text_lines s = text_lines t" by auto
qed

lemma diff_entry_marks:
  assumes "\<And>l. e = Some l \<Longrightarrow> line_ok l" "\<And>l. a = Some l \<Longrightarrow> line_ok l"
  shows "list_all (\<lambda>l. take 2 l = [32, 32]) (text_lines (diff_entry e a @ rest)) \<longleftrightarrow>
    e = a \<and> list_all (\<lambda>l. take 2 l = [32, 32]) (text_lines rest)"
  using assms text_lines_marked
  by (cases e; cases a; simp add: diff_entry_def marked_def)

lemma diff_entries_marks:
  assumes "list_all line_ok exp'" "list_all line_ok act"
  shows "list_all (\<lambda>l. take 2 l = [32, 32])
      (text_lines (concat (map (\<lambda>i. diff_entry (get_line exp' i) (get_line act i)) is))) \<longleftrightarrow>
    (\<forall>i \<in> set is. get_line exp' i = get_line act i)"
  by (induction "is")
    (simp_all add: diff_entry_marks [OF get_line_line_ok [OF assms(1)] get_line_line_ok [OF assms(2)]])

lemma get_line_ext:
  "(\<forall>i < max (length xs) (length ys). get_line xs i = get_line ys i) \<longleftrightarrow> xs = ys"
proof
  assume eq: "\<forall>i < max (length xs) (length ys). get_line xs i = get_line ys i"
  have len: "\<not> length xs < length ys" "\<not> length ys < length xs"
    using eq [rule_format, of "length xs"] eq [rule_format, of "length ys"]
    by (auto simp: get_line_def split: if_splits)
  show "xs = ys"
  proof (rule nth_equalityI)
    show "length xs = length ys" using len by simp
    fix i assume "i < length xs"
    with len eq [rule_format, of i] show "xs ! i = ys ! i" by (simp add: get_line_def)
  qed
qed simp

lemma line_diff_unmarked:
  assumes "line_diff expected actual = Some d" "13 \<notin> set expected" "13 \<notin> set actual"
  shows "list_all (\<lambda>l. take 2 l = [32, 32]) (text_lines d) \<longleftrightarrow> text_lines expected = text_lines actual"
  using assms get_line_ext [of "text_lines expected" "text_lines actual"]
  by (auto simp: line_diff_def Let_def foldl_append_concat diff_entries_marks text_lines_line_ok
      atLeast0LessThan split: if_splits)

subsection \<open>Properties of the diff\<close>

text \<open>C22. What the line diff tells, for texts without carriage returns. It is \<open>None\<close> exactly for equal
  texts. From any other diff the lines of the expected text can be read under the two unchanged
  and \<open>-\<close> marks and those of the actual text under the unchanged and \<open>+\<close> marks, in order, and a
  text that ends in a line feed (as the renderings do) is read back whole. What the lines do
  not hold is lost: the diff shows unchanged lines only exactly when one text is the other with
  its unfinished last line closed by a line feed, as for \<open>a\<close> and \<open>a\<close> with a line feed.\<close>

theorem line_diff_exact:
  assumes "13 \<notin> set expected" "13 \<notin> set actual"
  shows "case line_diff expected actual of
      None \<Rightarrow> expected = actual
    | Some d \<Rightarrow> expected \<noteq> actual \<and>
        diff_side 45 d = text_lines expected \<and> diff_side 43 d = text_lines actual \<and>
        (unlines (diff_side 45 d) = expected \<longleftrightarrow> closed expected) \<and>
        (unlines (diff_side 43 d) = actual \<longleftrightarrow> closed actual) \<and>
        (list_all (\<lambda>l. take 2 l = lit ''  '') (text_lines d) \<longleftrightarrow>
          \<not> closed expected \<and> actual = expected @ [10] \<or>
          \<not> closed actual \<and> expected = actual @ [10])"
proof (cases "line_diff expected actual")
  case None
  with line_diff_None [of expected actual] have "expected = actual" by blast
  with None show ?thesis by simp
next
  case (Some d)
  note sides = line_diff_sides [OF Some assms]
  have "list_all (\<lambda>l. take 2 l = [32, 32]) (text_lines d) \<longleftrightarrow>
      \<not> closed expected \<and> actual = expected @ [10] \<or> \<not> closed actual \<and> expected = actual @ [10]"
    unfolding line_diff_unmarked [OF Some assms] text_lines_eq [OF assms] using sides by simp
  then show ?thesis
    using Some sides by (simp add: unlines_text_lines [OF assms(1)] unlines_text_lines [OF assms(2)])
qed

theorem line_diff_exact_witness:
  "(\<exists>d. line_diff (lit ''a'' @ [10] @ lit ''b'') (lit ''a'' @ [10] @ lit ''c'') = Some d \<and>
     diff_side 45 d = [lit ''a'', lit ''b''] \<and> diff_side 43 d = [lit ''a'', lit ''c'']) \<and>
   (\<exists>d. line_diff (lit ''a'') (lit ''a'' @ [10]) = Some d \<and>
     list_all (\<lambda>l. take 2 l = lit ''  '') (text_lines d))"
  using line_diff_exact [of "lit ''a'' @ [10] @ lit ''b''" "lit ''a'' @ [10] @ lit ''c''"]
    line_diff_exact [of "lit ''a''" "lit ''a'' @ [10]"]
  by (simp add: line_diff_def text_lines_def strip_cr_def strip_suffix_def closed_def Let_def)

end
