(* ===== verification/Test_Rendering.thy ===== *)
theory Test_Rendering
  imports Test_Support "HOL-Library.Multiset" "HOL-Library.Countable"
begin

text \<open>
  The renderings of \<open>src/test_support.rs\<close>: a host value, the events of the last invocation,
  and the ledger.  XDR encodings and the \<open>Debug\<close> texts come from the SDK and the standard
  library and are parameters.  The properties say that the renderings lose nothing.
\<close>

subsection \<open>Text\<close>

fun join :: "ustr \<Rightarrow> ustr list \<Rightarrow> ustr" where
  "join sep [] = []"
| "join sep [x] = x"
| "join sep (x # y # r) = x @ sep @ join sep (y # r)"

definition display_bool :: "bool \<Rightarrow> ustr" where
  "display_bool b = (if b then lit ''true'' else lit ''false'')"

subsection \<open>Host values\<close>

text \<open>The variants of \<open>ScVal\<close> the match names; \<open>ScOther\<close> stands for the rest, by
  discriminant.  A 128-bit integer is its high and its low half.\<close>

datatype ScVal =
    ScBool bool
  | ScVoid
  | ScU32 u32
  | ScI32 "32 word"
  | ScU64 u64
  | ScI64 "64 word"
  | ScI128 "64 word" u64
  | ScU128 u64 u64
  | ScSymbol ustr
  | ScString "u8 list"
  | ScBytes "u8 list"
  | ScAddress Address
  | ScVec "ScVal list option"
  | ScMap "(ScVal \<times> ScVal) list option"
  | ScOther nat

definition i128_of :: "64 word \<Rightarrow> u64 \<Rightarrow> i128" where
  "i128_of hi lo = push_bit 64 (scast hi) OR ucast lo"

definition u128_of :: "u64 \<Rightarrow> u64 \<Rightarrow> 128 word" where
  "u128_of hi lo = push_bit 64 (ucast hi) OR ucast lo"

text \<open>\<open>dbg_str\<close> is the \<open>Debug\<close> text of the lossy decoding of a string, \<open>dbg\<close> the \<open>Debug\<close>
  text of a value.  The keys of a map are rendered without the prefix of a symbol.\<close>

fun render_scval :: "(u8 list \<Rightarrow> ustr) \<Rightarrow> (ScVal \<Rightarrow> ustr) \<Rightarrow> ScVal \<Rightarrow> ustr" where
  "render_scval dbg_str dbg (ScBool b) = display_bool b"
| "render_scval dbg_str dbg ScVoid = lit ''void''"
| "render_scval dbg_str dbg (ScU32 n) = lit ''u32:'' @ display_int (uint n)"
| "render_scval dbg_str dbg (ScI32 n) = lit ''i32:'' @ display_int (sint n)"
| "render_scval dbg_str dbg (ScU64 n) = lit ''u64:'' @ display_int (uint n)"
| "render_scval dbg_str dbg (ScI64 n) = lit ''i64:'' @ display_int (sint n)"
| "render_scval dbg_str dbg (ScI128 hi lo) = lit ''i128:'' @ display_int (sint (i128_of hi lo))"
| "render_scval dbg_str dbg (ScU128 hi lo) = lit ''u128:'' @ display_int (uint (u128_of hi lo))"
| "render_scval dbg_str dbg (ScSymbol s) = lit ''sym:'' @ s"
| "render_scval dbg_str dbg (ScString s) = lit ''str:'' @ dbg_str s"
| "render_scval dbg_str dbg (ScBytes b) = lit ''bytes:'' @ hex b"
| "render_scval dbg_str dbg (ScAddress a) = lit ''addr:'' @ lit a"
| "render_scval dbg_str dbg (ScVec (Some items)) =
     lit ''['' @ join (lit '', '') (map (render_scval dbg_str dbg) items) @ lit '']''"
| "render_scval dbg_str dbg (ScMap (Some entries)) =
     lit ''{'' @ join (lit '', '') (map (\<lambda>(k, v).
       (case k of ScSymbol s \<Rightarrow> s | other \<Rightarrow> render_scval dbg_str dbg other) @ lit '': '' @
       render_scval dbg_str dbg v) entries) @ lit ''}''"
| "render_scval dbg_str dbg other = dbg other"

lemma or_push_bit:
  assumes "0 \<le> b" "b < 2 ^ 64"
  shows "push_bit 64 a OR b = a * 2 ^ 64 + (b :: int)"
proof -
  from assms have b: "take_bit 64 b = b" by (simp add: take_bit_int_eq_self_iff)
  have "push_bit 64 a OR b = concat_bit 64 b a" by (simp add: concat_bit_def b or.commute)
  also have "\<dots> = a * 2 ^ 64 + b" by (simp add: concat_bit_eq b push_bit_eq_mult)
  finally show ?thesis .
qed

lemma uint64_range: "0 \<le> uint (n :: u64)" "uint (n :: u64) < 2 ^ 64"
  using uint_range_size [of n] by (simp_all add: word_size)

lemma halves_bounds:
  fixes a b :: int
  assumes "- 9223372036854775808 \<le> a" "a < 9223372036854775808" "0 \<le> b" "b < 18446744073709551616"
  shows "- 170141183460469231731687303715884105728 \<le> a * 18446744073709551616 + b"
    and "a * 18446744073709551616 + b < 170141183460469231731687303715884105728"
  using assms by linarith+

lemma sint_word_of_int128:
  "- (2 ^ 127) \<le> x \<Longrightarrow> x < 2 ^ 127 \<Longrightarrow> sint (word_of_int x :: i128) = x"
  by (simp add: signed_of_int signed_take_bit_int_eq_self)

lemma sint_i128_of: "sint (i128_of hi lo) = sint hi * 2 ^ 64 + uint lo"
proof -
  have "i128_of hi lo = word_of_int (push_bit 64 (sint hi) OR uint lo)"
    unfolding i128_of_def by transfer simp
  then have w: "i128_of hi lo = word_of_int (sint hi * 2 ^ 64 + uint lo)"
    by (simp only: or_push_bit [OF uint64_range])
  have "- 9223372036854775808 \<le> sint hi" "sint hi < 9223372036854775808"
    using sint_range_size [of hi] by (simp_all add: word_size)
  moreover have "0 \<le> uint lo" "uint lo < 18446744073709551616"
    using uint64_range [of lo] by simp_all
  ultimately have "- (2 ^ 127) \<le> sint hi * 2 ^ 64 + uint lo \<and> sint hi * 2 ^ 64 + uint lo < 2 ^ 127"
    using halves_bounds [of "sint hi" "uint lo"] by simp
  then show ?thesis unfolding w by (intro sint_word_of_int128) simp_all
qed

subsection \<open>Events\<close>

record EmittedEvent =
  em_topics :: "ScVal list"
  em_data :: ScVal

record Renderer =
  xdr :: "ScVal \<Rightarrow> u8 list"
  debug_str :: "u8 list \<Rightarrow> ustr"
  debug :: "ScVal \<Rightarrow> ustr"

definition xdr_hex :: "Renderer \<Rightarrow> ScVal \<Rightarrow> ustr" where
  "xdr_hex r v = hex (xdr r v)"

definition render_event :: "Renderer \<Rightarrow> EmittedEvent \<Rightarrow> ustr list" where
  "render_event r e =
     (let show = render_scval (debug_str r) (debug r) in
      [lit ''topics: ['' @ join (lit '', '') (map show (em_topics e)) @ lit '']'',
       lit ''data:   '' @ show (em_data e),
       lit ''xdr:    '' @ xdr_hex r (ScVec (Some (em_topics e))) @ lit ''|'' @ xdr_hex r (em_data e)])"

definition render_last_events :: "Renderer \<Rightarrow> EmittedEvent list \<Rightarrow> ustr list" where
  "render_last_events r evs = concat (map (render_event r) evs)"

lemma hex_separated:
  assumes "hex a @ c # t = hex b @ c # t'" "\<not> (48 \<le> c \<and> c \<le> 57)" "\<not> (97 \<le> c \<and> c \<le> 102)"
  shows "a = b \<and> t = t'"
proof -
  have "c \<notin> set (hex a)" "c \<notin> set (hex b)" using hex_chars assms(2,3) by blast+
  with split_once_at assms(1) have "Some (hex a, t) = Some (hex b, t')" by metis
  then show ?thesis by (simp add: hex_inj)
qed

lemma render_event_exact:
  assumes "inj (xdr r)"
  shows "render_event r e = render_event r e' \<longleftrightarrow> e = e'"
proof
  assume "render_event r e = render_event r e'"
  then have "hex (xdr r (ScVec (Some (em_topics e)))) @ 124 # hex (xdr r (em_data e)) =
    hex (xdr r (ScVec (Some (em_topics e')))) @ 124 # hex (xdr r (em_data e'))"
    by (simp add: render_event_def xdr_hex_def Let_def)
  from hex_separated [OF this] have "xdr r (ScVec (Some (em_topics e))) = xdr r (ScVec (Some (em_topics e')))"
    "xdr r (em_data e) = xdr r (em_data e')" by (simp_all add: hex_inj)
  with assms show "e = e'" by (simp add: inj_eq)
qed simp

lemma render_event_length: "length (render_event r e) = 3"
  by (simp add: render_event_def Let_def)

lemma render_last_events_Cons: "render_last_events r (e # es) = render_event r e @ render_last_events r es"
  by (simp add: render_last_events_def)

lemma render_last_events_inj:
  assumes "inj (xdr r)"
  shows "render_last_events r es = render_last_events r es' \<longleftrightarrow> es = es'"
proof (induction es arbitrary: es')
  case Nil
  show ?case
    by (cases es') (auto simp: render_last_events_def render_event_def Let_def)
next
  case (Cons e es)
  show ?case
  proof (cases es')
    case Nil
    then show ?thesis by (simp add: render_last_events_def render_event_def Let_def)
  next
    case (Cons e2 es2)
    then show ?thesis
      using Cons.IH [of es2] render_event_exact [OF assms, of e e2]
      by (simp add: render_last_events_Cons append_eq_append_conv render_event_length)
  qed
qed

subsection \<open>The ledger\<close>

text \<open>A row of the snapshot: the encodings of the key and of the entry, and the ledger the
  entry lives until.  The order of the host's map is the order of the list.\<close>

record LedgerRow =
  row_key :: "u8 list"
  row_entry :: "u8 list"
  live_until :: "u32 option"

definition render_ttl :: "u32 option \<Rightarrow> ustr" where
  "render_ttl l = (case l of Some n \<Rightarrow> digits (unat n) | None \<Rightarrow> lit ''none'')"

definition render_row :: "LedgerRow \<Rightarrow> ustr" where
  "render_row row =
     hex (row_key row) @ lit '' => '' @ hex (row_entry row) @ lit '' ttl='' @ render_ttl (live_until row)"

definition render_ledger_state :: "LedgerRow list \<Rightarrow> ustr list" where
  "render_ledger_state entries = sort (map render_row entries)"

lemma digits_inj: "digits m = digits n \<longleftrightarrow> m = n"
  by (metis digits_value_digits)

lemma none_not_digits: "lit ''none'' \<noteq> digits n"
proof
  assume "lit ''none'' = digits n"
  then have "set (digits n) = set (lit ''none'')" by simp
  then have "110 \<in> set (digits n)" by simp
  with digits_range show False by fastforce
qed

lemma render_ttl_inj: "render_ttl l = render_ttl l' \<longleftrightarrow> l = l'"
  using none_not_digits none_not_digits [symmetric]
  by (auto simp: render_ttl_def digits_inj word_unat_eq_iff split: option.splits)

lemma render_row_inj: "render_row r = render_row r' \<longleftrightarrow> r = r'"
proof
  assume "render_row r = render_row r'"
  then have "hex (row_key r) @ 32 # 61 # 62 # 32 # hex (row_entry r) @ 32 # lit ''ttl='' @ render_ttl (live_until r) =
    hex (row_key r') @ 32 # 61 # 62 # 32 # hex (row_entry r') @ 32 # lit ''ttl='' @ render_ttl (live_until r')"
    by (simp add: render_row_def)
  from hex_separated [OF this]
  have k: "row_key r = row_key r'"
    and "hex (row_entry r) @ 32 # lit ''ttl='' @ render_ttl (live_until r) =
      hex (row_entry r') @ 32 # lit ''ttl='' @ render_ttl (live_until r')" by simp_all
  from hex_separated [OF this(2)] k show "r = r'" by (simp add: render_ttl_inj)
qed simp

lemma sort_eq_iff_mset: "sort xs = sort ys \<longleftrightarrow> mset xs = mset ys"
  by (metis mset_sort sorted_list_of_multiset_mset)

lemma mset_map_inj: "inj f \<Longrightarrow> mset (map f xs) = mset (map f ys) \<longleftrightarrow> mset xs = mset ys"
  by (metis (no_types, lifting) inv_o_cancel list.map_comp list.map_id mset_map)

lemma render_ledger_state_inj:
  "render_ledger_state s = render_ledger_state s' \<longleftrightarrow> mset s = mset s'"
  unfolding render_ledger_state_def sort_eq_iff_mset
  by (rule mset_map_inj) (simp add: inj_def render_row_inj)

subsection \<open>Properties\<close>

text \<open>C15. The renderings lose nothing.  Hexadecimal text can be read back, and only the
  text of a byte list is read; two event logs with the same rendering are the same log, when
  the encoding of values is injective; two ledgers have the same rendering exactly when they
  hold the same rows, in whatever order the host listed them.\<close>

theorem renderings_exact:
  assumes "inj (xdr r)"
  shows "unhex (hex bs) = Some bs \<and> (unhex t = Some bs \<longrightarrow> hex bs = t) \<and>
    (render_last_events r es = render_last_events r es' \<longleftrightarrow> es = es') \<and>
    (render_ledger_state s = render_ledger_state s' \<longleftrightarrow> mset s = mset s')"
  using render_last_events_inj [OF assms] by (auto simp: unhex_hex hex_unhex render_ledger_state_inj)

text \<open>An injective encoding for the witness.\<close>

instance ScVal :: countable by countable_datatype

definition example_renderer :: Renderer where
  "example_renderer = \<lparr>xdr = (\<lambda>v. replicate (to_nat v) 0), debug_str = map unat, debug = (\<lambda>_. [])\<rparr>"

lemma example_renderer_inj: "inj (xdr example_renderer)"
  by (auto simp: inj_def example_renderer_def replicate_eq_replicate)

theorem renderings_exact_witness:
  "render_last_events example_renderer [\<lparr>em_topics = [ScSymbol (lit ''reg'')], em_data = ScU64 1\<rparr>] \<noteq>
     render_last_events example_renderer [\<lparr>em_topics = [ScSymbol (lit ''reg'')], em_data = ScU64 2\<rparr>] \<and>
   render_ledger_state [\<lparr>row_key = [1], row_entry = [2], live_until = None\<rparr>,
       \<lparr>row_key = [0], row_entry = [3], live_until = Some 7\<rparr>] =
     render_ledger_state [\<lparr>row_key = [0], row_entry = [3], live_until = Some 7\<rparr>,
       \<lparr>row_key = [1], row_entry = [2], live_until = None\<rparr>]"
  using renderings_exact [OF example_renderer_inj] by simp

text \<open>A 128-bit integer is rendered as the integer its halves stand for.\<close>

theorem render_i128_exact:
  "render_scval ds d (ScI128 hi lo) = lit ''i128:'' @ display_int (sint hi * 2 ^ 64 + uint lo)"
  by (simp add: sint_i128_of del: lit_simps)

end
