(* ===== verification/Profile_Trace.thy ===== *)
theory Profile_Trace
  imports Test_Rendering "HOL-Library.Sublist"
begin

text \<open>
  The trace recorder of \<open>src/test_profile_diff.rs\<close>: what is written down of every call and
  at the end, and that the trace, and the line diff of two traces, cannot miss a divergence
  of the final ledger.
\<close>

record Trace =
  lines :: "ustr list"
  step :: u32

definition new_trace :: Trace where
  "new_trace = \<lparr>lines = [], step = 0\<rparr>"

text \<open>\<open>{:03}\<close>, \<open>{:016x}\<close> and \<open>as_bytes\<close>, the latter on the ASCII text the renderings are.\<close>

definition zero_padded :: "nat \<Rightarrow> ustr \<Rightarrow> ustr" where
  "zero_padded w t = replicate (w - length t) 48 @ t"

definition hex64 :: "u64 \<Rightarrow> ustr" where
  "hex64 h = map (\<lambda>i. hex_digit (unat h div 16 ^ i mod 16)) (rev [0..<16])"

definition as_bytes :: "ustr \<Rightarrow> u8 list" where
  "as_bytes t = map word_of_nat t"

text \<open>What the recorder observes of the environment after a call: the events of the call
  and the ledger.  The increment of the \<open>u32\<close> counter traps on overflow.\<close>

record Observed =
  ob_events :: "EmittedEvent list"
  ob_ledger :: "LedgerRow list"

definition record_call ::
    "Renderer \<Rightarrow> Trace \<Rightarrow> Observed \<Rightarrow> ustr \<Rightarrow> ustr \<Rightarrow> bool \<Rightarrow> Trace host" where
  "record_call r t env name result succeeded = do {
     n \<leftarrow> incr32 (step t);
     let call = [lit ''#'' @ zero_padded 3 (digits (unat n)) @ lit '' '' @ name @ lit '' => '' @ result];
         evs = (if succeeded then map (\<lambda>l. lit ''    '' @ l) (render_last_events r (ob_events env)) else []);
         state = join [10] (render_ledger_state (ob_ledger env))
     in Some \<lparr>lines = lines t @ call @ evs @ [lit ''    state: '' @ hex64 (fnv1a64 (as_bytes state))],
              step = n\<rparr> }"

definition finish :: "Trace \<Rightarrow> Observed \<Rightarrow> ustr" where
  "finish t env =
     join [10] (lines t @ [lit ''steps: '' @ digits (unat (step t)), lit ''final ledger state:''] @
       map (\<lambda>row. lit ''    '' @ row) (render_ledger_state (ob_ledger env))) @ [10]"

text \<open>A contract whose storage depends on the build profile but whose result does not.\<close>

definition probe :: "bool \<Rightarrow> ('k \<rightharpoonup> bool) \<Rightarrow> 'k \<Rightarrow> u32 \<times> ('k \<rightharpoonup> bool)" where
  "probe debug_assertions instance' dbg =
     (7, if debug_assertions then instance'(dbg \<mapsto> True) else instance')"

subsection \<open>Texts as lists of lines\<close>

lemma join_unlines: "ls \<noteq> [] \<Longrightarrow> join [10] ls @ [10] = unlines ls"
  by (induction "[10] :: ustr" ls rule: join.induct) (simp_all add: unlines_def)

lemma text_lines_unlines_ok: "list_all line_ok ls \<Longrightarrow> text_lines (unlines ls) = ls"
  by (rule text_lines_unlines) (auto simp: list_all_iff line_ok_def plain_def strip_cr_none)

lemma unlines_line_ok: "list_all line_ok ls \<Longrightarrow> 13 \<notin> set (unlines ls)"
  by (induction ls) (auto simp: unlines_def line_ok_def)

lemma hex_line_ok: "line_ok (hex bs)"
  using hex_chars by (fastforce simp: line_ok_def)

lemma digits_line_ok: "line_ok (digits n)"
  using digits_range by (fastforce simp: line_ok_def)

lemma render_row_line_ok: "line_ok (render_row row)"
  using hex_line_ok [of "row_key row"] hex_line_ok [of "row_entry row"] digits_line_ok
  by (auto simp: render_row_def render_ttl_def line_ok_def split: option.splits)

definition final_lines :: "Trace \<Rightarrow> Observed \<Rightarrow> ustr list" where
  "final_lines t env = lines t @ [lit ''steps: '' @ digits (unat (step t)), lit ''final ledger state:''] @
     map (\<lambda>row. lit ''    '' @ row) (render_ledger_state (ob_ledger env))"

lemma finish_unlines: "finish t env = unlines (final_lines t env)"
  by (simp add: finish_def final_lines_def join_unlines)

lemma final_lines_line_ok:
  assumes "list_all line_ok (lines t)"
  shows "list_all line_ok (final_lines t env)"
proof -
  have "list_all line_ok (map (\<lambda>row. lit ''    '' @ row) (render_ledger_state (ob_ledger env)))"
    using render_row_line_ok by (auto simp: list_all_iff render_ledger_state_def line_ok_def)
  with assms digits_line_ok [of "unat (step t)"] show ?thesis
    by (simp add: final_lines_def) (simp add: line_ok_def)
qed

lemma text_lines_finish:
  "list_all line_ok (lines t) \<Longrightarrow> text_lines (finish t env) = final_lines t env"
  by (simp add: finish_unlines text_lines_unlines_ok final_lines_line_ok)

subsection \<open>Reading a trace\<close>

text \<open>The last header line separates the calls from the ledger.\<close>

lemma last_separator:
  assumes "xs @ h # ys = xs' @ h # ys'" "h \<notin> set ys" "h \<notin> set ys'"
  shows "xs = xs' \<and> ys = ys'"
proof -
  from assms(1) have "rev ys @ h # rev xs = rev ys' @ h # rev xs'"
    by (metis append.assoc append_Cons append_Nil rev.simps(2) rev_append)
  moreover have "takeWhile (\<lambda>l. l \<noteq> h) (rev zs @ h # ws) = rev zs" if "h \<notin> set zs" for zs ws
    using that by (induction zs rule: rev_induct) auto
  ultimately have "ys = ys'" using assms(2,3) by (metis rev_rev_ident)
  with assms(1) show ?thesis by simp
qed

lemma map_append_inj: "map (\<lambda>row. p @ row) xs = map (\<lambda>row. p @ row) ys \<longleftrightarrow> xs = ys"
  by (rule inj_map_eq_map) (simp add: inj_def)

lemma final_lines_inj:
  assumes "final_lines t env = final_lines t' env'"
  shows "lines t = lines t' \<and> step t = step t' \<and> mset (ob_ledger env) = mset (ob_ledger env')"
proof -
  let ?rows = "\<lambda>e. map (\<lambda>row. lit ''    '' @ row) (render_ledger_state (ob_ledger e))"
  have h: "lit ''final ledger state:'' \<notin> set (?rows e)" for e by auto
  from assms have "(lines t @ [lit ''steps: '' @ digits (unat (step t))]) @ lit ''final ledger state:'' # ?rows env =
    (lines t' @ [lit ''steps: '' @ digits (unat (step t'))]) @ lit ''final ledger state:'' # ?rows env'"
    by (simp add: final_lines_def del: lit_simps)
  from last_separator [OF this h h]
  have s: "lines t @ [lit ''steps: '' @ digits (unat (step t))] =
      lines t' @ [lit ''steps: '' @ digits (unat (step t'))]"
    and r: "?rows env = ?rows env'" by blast+
  from s have "lines t = lines t'" "digits (unat (step t)) = digits (unat (step t'))"
    by (simp_all del: lit_simps)
  moreover from r have "mset (ob_ledger env) = mset (ob_ledger env')"
    by (simp only: map_append_inj render_ledger_state_inj)
  ultimately show ?thesis by (simp add: digits_inj word_unat_eq_iff)
qed

lemma finish_inj:
  assumes "list_all line_ok (lines t)" "list_all line_ok (lines t')" "finish t env = finish t' env'"
  shows "lines t = lines t' \<and> step t = step t' \<and> mset (ob_ledger env) = mset (ob_ledger env')"
  using assms text_lines_finish final_lines_inj by metis

lemma filter_subseq: "(\<And>x. x \<in> set xs \<Longrightarrow> P x \<Longrightarrow> Q x) \<Longrightarrow> subseq (filter P xs) (filter Q xs)"
  by (induction xs) auto

text \<open>A diff in which nothing was added shows a subsequence of the expected lines.\<close>

lemma plus_line:
  assumes "line_diff e a = Some d" "13 \<notin> set e" "13 \<notin> set a"
    and "length (text_lines e) \<le> length (text_lines a)" "text_lines e \<noteq> text_lines a"
  shows "\<exists>l \<in> set (text_lines d). take 2 l = [43, 32]"
proof (rule ccontr)
  assume "\<not> ?thesis"
  then have "subseq (filter (has_mark 43) (text_lines d)) (filter (has_mark 45) (text_lines d))"
    by (intro filter_subseq) (auto simp: has_mark_def)
  then have "subseq (diff_side 43 d) (diff_side 45 d)"
    unfolding diff_side_def by (rule subseq_map)
  moreover from line_diff_sides [OF assms(1-3)]
  have "diff_side 45 d = text_lines e" "diff_side 43 d = text_lines a" by blast+
  ultimately have "subseq (text_lines a) (text_lines e)" by simp
  with assms(4,5) show False
    by (metis list_emb_length le_antisym subseq_same_length)
qed

lemma finish_eq_iff:
  assumes "list_all line_ok (lines t)" "list_all line_ok (lines t')"
  shows "finish t env = finish t' env' \<longleftrightarrow>
    lines t = lines t' \<and> step t = step t' \<and> mset (ob_ledger env) = mset (ob_ledger env')"
proof
  assume "lines t = lines t' \<and> step t = step t' \<and> mset (ob_ledger env) = mset (ob_ledger env')"
  then show "finish t env = finish t' env'"
    by (simp add: finish_def render_ledger_state_inj [symmetric])
qed (rule finish_inj [OF assms])

lemma finish_plus_line:
  assumes "list_all line_ok (lines t)" "mset (ob_ledger env) \<noteq> mset (ob_ledger env'')"
    "length (ob_ledger env) \<le> length (ob_ledger env'')"
  shows "\<exists>d. line_diff (finish t env) (finish t env'') = Some d \<and>
    list_ex (\<lambda>l. take 2 l = lit ''+ '') (text_lines d)"
proof -
  let ?e = "finish t env" and ?a = "finish t env''"
  have p: "13 \<notin> set ?e" "13 \<notin> set ?a"
    by (simp_all add: finish_unlines unlines_line_ok final_lines_line_ok assms(1))
  have tl: "text_lines ?e = final_lines t env" "text_lines ?a = final_lines t env''"
    by (simp_all add: text_lines_finish assms(1))
  have ne: "final_lines t env \<noteq> final_lines t env''" using final_lines_inj assms(2) by blast
  have le: "length (final_lines t env) \<le> length (final_lines t env'')"
    using assms(3) by (simp add: final_lines_def render_ledger_state_def)
  from ne tl have "?e \<noteq> ?a" by metis
  then obtain d where d: "line_diff ?e ?a = Some d" using line_diff_None by fastforce
  from plus_line [OF d p] ne le tl show ?thesis using d by (auto simp: list_ex_iff)
qed

subsection \<open>Properties\<close>

text \<open>C10. The trace misses no divergence.  When the calls were recorded on lines of their own,
  two traces are the same text exactly when they recorded the same calls and the final
  ledgers hold the same rows; and when only the ledger differs, with no row lost, the line
  diff of the two traces shows an added line.\<close>

theorem trace_detects_divergence:
  assumes "list_all line_ok (lines t)" "list_all line_ok (lines t')"
  shows "(finish t env = finish t' env' \<longleftrightarrow>
      lines t = lines t' \<and> step t = step t' \<and> mset (ob_ledger env) = mset (ob_ledger env')) \<and>
    (mset (ob_ledger env) \<noteq> mset (ob_ledger env'') \<longrightarrow>
      length (ob_ledger env) \<le> length (ob_ledger env'') \<longrightarrow>
      (\<exists>d. line_diff (finish t env) (finish t env'') = Some d \<and>
        list_ex (\<lambda>l. take 2 l = lit ''+ '') (text_lines d)))"
  using finish_eq_iff [OF assms] finish_plus_line [OF assms(1)] by blast

theorem trace_detects_divergence_witness:
  "finish \<lparr>lines = [lit ''#001 probe => 7''], step = 1\<rparr> \<lparr>ob_events = [], ob_ledger = []\<rparr> \<noteq>
     finish \<lparr>lines = [lit ''#001 probe => 7''], step = 1\<rparr>
       \<lparr>ob_events = [], ob_ledger = [\<lparr>row_key = [1], row_entry = [2], live_until = None\<rparr>]\<rparr> \<and>
   (\<exists>d. line_diff (finish \<lparr>lines = [lit ''#001 probe => 7''], step = 1\<rparr> \<lparr>ob_events = [], ob_ledger = []\<rparr>)
        (finish \<lparr>lines = [lit ''#001 probe => 7''], step = 1\<rparr>
          \<lparr>ob_events = [], ob_ledger = [\<lparr>row_key = [1], row_entry = [2], live_until = None\<rparr>]\<rparr>) = Some d \<and>
      list_ex (\<lambda>l. take 2 l = lit ''+ '') (text_lines d))"
proof -
  let ?t = "\<lparr>lines = [lit ''#001 probe => 7''], step = 1\<rparr>"
  let ?a = "\<lparr>ob_events = [], ob_ledger = []\<rparr>"
  let ?b = "\<lparr>ob_events = [], ob_ledger = [\<lparr>row_key = [1], row_entry = [2], live_until = None\<rparr>]\<rparr>"
  have p: "list_all line_ok (lines ?t)" by (simp add: line_ok_def)
  show ?thesis
    using trace_detects_divergence [OF p p, of ?a ?b ?b] by simp
qed

subsection \<open>One call\<close>

lemma nibbles_determine:
  "(\<And>i. i < n \<Longrightarrow> a div 16 ^ i mod 16 = (b :: nat) div 16 ^ i mod 16) \<Longrightarrow> a mod 16 ^ n = b mod 16 ^ n"
proof (induction n)
  case (Suc n)
  then have "a mod 16 ^ n = b mod 16 ^ n" "a div 16 ^ n mod 16 = b div 16 ^ n mod 16" by simp_all
  then show ?case by (simp add: mod_mult2_eq mult.commute [of 16])
qed simp

lemma hex_digit_inj: "a < 16 \<Longrightarrow> b < 16 \<Longrightarrow> hex_digit a = hex_digit b \<Longrightarrow> a = b"
  by (metis unhex_hex_digit option.inject)

lemma hex64_inj: "hex64 h = hex64 h' \<longleftrightarrow> h = h'"
proof
  assume "hex64 h = hex64 h'"
  then have eq: "\<forall>i \<in> set (rev [0..<16]). hex_digit (unat h div 16 ^ i mod 16) = hex_digit (unat h' div 16 ^ i mod 16)"
    unfolding hex64_def by (rule map_eq_conv [THEN iffD1])
  have "unat h div 16 ^ i mod 16 = unat h' div 16 ^ i mod 16" if "i < 16" for i
  proof (rule hex_digit_inj)
    from that have "i \<in> set (rev [0..<16])" by (simp only: set_rev set_upt atLeastLessThan_iff zero_le)
    with eq show "hex_digit (unat h div 16 ^ i mod 16) = hex_digit (unat h' div 16 ^ i mod 16)" by (rule bspec)
  qed (rule mod_less_divisor, simp)+
  then have "unat h mod 16 ^ 16 = unat h' mod 16 ^ 16" by (rule nibbles_determine)
  moreover have "unat h < 16 ^ 16" "unat h' < 16 ^ 16"
    using unsigned_less [of h] unsigned_less [of h'] by simp_all
  ultimately show "h = h'" by (simp only: mod_less word_unat_eq_iff)
qed simp

text \<open>A recorded call shows its result and its events, and two ledgers that were recorded
  alike have the same digest; the counter traps only after \<open>2 ^ 32 - 1\<close> calls.\<close>

theorem record_call_exact:
  assumes "inj (xdr r)" "step t \<noteq> - 1"
  shows "record_call r t env name res True = record_call r t env' name res' True \<longleftrightarrow>
    res = res' \<and> ob_events env = ob_events env' \<and>
    fnv1a64 (as_bytes (join [10] (render_ledger_state (ob_ledger env)))) =
      fnv1a64 (as_bytes (join [10] (render_ledger_state (ob_ledger env'))))"
  using assms(2)
  by (auto simp: record_call_def incr32_def Let_def map_append_inj render_last_events_inj [OF assms(1)]
      hex64_inj simp del: lit_simps)

theorem record_call_exact_witness:
  "record_call example_renderer new_trace \<lparr>ob_events = [], ob_ledger = []\<rparr> (lit ''health'') (lit ''Ok'') True \<noteq>
   record_call example_renderer new_trace
     \<lparr>ob_events = [\<lparr>em_topics = [], em_data = ScVoid\<rparr>], ob_ledger = []\<rparr> (lit ''health'') (lit ''Ok'') True"
  using record_call_exact [OF example_renderer_inj, of new_trace] by (simp add: new_trace_def)

end
