(* ===== verification/Text_Scan.thy ===== *)
theory Text_Scan
  imports Rust_Text "HOL-Library.Sublist"
begin

text \<open>
  The \<open>str\<close> methods the scanners of the documentation tests use (prefixes, splitting at a
  separator, trimming one character), ordered sets of strings, and the facts that read a
  printed line back.
\<close>

subsection \<open>The \<open>str\<close> methods\<close>

definition strip_str :: "ustr \<Rightarrow> ustr \<Rightarrow> ustr option" where
  "strip_str p t = (if prefix p t then Some (drop (length p) t) else None)"

text \<open>\<open>split(c)\<close>: the pieces between the separators, at least one.\<close>

fun split_on :: "nat \<Rightarrow> ustr \<Rightarrow> ustr list" where
  "split_on c [] = [[]]"
| "split_on c (x # xs) =
     (if x = c then [] # split_on c xs
      else case split_on c xs of [] \<Rightarrow> [[x]] | p # ps \<Rightarrow> (x # p) # ps)"

definition trim_start :: "ustr \<Rightarrow> ustr" where
  "trim_start t = dropWhile is_whitespace t"

definition trim_end_matches :: "nat \<Rightarrow> ustr \<Rightarrow> ustr" where
  "trim_end_matches c t = rev (dropWhile (\<lambda>x. x = c) (rev t))"

definition trim_matches :: "nat \<Rightarrow> ustr \<Rightarrow> ustr" where
  "trim_matches c t = trim_end_matches c (dropWhile (\<lambda>x. x = c) t)"

text \<open>\<open>contains(&str)\<close>.\<close>

definition contains_str :: "ustr \<Rightarrow> ustr \<Rightarrow> bool" where
  "contains_str p t \<longleftrightarrow> list_ex (prefix p) (suffixes t)"

subsection \<open>Facts about the methods\<close>

lemma strip_str_append [simp]: "strip_str p (p @ t) = Some t"
  by (simp add: strip_str_def)

lemma strip_str_Some: "strip_str p l = Some t \<longleftrightarrow> l = p @ t"
  by (auto simp: strip_str_def prefix_def)

lemma split_on_nonempty [simp]: "split_on c t \<noteq> []"
  by (cases t) (auto split: list.splits)

lemma split_on_join: "c \<notin> set a \<Longrightarrow> split_on c (a @ c # b) = a # split_on c b"
  by (induction a) simp_all

lemma split_on_none: "c \<notin> set a \<Longrightarrow> split_on c a = [a]"
  by (induction a) simp_all

lemma contains_strI: "contains_str p (a @ p @ b)"
proof -
  have "p @ b \<in> set (suffixes (a @ p @ b))" unfolding set_suffixes_eq by (simp add: suffix_def)
  then show ?thesis unfolding contains_str_def list_ex_iff by (rule bexI [rotated]) simp
qed

lemma trim_end_matches_one: "t = [] \<or> last t \<noteq> c \<Longrightarrow> trim_end_matches c (t @ [c]) = t"
  by (cases "t = []") (simp_all add: trim_end_matches_def dropWhile_head hd_rev)

lemma trim_matches_quoted:
  assumes "t \<noteq> []" "hd t \<noteq> c" "last t \<noteq> c"
  shows "trim_matches c (c # t @ [c]) = t"
proof -
  have "dropWhile (\<lambda>x. x = c) (t @ [c]) = t @ [c]"
    using assms(1,2) by (intro dropWhile_head) simp_all
  with assms show ?thesis by (simp add: trim_matches_def trim_end_matches_one)
qed

lemma text_lines_append:
  "\<forall>l \<in> set ls. plain l \<Longrightarrow> text_lines (unlines ls @ rest) = ls @ text_lines rest"
  by (induction ls) (simp_all add: unlines_def plain_def text_lines_Cons)

lemma unlines_simps [simp]:
  "unlines [] = []"
  "unlines (l # ls) = l @ 10 # unlines ls"
  "unlines (ls @ ls') = unlines ls @ unlines ls'"
  by (simp_all add: unlines_def)

lemma plainI: "10 \<notin> set l \<Longrightarrow> 13 \<notin> set l \<Longrightarrow> plain l"
  by (simp add: plain_def strip_cr_none)

text \<open>Newline-free lines are determined by the text they are written into.\<close>

lemma unlines_inj:
  assumes "\<forall>l \<in> set ls. 10 \<notin> set l" "\<forall>l \<in> set ls'. 10 \<notin> set l" "unlines ls = unlines ls'"
  shows "ls = ls'"
  using assms
proof (induction ls arbitrary: ls')
  case Nil
  then show ?case by (cases ls') simp_all
next
  case (Cons l ls)
  then obtain l' ls2 where ls': "ls' = l' # ls2" by (cases ls') simp_all
  with Cons.prems have "split_once 10 (l @ 10 # unlines ls) = split_once 10 (l' @ 10 # unlines ls2)"
    by simp
  moreover have "10 \<notin> set l" "10 \<notin> set l'" using Cons.prems ls' by simp_all
  ultimately have "l = l' \<and> unlines ls = unlines ls2" by (metis split_once_at option.inject prod.inject)
  with Cons.IH [of ls2] Cons.prems ls' show ?case by simp
qed

subsection \<open>Ordered sets of strings\<close>

text \<open>A \<open>BTreeSet\<close> is the list of its elements in increasing order.\<close>

type_synonym bset = "ustr list"

definition bs_ok :: "bset \<Rightarrow> bool" where
  "bs_ok s \<longleftrightarrow> sorted_wrt (<) s"

definition bs_insert :: "ustr \<Rightarrow> bset \<Rightarrow> bset" where
  "bs_insert x s = insort_insert x s"

definition bs_of :: "ustr list \<Rightarrow> bset" where
  "bs_of xs = foldl (\<lambda>s x. bs_insert x s) [] xs"

definition bs_difference :: "bset \<Rightarrow> bset \<Rightarrow> bset" where
  "bs_difference s t = filter (\<lambda>x. x \<notin> set t) s"

lemma bs_ok_iff: "bs_ok s \<longleftrightarrow> sorted s \<and> distinct s"
  by (simp add: bs_ok_def strict_sorted_iff)

lemma set_bs_insert [simp]: "set (bs_insert x s) = insert x (set s)"
  by (simp add: bs_insert_def set_insort_insert)

lemma bs_ok_insert: "bs_ok s \<Longrightarrow> bs_ok (bs_insert x s)"
  by (simp add: bs_ok_iff bs_insert_def sorted_insort_insert distinct_insort_insert)

lemma bs_ok_Nil [simp]: "bs_ok []"
  by (simp add: bs_ok_def)

lemma foldl_bs_insert:
  "bs_ok s \<Longrightarrow> bs_ok (foldl (\<lambda>s x. bs_insert x s) s xs) \<and>
     set (foldl (\<lambda>s x. bs_insert x s) s xs) = set s \<union> set xs"
  by (induction xs arbitrary: s) (auto simp: bs_ok_insert)

lemma bs_of_ok: "bs_ok (bs_of xs)" and set_bs_of [simp]: "set (bs_of xs) = set xs"
  using foldl_bs_insert [of "[]" xs] by (simp_all add: bs_of_def)

lemma bs_ok_difference: "bs_ok s \<Longrightarrow> bs_ok (bs_difference s t)"
  by (simp add: bs_ok_iff bs_difference_def sorted_wrt_filter)

lemma set_bs_difference [simp]: "set (bs_difference s t) = set s - set t"
  by (auto simp: bs_difference_def)

text \<open>The contract of an ordered set: two sets with the same elements are the same value,
  which is what \<open>==\<close> of the code compares.\<close>

locale ordered_set =
  fixes elems :: "'s \<Rightarrow> 'a :: linorder list"
    and ok :: "'s \<Rightarrow> bool"
  assumes strict: "ok s \<Longrightarrow> sorted_wrt (<) (elems s)"
    and determined: "elems s = elems t \<Longrightarrow> s = t"
begin

lemma eq_iff:
  assumes "ok s" "ok t"
  shows "s = t \<longleftrightarrow> set (elems s) = set (elems t)"
  using strict [OF assms(1)] strict [OF assms(2)] determined [of s t] strict_sorted_equal by blast

lemma size_card: "ok s \<Longrightarrow> length (elems s) = card (set (elems s))"
  using strict [of s] by (simp add: strict_sorted_iff distinct_card)

end

interpretation bs: ordered_set "\<lambda>s. s" bs_ok
  by unfold_locales (simp_all add: bs_ok_def)

end
