(* ===== verification/Profile_Corpus.thy ===== *)
theory Profile_Corpus
  imports Profile_Trace Text_Scan Scenarios
begin

text \<open>
  The corpus of \<open>src/test_profile_diff.rs\<close>: the calls the profile comparison records, as data,
  their run against a build of the contract, and the tests.  A build is a record of what the
  compiled contract and the SDK do: it registers contracts, generates addresses, sets the
  ledger sequence, answers a \<open>try_\<close> call with its \<open>Debug\<close> text and whether it was \<open>Ok(Ok(_))\<close>, and
  shows its events and ledger.
\<close>

subsection \<open>The calls\<close>

datatype corpus_addr =
  A_admin | A_relay | A_stranger | A_new_admin | A_new_relay | A_anchor | A_contract

record SlashEvidence =
  ev_tx_id :: ustr
  ev_payload_a :: Payload
  ev_payload_b :: Payload

datatype corpus_call =
    Try_health
  | Try_admin
  | Try_initialize corpus_addr corpus_addr
  | Try_version
  | Try_schema_version
  | Try_relay_signer
  | Try_register_callback Payload
  | Try_is_duplicate ustr
  | Try_start_processing ustr corpus_addr
  | Try_complete_transaction ustr ustr corpus_addr
  | Try_fail_transaction ustr ustr corpus_addr
  | Try_get_transaction ustr
  | Try_get_status ustr
  | Try_pause
  | Try_is_paused
  | Try_unpause
  | Try_accept_admin corpus_addr
  | Try_propose_admin corpus_addr
  | Try_pending_admin
  | Try_set_relay_signer corpus_addr
  | Try_upgrade bytes32 u32
  | Try_get_param ustr
  | Try_set_param ustr int
  | Try_bond_collateral corpus_addr int
  | Try_unbond_collateral corpus_addr int
  | Try_claim_unbond corpus_addr
  | Try_get_bond_record corpus_addr
  | Try_get_unbond_request corpus_addr
  | Try_slash_signer corpus_addr SlashEvidence corpus_addr
  | Try_get_anchor_tier corpus_addr
  | Try_set_anchor_tier corpus_addr int ustr
  | Try_compute_effective_fee corpus_addr int

datatype corpus_step =
    Set_sequence u32
  | Generate corpus_addr
  | Rec ustr corpus_call

definition CORPUS_G_ADDR :: ustr where
  "CORPUS_G_ADDR = lit ''GA7QYNF7SOWQ3GLR2BGMZEHXAVIRZA4KVWLTJJFC7MGXUA74P7UJVSGZ''"

definition corpus_payload :: "ustr \<Rightarrow> ustr \<Rightarrow> Payload" where
  "corpus_payload tx idem =
     \<lparr>transaction_id = tx, stellar_account = CORPUS_G_ADDR, amount = 1000, asset_code = lit ''USDC'',
      asset_issuer = CORPUS_G_ADDR, idempotency_key = idem, anchor_transaction_id = lit ''anchor-1'',
      callback_type = Deposit, callback_status = lit ''pending_external''\<rparr>"

definition invalid_payloads :: "(ustr \<times> Payload) list" where
  "invalid_payloads =
    (let p = corpus_payload (lit ''tx-bad'') (lit ''idem-bad'') in
     [(lit ''bad account'', p\<lparr>stellar_account := lit ''GBAD''\<rparr>),
      (lit ''zero amount'', p\<lparr>amount := 0\<rparr>),
      (lit ''bad asset'', p\<lparr>asset_code := lit ''usdc''\<rparr>),
      (lit ''bad issuer'', p\<lparr>asset_issuer := lit ''GBAD''\<rparr>),
      (lit ''empty idem'', p\<lparr>idempotency_key := []\<rparr>),
      (lit ''long tx id'', p\<lparr>transaction_id := replicate 65 120\<rparr>),
      (lit ''long status'', p\<lparr>callback_status := replicate 33 120\<rparr>)])"

definition same_evidence :: SlashEvidence where
  "same_evidence =
    (let a = corpus_payload (lit ''tx-9'') (lit ''idem-a'') in
     \<lparr>ev_tx_id = lit ''tx-9'', ev_payload_a = a, ev_payload_b = a\<rparr>)"

definition conflicting_evidence :: SlashEvidence where
  "conflicting_evidence =
    \<lparr>ev_tx_id = lit ''tx-9'', ev_payload_a = corpus_payload (lit ''tx-9'') (lit ''idem-a''),
     ev_payload_b = (corpus_payload (lit ''tx-9'') (lit ''idem-b''))\<lparr>amount := 2000\<rparr>\<rparr>"

definition corpus :: "corpus_step list" where
  "corpus =
    [Rec (lit ''health (pre-init)'') Try_health,
     Rec (lit ''admin (pre-init)'') Try_admin,
     Rec (lit ''initialize'') (Try_initialize A_admin A_relay),
     Rec (lit ''initialize (again)'') (Try_initialize A_admin A_relay),
     Rec (lit ''health'') Try_health,
     Rec (lit ''version'') Try_version,
     Rec (lit ''schema_version'') Try_schema_version,
     Rec (lit ''admin'') Try_admin,
     Rec (lit ''relay_signer'') Try_relay_signer,
     Rec (lit ''register tx-1'') (Try_register_callback (corpus_payload (lit ''tx-1'') (lit ''idem-1''))),
     Rec (lit ''register tx-1 (replay)'') (Try_register_callback (corpus_payload (lit ''tx-1'') (lit ''idem-1''))),
     Rec (lit ''is_duplicate idem-1'') (Try_is_duplicate (lit ''idem-1'')),
     Rec (lit ''register tx-1 (new idem, same id)'') (Try_register_callback (corpus_payload (lit ''tx-1'') (lit ''idem-1b'')))] @
    map (\<lambda>(label, p). Rec (lit ''register ('' @ label @ lit '')'') (Try_register_callback p)) invalid_payloads @
    [Rec (lit ''register tx-2'') (Try_register_callback (corpus_payload (lit ''tx-2'') (lit ''idem-2''))),
     Rec (lit ''register tx-3'') (Try_register_callback (corpus_payload (lit ''tx-3'') (lit ''idem-3''))),
     Set_sequence 1010,
     Rec (lit ''start tx-1 (stranger)'') (Try_start_processing (lit ''tx-1'') A_stranger),
     Rec (lit ''start tx-1'') (Try_start_processing (lit ''tx-1'') A_relay),
     Rec (lit ''start tx-1 (again)'') (Try_start_processing (lit ''tx-1'') A_relay),
     Rec (lit ''complete tx-2 (pending)'') (Try_complete_transaction (lit ''tx-2'') (lit ''abc123'') A_relay),
     Rec (lit ''complete tx-1 (hash too long)'') (Try_complete_transaction (lit ''tx-1'') (replicate 73 104) A_relay),
     Rec (lit ''complete tx-1'') (Try_complete_transaction (lit ''tx-1'') (lit ''abc123'') A_admin),
     Rec (lit ''fail tx-1 (completed)'') (Try_fail_transaction (lit ''tx-1'') (lit ''horizon_timeout'') A_relay),
     Rec (lit ''fail tx-2 (pending)'') (Try_fail_transaction (lit ''tx-2'') (lit ''horizon_timeout'') A_relay),
     Rec (lit ''start tx-3'') (Try_start_processing (lit ''tx-3'') A_admin),
     Rec (lit ''fail tx-3 (processing)'') (Try_fail_transaction (lit ''tx-3'') (lit ''horizon_timeout'') A_relay),
     Rec (lit ''start missing'') (Try_start_processing (lit ''nope'') A_relay),
     Rec (lit ''get_transaction tx-1'') (Try_get_transaction (lit ''tx-1'')),
     Rec (lit ''get_status tx-3'') (Try_get_status (lit ''tx-3'')),
     Rec (lit ''pause'') Try_pause,
     Rec (lit ''is_paused'') Try_is_paused,
     Rec (lit ''register (paused)'') (Try_register_callback (corpus_payload (lit ''tx-4'') (lit ''idem-4''))),
     Rec (lit ''unpause'') Try_unpause,
     Generate A_new_admin,
     Rec (lit ''accept_admin (none pending)'') (Try_accept_admin A_new_admin),
     Rec (lit ''propose_admin (self)'') (Try_propose_admin A_contract),
     Rec (lit ''propose_admin'') (Try_propose_admin A_new_admin),
     Rec (lit ''pending_admin'') Try_pending_admin,
     Rec (lit ''accept_admin (wrong caller)'') (Try_accept_admin A_stranger),
     Rec (lit ''accept_admin'') (Try_accept_admin A_new_admin),
     Generate A_new_relay,
     Rec (lit ''set_relay_signer'') (Try_set_relay_signer A_new_relay),
     Rec (lit ''start tx-2 (stale relay)'') (Try_start_processing (lit ''tx-2'') A_relay),
     Rec (lit ''upgrade (schema mismatch)'') (Try_upgrade (replicate 32 7) 99),
     Rec (lit ''get_param (unset)'') (Try_get_param (lit ''slash_bps'')),
     Rec (lit ''set_param (empty)'') (Try_set_param [] 1),
     Rec (lit ''set_param slash_bps'') (Try_set_param (lit ''slash_bps'') 2500),
     Rec (lit ''set_param unbond_delay'') (Try_set_param (lit ''unbond_delay_ledgers'') 5),
     Rec (lit ''get_param slash_bps'') (Try_get_param (lit ''slash_bps'')),
     Rec (lit ''bond (zero)'') (Try_bond_collateral A_new_relay 0),
     Rec (lit ''bond'') (Try_bond_collateral A_new_relay 10000),
     Rec (lit ''bond (top-up)'') (Try_bond_collateral A_new_relay 5000),
     Rec (lit ''bond (overflow)'') (Try_bond_collateral A_new_relay (2 ^ 127 - 1)),
     Rec (lit ''unbond (too much)'') (Try_unbond_collateral A_new_relay 20000),
     Rec (lit ''unbond'') (Try_unbond_collateral A_new_relay 3000),
     Rec (lit ''unbond (pending)'') (Try_unbond_collateral A_new_relay 1),
     Rec (lit ''claim (early)'') (Try_claim_unbond A_new_relay),
     Set_sequence 1015,
     Rec (lit ''claim'') (Try_claim_unbond A_new_relay),
     Rec (lit ''get_bond_record'') (Try_get_bond_record A_new_relay),
     Rec (lit ''get_unbond_request'') (Try_get_unbond_request A_new_relay),
     Rec (lit ''slash (not conflicting)'') (Try_slash_signer A_new_relay same_evidence A_new_admin),
     Rec (lit ''slash (unbonded signer)'') (Try_slash_signer A_stranger conflicting_evidence A_new_admin),
     Rec (lit ''slash'') (Try_slash_signer A_new_relay conflicting_evidence A_new_admin),
     Rec (lit ''bond (huge)'') (Try_bond_collateral A_stranger ((2 ^ 127 - 1) div 2)),
     Rec (lit ''slash (mul overflow)'') (Try_slash_signer A_stranger conflicting_evidence A_new_admin),
     Generate A_anchor,
     Rec (lit ''get_anchor_tier (unset)'') (Try_get_anchor_tier A_anchor),
     Rec (lit ''set_anchor_tier (bps)'') (Try_set_anchor_tier A_anchor 10001 (lit ''gold'')),
     Rec (lit ''set_anchor_tier (label)'') (Try_set_anchor_tier A_anchor 500 (replicate 17 108)),
     Rec (lit ''set_anchor_tier'') (Try_set_anchor_tier A_anchor 500 (lit ''gold'')),
     Rec (lit ''fee (tier)'') (Try_compute_effective_fee A_anchor 10000),
     Rec (lit ''fee (no tier)'') (Try_compute_effective_fee A_stranger 10000),
     Rec (lit ''fee (negative)'') (Try_compute_effective_fee A_anchor (- 1)),
     Rec (lit ''fee (mul overflow)'') (Try_compute_effective_fee A_anchor (2 ^ 127 - 1))]"

subsection \<open>The run\<close>

record 'e Build =
  b_fresh :: 'e
  b_register :: "'e \<Rightarrow> Address \<times> 'e"
  b_register_fixture :: "'e \<Rightarrow> Address \<times> 'e"
  b_generate :: "'e \<Rightarrow> Address \<times> 'e"
  b_set_sequence :: "u32 \<Rightarrow> 'e \<Rightarrow> 'e"
  b_mock_all_auths :: "'e \<Rightarrow> 'e"
  b_call :: "Address \<Rightarrow> (corpus_addr \<Rightarrow> Address) \<Rightarrow> corpus_call \<Rightarrow> 'e \<Rightarrow> (ustr \<times> bool) \<times> 'e"
  b_probe :: "Address \<Rightarrow> 'e \<Rightarrow> (ustr \<times> bool) \<times> 'e"
  b_observe :: "'e \<Rightarrow> Observed"

definition fresh_env :: "'e Build \<Rightarrow> 'e" where
  "fresh_env b = b_mock_all_auths b (b_set_sequence b 1000 (b_fresh b))"

text \<open>The state of the run: the environment, the addresses and the trace.\<close>

type_synonym 'e run_state = "'e \<times> (corpus_addr \<Rightarrow> Address) \<times> Trace"

definition rec_call ::
    "'e Build \<Rightarrow> Renderer \<Rightarrow> ustr \<Rightarrow> ((ustr \<times> bool) \<times> 'e) \<Rightarrow> Trace \<Rightarrow> ('e \<times> Trace) host" where
  "rec_call b r name out t = (case out of ((result, ok), env) \<Rightarrow> do {
     t \<leftarrow> record_call r t (b_observe b env) name result ok;
     Some (env, t) })"

fun corpus_run_step :: "'e Build \<Rightarrow> Renderer \<Rightarrow> Address \<Rightarrow> 'e run_state \<Rightarrow> corpus_step \<Rightarrow> 'e run_state host" where
  "corpus_run_step b r cid (env, ad, t) (Set_sequence n) = Some (b_set_sequence b n env, ad, t)"
| "corpus_run_step b r cid (env, ad, t) (Generate a) =
     (let (x, env) = b_generate b env in Some (env, ad(a := x), t))"
| "corpus_run_step b r cid (env, ad, t) (Rec name c) = do {
     (env, t) \<leftarrow> rec_call b r name (b_call b cid ad c env) t;
     Some (env, ad, t) }"

text \<open>The contract and the three addresses made before the first call.\<close>

definition corpus_setup :: "'e Build \<Rightarrow> Address \<times> 'e \<times> (corpus_addr \<Rightarrow> Address)" where
  "corpus_setup b =
     (let (cid, env) = b_register b (fresh_env b);
          (admin, env) = b_generate b env;
          (relay, env) = b_generate b env;
          (stranger, env) = b_generate b env
      in (cid, env, (\<lambda>_. cid)(A_admin := admin, A_relay := relay, A_stranger := stranger)))"

definition behaviour_trace_with ::
    "'e Build \<Rightarrow> Renderer \<Rightarrow> bool \<Rightarrow> ('e \<Rightarrow> Address \<Rightarrow> 'e) \<Rightarrow> ustr host" where
  "behaviour_trace_with b r include_fixture extra = do {
     let (cid, env, ad) = corpus_setup b;
     (env, ad, t) \<leftarrow> fold_host (corpus_run_step b r cid) (env, ad, new_trace) corpus;
     (env, t) \<leftarrow> (if include_fixture
       then let (fid, env) = b_register_fixture b env in rec_call b r (lit ''fixture probe'') (b_probe b fid env) t
       else Some (env, t));
     let env = extra env cid;
     Some (finish t (b_observe b env)) }"

definition behaviour_trace :: "'e Build \<Rightarrow> Renderer \<Rightarrow> bool \<Rightarrow> ustr host" where
  "behaviour_trace b r include_fixture = behaviour_trace_with b r include_fixture (\<lambda>env _. env)"

text \<open>The environment variables: whether the fixture is asked for, the path to write to; and
  whether a write succeeds.  The result is what was written.\<close>

definition profile_diff_emit_trace ::
    "'e Build \<Rightarrow> Renderer \<Rightarrow> ustr option \<Rightarrow> ustr option \<Rightarrow> (ustr \<Rightarrow> bool) \<Rightarrow> (ustr \<times> ustr) option host" where
  "profile_diff_emit_trace b r fixture_env out_env written = do {
     let include_fixture = (fixture_env = Some (lit ''1''));
     trace \<leftarrow> behaviour_trace b r include_fixture;
     assert_that (contains_str (lit ''steps: '') trace \<and> length (text_lines trace) > 100);
     (case out_env of None \<Rightarrow> Some None
      | Some path \<Rightarrow> if written path then Some (Some (path, trace)) else None) }"

definition trace_is_deterministic :: "'e Build \<Rightarrow> Renderer \<Rightarrow> unit host" where
  "trace_is_deterministic b r = do {
     t \<leftarrow> behaviour_trace b r False;
     t' \<leftarrow> behaviour_trace b r False;
     assert_that (t = t') }"

definition trace_detects_state_only_divergence ::
    "'e Build \<Rightarrow> Renderer \<Rightarrow> ('e \<Rightarrow> Address \<Rightarrow> 'e) \<Rightarrow> unit host" where
  "trace_detects_state_only_divergence b r set_dbg = do {
     baseline \<leftarrow> behaviour_trace b r False;
     diverged \<leftarrow> behaviour_trace_with b r False set_dbg;
     diff \<leftarrow> line_diff baseline diverged;
     assert_that (list_ex (\<lambda>l. prefix (lit ''+'') l) (text_lines diff)) }"

text \<open>The probe contract writes its entry exactly in a build with debug assertions.\<close>

definition fixture_side_effect_tracks_debug_assertions :: "bool \<Rightarrow> unit host" where
  "fixture_side_effect_tracks_debug_assertions debug_assertions =
     (let (v, storage) = probe debug_assertions Map.empty ''dbg'' in do {
       assert_that (v = 7);
       assert_that ((storage ''dbg'' \<noteq> None) = debug_assertions) })"

lemma fixture_test_passes: "fixture_side_effect_tracks_debug_assertions d = Some ()"
  by (auto simp: fixture_side_effect_tracks_debug_assertions_def probe_def intro: exI [of _ True])

subsection \<open>Every build finishes the corpus\<close>

definition recs :: "corpus_step list \<Rightarrow> nat" where
  "recs ss = length (filter (\<lambda>s. case s of Rec _ _ \<Rightarrow> True | _ \<Rightarrow> False) ss)"

lemma recs_simps [simp]:
  "recs [] = 0"
  "recs (Set_sequence n # ss) = recs ss"
  "recs (Generate a # ss) = recs ss"
  "recs (Rec l c # ss) = Suc (recs ss)"
  "recs (ss @ ts) = recs ss + recs ts"
  by (simp_all add: recs_def)

lemma recs_corpus: "recs corpus = 77"
  by (simp add: corpus_def invalid_payloads_def Let_def del: lit_simps)

lemma rec_call_runs:
  assumes "unat (step t) < 2 ^ 32 - 1"
  shows "\<exists>t'. rec_call b r name ((res, ok), env) t = Some (env, t') \<and>
    unat (step t') = Suc (unat (step t)) \<and> length (lines t) + 2 \<le> length (lines t')"
proof -
  obtain n where n: "incr32 (step t) = Some n" "unat n = Suc (unat (step t))"
    using incr32_fits [OF assms] by blast
  then show ?thesis by (simp add: rec_call_def record_call_def Let_def)
qed

lemma corpus_run_steps:
  assumes "unat (step t) + recs ss < 2 ^ 32"
  shows "\<exists>env' ad' t'. fold_host (corpus_run_step b r cid) (env, ad, t) ss = Some (env', ad', t') \<and>
    unat (step t') = unat (step t) + recs ss \<and> length (lines t) + 2 * recs ss \<le> length (lines t')"
  using assms
proof (induction ss arbitrary: env ad t)
  case (Cons s ss)
  show ?case
  proof (cases s)
    case (Set_sequence n)
    with Cons.prems Cons.IH [of t "b_set_sequence b n env" ad] show ?thesis by simp
  next
    case (Generate a)
    obtain x env1 where g: "b_generate b env = (x, env1)" by fastforce
    with Generate Cons.prems Cons.IH [of t env1 "ad(a := x)"] show ?thesis
      by (simp add: fun_upd_def)
  next
    case (Rec name c)
    obtain res ok env1 where o: "b_call b cid ad c env = ((res, ok), env1)" by (metis surj_pair)
    from Cons.prems Rec have "unat (step t) < 2 ^ 32 - 1" by simp
    from rec_call_runs [OF this, of b r name res ok env1] obtain t1
      where t1: "rec_call b r name ((res, ok), env1) t = Some (env1, t1)"
        "unat (step t1) = Suc (unat (step t))" "length (lines t) + 2 \<le> length (lines t1)" by blast
    with Rec Cons.prems have "unat (step t1) + recs ss < 2 ^ 32" by simp
    from Cons.IH [OF this, of env1 ad] t1 Rec o show ?thesis by fastforce
  qed
qed simp

text \<open>The state before the last action: 77 recorded calls, or 78 with the fixture.\<close>

lemma corpus_state:
  "\<exists>env cid t. (\<forall>extra. behaviour_trace_with b r fx extra = Some (finish t (b_observe b (extra env cid)))) \<and>
     unat (step t) = (if fx then 78 else 77) \<and> 154 \<le> length (lines t)"
proof -
  obtain cid env0 ad0 where start: "corpus_setup b = (cid, env0, ad0)" by (metis surj_pair)
  obtain env ad t where run: "fold_host (corpus_run_step b r cid) (env0, ad0, new_trace) corpus = Some (env, ad, t)"
    "unat (step t) = 77" "154 \<le> length (lines t)"
    using corpus_run_steps [of new_trace corpus b r cid env0 ad0] by (auto simp: recs_corpus new_trace_def)
  show ?thesis
  proof (cases fx)
    case False
    with start run show ?thesis by (auto simp: behaviour_trace_with_def)
  next
    case True
    obtain fid env4 where 4: "b_register_fixture b env = (fid, env4)" by fastforce
    obtain res ok env5 where 5: "b_probe b fid env4 = ((res, ok), env5)" by (metis surj_pair)
    have "unat (step t) < 2 ^ 32 - 1" using run(2) by simp
    from rec_call_runs [OF this, of b r "lit ''fixture probe''" res ok env5] obtain t'
      where "rec_call b r (lit ''fixture probe'') ((res, ok), env5) t = Some (env5, t')"
        "unat (step t') = 78" "156 \<le> length (lines t')" using run(2,3) by fastforce
    with start 4 5 run True show ?thesis
      by (intro exI [of _ env5] exI [of _ cid] exI [of _ t'])
        (auto simp: behaviour_trace_with_def simp del: lit_simps)
  qed
qed

text \<open>A text of many lines has at least as many lines when it is split again.\<close>

lemma lines_from_length: "Suc (length (text_lines b)) \<le> length (lines_from cur (a @ 10 # b))"
proof (induction a arbitrary: cur)
  case (Cons x a)
  show ?case
  proof (cases "x = 10")
    case True
    with Cons.IH [of "[]"] show ?thesis by simp
  next
    case False
    with Cons.IH [of "cur @ [x]"] show ?thesis by simp
  qed
qed (simp add: text_lines_def)

lemma text_lines_unlines_length: "length ls \<le> length (text_lines (unlines ls))"
proof (induction ls)
  case (Cons l ls)
  with lines_from_length [of "unlines ls" "[]" l] show ?case by (simp add: text_lines_def)
qed simp

lemma unlines_contains: "p @ x \<in> set ls \<Longrightarrow> contains_str p (unlines ls)"
proof -
  assume "p @ x \<in> set ls"
  then obtain as bs where "ls = as @ (p @ x) # bs" by (meson split_list)
  then have "unlines ls = unlines as @ p @ (x @ 10 # unlines bs)" by simp
  then show ?thesis by (simp only: contains_strI)
qed

lemma finish_checks:
  assumes "154 \<le> length (lines t)"
  shows "contains_str (lit ''steps: '') (finish t env)" "100 < length (text_lines (finish t env))"
proof -
  show "contains_str (lit ''steps: '') (finish t env)"
    unfolding finish_unlines
    by (rule unlines_contains [of _ "digits (unat (step t))"]) (simp add: final_lines_def del: lit_simps)
  have "154 \<le> length (final_lines t env)" using assms by (simp add: final_lines_def)
  then show "100 < length (text_lines (finish t env))"
    unfolding finish_unlines using text_lines_unlines_length [of "final_lines t env"] by linarith
qed

text \<open>The corpus cannot rot: for every build, whatever its calls answer, the run records
  all 77 calls (78 with the fixture), the size check of the emitting test passes, the trace is
  written where the environment asks for it, a second run gives the same trace, and the test
  fails only when the file cannot be written.\<close>

theorem profile_corpus_runs:
  "\<exists>trace t env. behaviour_trace b r (fx = Some (lit ''1'')) = Some trace \<and>
     trace = finish t env \<and> unat (step t) = (if fx = Some (lit ''1'') then 78 else 77) \<and>
     profile_diff_emit_trace b r fx out written = (case out of
       None \<Rightarrow> Some None
     | Some path \<Rightarrow> if written path then Some (Some (path, trace)) else None) \<and>
     trace_is_deterministic b r = Some ()"
proof -
  obtain env cid t where t: "behaviour_trace b r (fx = Some (lit ''1'')) = Some (finish t (b_observe b env))"
    "unat (step t) = (if fx = Some (lit ''1'') then 78 else 77)" "154 \<le> length (lines t)"
    using corpus_state [of b r "fx = Some (lit ''1'')"] unfolding behaviour_trace_def by blast
  obtain t0 where "behaviour_trace b r False = Some t0"
    using corpus_state [of b r False] unfolding behaviour_trace_def by blast
  then have "trace_is_deterministic b r = Some ()" by (simp add: trace_is_deterministic_def)
  with t finish_checks [OF t(3), of "b_observe b env"] show ?thesis
    by (intro exI conjI) (auto simp: profile_diff_emit_trace_def split: option.split simp del: lit_simps)
qed

subsection \<open>A divergence of the ledger alone\<close>

text \<open>What the renderings are on a real build: no line break inside a rendered line.\<close>

definition one_line_build :: "'e Build \<Rightarrow> Renderer \<Rightarrow> bool" where
  "one_line_build b r \<longleftrightarrow>
     (\<forall>env. list_all line_ok (render_last_events r (ob_events (b_observe b env)))) \<and>
     (\<forall>cid ad c env. line_ok (fst (fst (b_call b cid ad c env))))"

lemma line_ok_append [simp]: "line_ok (a @ b) \<longleftrightarrow> line_ok a \<and> line_ok b"
  by (auto simp: line_ok_def)

lemma line_ok_Cons [simp]: "line_ok (c # l) \<longleftrightarrow> c \<noteq> 10 \<and> c \<noteq> 13 \<and> line_ok l"
  by (auto simp: line_ok_def)

lemma line_ok_Nil [simp]: "line_ok []"
  by (simp add: line_ok_def)

lemma plus_prefix: "take 2 l = lit ''+ '' \<Longrightarrow> prefix (lit ''+'') l"
  by (cases l) simp_all

lemma hex64_line_ok: "line_ok (hex64 h)"
proof -
  have "hex_digit (n mod 16) \<notin> {10, 13}" for n by (simp add: hex_digit_def)
  then show ?thesis by (auto simp: line_ok_def hex64_def)
qed

lemma record_call_line_ok:
  assumes "record_call r t env name res ok = Some t'" "list_all line_ok (lines t)" "line_ok name"
    "line_ok res" "list_all line_ok (render_last_events r (ob_events env))"
  shows "list_all line_ok (lines t')"
proof -
  have "line_ok (zero_padded 3 (digits n))" for n
    using digits_line_ok [of n] by (auto simp: zero_padded_def line_ok_def)
  with assms hex64_line_ok show ?thesis
    by (auto simp: record_call_def Let_def list_all_iff bind_eq_Some_conv)
qed

definition step_label_ok :: "corpus_step \<Rightarrow> bool" where
  "step_label_ok s \<longleftrightarrow> (case s of Rec name _ \<Rightarrow> line_ok name | _ \<Rightarrow> True)"

lemma corpus_labels: "list_all step_label_ok corpus"
  by (simp add: corpus_def step_label_ok_def invalid_payloads_def Let_def)

lemma corpus_run_steps_line_ok:
  assumes "one_line_build b r" "list_all step_label_ok ss" "list_all line_ok (lines t)"
    "fold_host (corpus_run_step b r cid) (env, ad, t) ss = Some (env', ad', t')"
  shows "list_all line_ok (lines t')"
  using assms(2-4)
proof (induction ss arbitrary: env ad t)
  case (Cons s ss)
  show ?case
  proof (cases s)
    case (Rec name c)
    obtain res ok env1 where o: "b_call b cid ad c env = ((res, ok), env1)" by (metis surj_pair)
    with Rec Cons.prems(3) obtain t1 where t1: "record_call r t (b_observe b env1) name res ok = Some t1"
      and rest: "fold_host (corpus_run_step b r cid) (env1, ad, t1) ss = Some (env', ad', t')"
      by (auto simp: rec_call_def bind_eq_Some_conv)
    have "line_ok res" using assms(1) o unfolding one_line_build_def by (metis fst_conv)
    with record_call_line_ok [OF t1] Cons.prems(1,2) Rec assms(1)
    have "list_all line_ok (lines t1)" by (simp add: step_label_ok_def one_line_build_def)
    with Cons.IH [OF _ _ rest] Cons.prems(1) show ?thesis by simp
  qed (use Cons in \<open>auto split: prod.splits\<close>)
qed simp

lemma corpus_final:
  assumes "one_line_build b r"
  shows "\<exists>env cid t. (\<forall>extra. behaviour_trace_with b r False extra =
      Some (finish t (b_observe b (extra env cid)))) \<and> list_all line_ok (lines t)"
proof -
  obtain cid env0 ad0 where start: "corpus_setup b = (cid, env0, ad0)" by (metis surj_pair)
  obtain env ad t where run: "fold_host (corpus_run_step b r cid) (env0, ad0, new_trace) corpus = Some (env, ad, t)"
    using corpus_run_steps [of new_trace corpus b r cid env0 ad0] by (auto simp: recs_corpus new_trace_def)
  have "list_all line_ok (lines t)"
    by (rule corpus_run_steps_line_ok [OF assms corpus_labels _ run]) (simp add: new_trace_def)
  with start run show ?thesis by (auto simp: behaviour_trace_with_def)
qed

text \<open>C34. The corpus catches a divergence of the ledger alone: after the recorded calls there is
  a state such that an extra action on it leaves the trace as it is exactly when it leaves the
  rows of the ledger as they are; and when it changes them and loses none, the test that wants
  an added line in the diff passes.\<close>

theorem corpus_detects_state:
  assumes "one_line_build b r"
  shows "\<exists>env cid. \<forall>extra.
    (behaviour_trace_with b r False extra = behaviour_trace b r False \<longleftrightarrow>
       mset (ob_ledger (b_observe b (extra env cid))) = mset (ob_ledger (b_observe b env))) \<and>
    (mset (ob_ledger (b_observe b (extra env cid))) \<noteq> mset (ob_ledger (b_observe b env)) \<longrightarrow>
     length (ob_ledger (b_observe b env)) \<le> length (ob_ledger (b_observe b (extra env cid))) \<longrightarrow>
       trace_detects_state_only_divergence b r extra = Some ())"
proof -
  obtain env cid t where run: "\<forall>extra. behaviour_trace_with b r False extra =
      Some (finish t (b_observe b (extra env cid)))" and ok: "list_all line_ok (lines t)"
    using corpus_final [OF assms] by blast
  have base: "behaviour_trace b r False = Some (finish t (b_observe b env))"
    using run by (simp add: behaviour_trace_def)
  show ?thesis
  proof (intro exI allI conjI impI)
    fix extra
    show "behaviour_trace_with b r False extra = behaviour_trace b r False \<longleftrightarrow>
       mset (ob_ledger (b_observe b (extra env cid))) = mset (ob_ledger (b_observe b env))"
      using finish_eq_iff [OF ok ok] by (simp add: run base)
  next
    fix extra
    assume "mset (ob_ledger (b_observe b (extra env cid))) \<noteq> mset (ob_ledger (b_observe b env))"
      "length (ob_ledger (b_observe b env)) \<le> length (ob_ledger (b_observe b (extra env cid)))"
    then obtain d where d: "line_diff (finish t (b_observe b env)) (finish t (b_observe b (extra env cid))) = Some d"
      "list_ex (\<lambda>l. take 2 l = lit ''+ '') (text_lines d)"
      using finish_plus_line [OF ok, of "b_observe b env" "b_observe b (extra env cid)"] by metis
    have "list_ex (\<lambda>l. prefix (lit ''+'') l) (text_lines d)"
      using d(2) plus_prefix unfolding list_ex_iff by blast
    with d(1) show "trace_detects_state_only_divergence b r extra = Some ()"
      by (simp add: trace_detects_state_only_divergence_def base run del: lit_simps)
  qed
qed

text \<open>A build whose calls are all answered the same and keep a list of rows.\<close>

definition row_build :: "LedgerRow list Build" where
  "row_build =
    \<lparr>b_fresh = [], b_register = (\<lambda>e. (''C'', e)), b_register_fixture = (\<lambda>e. (''F'', e)),
     b_generate = (\<lambda>e. (''G'', e)), b_set_sequence = (\<lambda>_ e. e), b_mock_all_auths = (\<lambda>e. e),
     b_call = (\<lambda>_ _ _ e. ((lit ''Ok(Ok(()))'', True), e)), b_probe = (\<lambda>_ e. ((lit ''Ok(Ok(7))'', True), e)),
     b_observe = (\<lambda>e. \<lparr>ob_events = [], ob_ledger = e\<rparr>)\<rparr>"

theorem corpus_detects_state_witness:
  "trace_detects_state_only_divergence row_build example_renderer
     (\<lambda>e _. \<lparr>row_key = [1], row_entry = [2], live_until = None\<rparr> # e) = Some () \<and>
   behaviour_trace_with row_build example_renderer False (\<lambda>e _. rev e) =
     behaviour_trace row_build example_renderer False"
proof -
  have "one_line_build row_build example_renderer"
    by (simp add: one_line_build_def row_build_def render_last_events_def)
  from corpus_detects_state [OF this] obtain env cid where e: "\<forall>extra.
    (behaviour_trace_with row_build example_renderer False extra = behaviour_trace row_build example_renderer False \<longleftrightarrow>
       mset (ob_ledger (b_observe row_build (extra env cid))) = mset (ob_ledger (b_observe row_build env))) \<and>
    (mset (ob_ledger (b_observe row_build (extra env cid))) \<noteq> mset (ob_ledger (b_observe row_build env)) \<longrightarrow>
     length (ob_ledger (b_observe row_build env)) \<le> length (ob_ledger (b_observe row_build (extra env cid))) \<longrightarrow>
       trace_detects_state_only_divergence row_build example_renderer extra = Some ())" by blast
  have o: "ob_ledger (b_observe row_build x) = x" for x by (simp add: row_build_def)
  from spec [OF e, of "\<lambda>e _. \<lparr>row_key = [1], row_entry = [2], live_until = None\<rparr> # e"]
    spec [OF e, of "\<lambda>e _. rev e"] show ?thesis by (simp add: o)
qed

end
