(* ===== verification/Event_Snapshots.thy ===== *)
theory Event_Snapshots
  imports Test_Rendering Text_Scan
begin

text \<open>
  The event snapshots of \<open>src/test_event_snapshots.rs\<close>: the fixture text rendered from the
  events of an invocation, the comparison with the committed fixture, and the test that every
  catalogued event has a snapshot or a tracked gap.  The scenarios call entry points that are
  not in the repository; what the gate does with their events is modelled for any event log.
  The file system is a map from paths to texts; which writes succeed and the text of a read
  error are the environment's.
\<close>

subsection \<open>Fixtures\<close>

record SnapHost =
  manifest_dir :: ustr
  update_var :: bool
  files :: "ustr \<Rightarrow> ustr option"
  dir_created :: bool
  written :: "ustr \<Rightarrow> bool"
  read_error :: "ustr \<Rightarrow> ustr"

definition UPDATE_ENV_VAR :: ustr where
  "UPDATE_ENV_VAR = lit ''SYNAPSE_UPDATE_EVENT_SNAPSHOTS''"

definition fixture_dir :: "SnapHost \<Rightarrow> ustr" where
  "fixture_dir h = manifest_dir h @ lit ''/fixtures/event_snapshots''"

definition fixture_path :: "SnapHost \<Rightarrow> ustr \<Rightarrow> ustr" where
  "fixture_path h name = fixture_dir h @ lit ''/'' @ name @ lit ''.snap''"

definition snapshot_header :: "ustr \<Rightarrow> ustr \<Rightarrow> ustr list" where
  "snapshot_header name entry_point =
     [lit ''# event snapshot: '' @ name,
      lit ''# entry point:    '' @ entry_point,
      lit ''# regenerate:     '' @ UPDATE_ENV_VAR @ lit ''=1 cargo test event_snapshot'']"

definition render_snapshot :: "ustr \<Rightarrow> ustr \<Rightarrow> ustr list \<Rightarrow> ustr" where
  "render_snapshot name entry_point events =
     (let out = unlines (snapshot_header name entry_point);
          out = (if events = [] then out @ lit ''(no events)'' @ [10] else out)
      in foldl (\<lambda>out line. out @ line @ [10]) out events)"

text \<open>The two messages of a failed comparison.\<close>

definition missing_message :: "ustr \<Rightarrow> ustr \<Rightarrow> ustr \<Rightarrow> ustr" where
  "missing_message path e actual =
     lit ''missing event snapshot `'' @ path @ lit ''` ('' @ e @ lit '').'' @ [10] @
     lit ''Generate it deliberately with `'' @ UPDATE_ENV_VAR @
     lit ''=1 cargo test event_snapshot` and commit it after review.'' @ [10] @
     lit ''--- actual ---'' @ [10] @ actual"

definition drift_message :: "ustr \<Rightarrow> ustr \<Rightarrow> ustr \<Rightarrow> ustr" where
  "drift_message name path diff =
     lit ''event payload drift in `'' @ name @ lit ''` (fixture '' @ path @ lit '').'' @ [10] @
     lit ''If this change is intentional, it is an EVENTS.md-governed API change: '' @
     lit ''update EVENTS.md/CHANGELOG.md and regenerate with `'' @ UPDATE_ENV_VAR @
     lit ''=1 cargo test event_snapshot`.'' @ [10] @ diff"

text \<open>A failed \<open>create_dir_all\<close> or \<open>write\<close> is unwrapped and panics.\<close>

definition check_snapshot ::
    "SnapHost \<Rightarrow> ustr \<Rightarrow> ustr \<Rightarrow> bool \<Rightarrow> ((ustr + unit) \<times> SnapHost) host" where
  "check_snapshot h name actual allow_update =
     (let path = fixture_path h name in
      if allow_update \<and> update_var h then
        (if dir_created h \<and> written h path
         then Some (Inr (), h\<lparr>files := (files h)(path \<mapsto> actual)\<rparr>) else None)
      else case files h path of
        None \<Rightarrow> Some (Inl (missing_message path (read_error h path) actual), h)
      | Some expected \<Rightarrow> (case line_diff expected actual of
          None \<Rightarrow> Some (Inr (), h)
        | Some diff \<Rightarrow> Some (Inl (drift_message name path diff), h)))"

definition assert_snapshot ::
    "SnapHost \<Rightarrow> ustr \<Rightarrow> ustr \<Rightarrow> Renderer \<Rightarrow> EmittedEvent list \<Rightarrow> SnapHost host" where
  "assert_snapshot h name entry_point r evs =
     (let actual = render_snapshot name entry_point (render_last_events r evs) in
      case check_snapshot h name actual True of
        Some (Inr _, h') \<Rightarrow> Some h' | _ \<Rightarrow> None)"

subsection \<open>The gate\<close>

lemma render_snapshot_eq:
  "render_snapshot name entry_point events =
     unlines (snapshot_header name entry_point @
       (if events = [] then [lit ''(no events)''] else events))"
  by (simp add: render_snapshot_def foldl_append_concat unlines_def Let_def del: lit_simps)

lemma line_diff_same [simp]: "line_diff t t = None"
  by (simp add: line_diff_None)

lemma check_snapshot_compare:
  assumes "\<not> (allow \<and> update_var h)"
  shows "\<exists>res. check_snapshot h name actual allow = Some (res, h) \<and>
    (res = Inr () \<longleftrightarrow> files h (fixture_path h name) = Some actual)"
  using assms
  by (auto simp: check_snapshot_def Let_def line_diff_None split: option.splits)

lemma check_snapshot_drift:
  assumes "\<not> (allow \<and> update_var h)" "files h (fixture_path h name) = Some expected"
    "expected \<noteq> actual"
  shows "\<exists>d. check_snapshot h name actual allow =
      Some (Inl (drift_message name (fixture_path h name) d), h) \<and> line_diff expected actual = Some d"
proof -
  from assms(3) obtain d where "line_diff expected actual = Some d"
    by (cases "line_diff expected actual") (simp_all add: line_diff_None)
  with assms show ?thesis by (auto simp: check_snapshot_def)
qed

lemma check_snapshot_update:
  assumes "update_var h" "dir_created h" "written h (fixture_path h name)"
  shows "check_snapshot h name actual True =
    Some (Inr (), h\<lparr>files := (files h)(fixture_path h name \<mapsto> actual)\<rparr>)"
  using assms by (simp add: check_snapshot_def)

definition log_lines :: "Renderer \<Rightarrow> EmittedEvent list \<Rightarrow> bool" where
  "log_lines r evs \<longleftrightarrow> (\<forall>l \<in> set (render_last_events r evs). 10 \<notin> set l)"

lemma render_last_events_single: "render_last_events r evs \<noteq> [l]"
  by (cases evs) (simp_all add: render_last_events_def render_event_def Let_def)

lemma render_snapshot_inj:
  assumes "inj (xdr r)" "log_lines r evs" "log_lines r evs'"
  shows "render_snapshot name entry_point (render_last_events r evs) =
      render_snapshot name entry_point (render_last_events r evs') \<longleftrightarrow> evs = evs'"
proof -
  let ?b = "\<lambda>ls. if ls = [] then [lit ''(no events)''] else ls :: ustr list"
  let ?L = "render_last_events r evs" and ?L' = "render_last_events r evs'"
  have b: "\<forall>l \<in> set (?b ?L). 10 \<notin> set l" "\<forall>l \<in> set (?b ?L'). 10 \<notin> set l"
    using assms(2,3) by (auto simp: log_lines_def)
  have "unlines (snapshot_header name entry_point @ ?b ?L) =
      unlines (snapshot_header name entry_point @ ?b ?L') \<longleftrightarrow> ?b ?L = ?b ?L'"
    unfolding unlines_simps(3) same_append_eq
    by (rule iffI) (erule unlines_inj [OF b], erule arg_cong)
  also have "\<dots> \<longleftrightarrow> ?L = ?L'"
    using render_last_events_single [of r evs] render_last_events_single [of r evs']
    by metis
  finally show ?thesis by (simp only: render_snapshot_eq render_last_events_inj [OF assms(1)])
qed

text \<open>C16. The snapshot gate. Without the update switch the comparison never traps, changes no
  file, and accepts exactly the text on disk; so against a fixture rendered from a reviewed
  event log it accepts exactly that log, and otherwise its message ends in a diff from which
  both texts can be read. With the switch it writes the fixture, which accepts the same log
  from then on.\<close>

theorem snapshot_gate_exact:
  assumes "inj (xdr r)" "log_lines r evs" "log_lines r evs'"
    "files h (fixture_path h name) =
       Some (render_snapshot name entry_point (render_last_events r evs'))"
    "update_var h \<Longrightarrow> dir_created h \<and> written h (fixture_path h name)"
  shows "if update_var h
    then \<exists>h'. assert_snapshot h name entry_point r evs = Some h' \<and>
      (\<forall>p. p \<noteq> fixture_path h name \<longrightarrow> files h' p = files h p) \<and>
      (let h2 = h'\<lparr>update_var := False\<rparr> in assert_snapshot h2 name entry_point r evs = Some h2)
    else assert_snapshot h name entry_point r evs = (if evs = evs' then Some h else None) \<and>
      (evs \<noteq> evs' \<longrightarrow> (\<exists>d.
        check_snapshot h name (render_snapshot name entry_point (render_last_events r evs)) True =
          Some (Inl (drift_message name (fixture_path h name) d), h) \<and>
        line_diff (render_snapshot name entry_point (render_last_events r evs'))
          (render_snapshot name entry_point (render_last_events r evs)) = Some d))"
proof (cases "update_var h")
  case False
  then show ?thesis
    using check_snapshot_compare [of True h name
        "render_snapshot name entry_point (render_last_events r evs)"]
      check_snapshot_drift [of True h name, OF _ assms(4)]
      render_snapshot_inj [OF assms(1-3), of name entry_point] assms(4)
    by (auto simp: assert_snapshot_def Let_def split: sum.splits)
next
  case True
  let ?t = "render_snapshot name entry_point (render_last_events r evs)"
  let ?h = "h\<lparr>files := (files h)(fixture_path h name \<mapsto> ?t)\<rparr>"
  let ?h2 = "?h\<lparr>update_var := False\<rparr>"
  have p: "fixture_path ?h2 name = fixture_path h name"
    by (simp add: fixture_path_def fixture_dir_def)
  have "check_snapshot h name ?t True = Some (Inr (), ?h)"
    using check_snapshot_update assms(5) True by blast
  then have "assert_snapshot h name entry_point r evs = Some ?h"
    by (simp add: assert_snapshot_def)
  moreover have "check_snapshot ?h2 name ?t True = Some (Inr (), ?h2)"
    using check_snapshot_compare [of True ?h2 name ?t] p by auto
  ultimately show ?thesis using True by (simp add: assert_snapshot_def)
qed

subsection \<open>The catalogue\<close>

definition KNOWN_GAPS :: "(ustr \<times> ustr) list" where
  "KNOWN_GAPS =
    [(lit ''batch'', lit ''batch_register_callback lost in #176 merge (#199)''),
     (lit ''up_prop'', lit ''timelocked upgrade lost in #190 merge (#199)''),
     (lit ''uprop'', lit ''timelocked upgrade lost in #190 merge (#199)''),
     (lit ''up_fin'', lit ''timelocked upgrade lost in #190 merge (#199)''),
     (lit ''up_can'', lit ''timelocked upgrade lost in #190 merge (#199)''),
     (lit ''rollback'', lit ''rollback_upgrade lost in #190 merge (#199)''),
     (lit ''migrate'', lit ''upgrade_and_migrate lost in #190 merge (#199)''),
     (lit ''chk_pass'', lit ''post-upgrade self-check lost in #191 merge (#199)''),
     (lit ''chk_fail'', lit ''post-upgrade self-check lost in #191 merge (#199)''),
     (lit ''expire'', lit ''expire_transaction has no entry point (#199)''),
     (lit ''uqset'', lit ''upgrade quorum lost in #187 merge (#199)''),
     (lit ''attest'', lit ''set_signer_attestation has no entry point (#199)''),
     (lit ''renounce'', lit ''renounce_admin has no entry point (#199)''),
     (lit ''guardian'', lit ''set_guardian has no entry point (#199)''),
     (lit ''apause'', lit ''trip_auto_pause has no entry point (#199)''),
     (lit ''aunpause'', lit ''unpause_auto has no entry point (#199)'')]"

definition UNCATALOGUED_TOPICS :: "ustr list" where
  "UNCATALOGUED_TOPICS =
    [lit ''param'', lit ''bonded'', lit ''unbondrq'', lit ''unbondcl'', lit ''slashed'', lit ''tierset'', lit ''rebate'']"

text \<open>The scan of section 2: a row without a third column would panic at \<open>cols[2]\<close>.\<close>

fun scan_catalogue :: "bool \<Rightarrow> bset \<Rightarrow> ustr list \<Rightarrow> bset host" where
  "scan_catalogue in_table topics [] = Some topics"
| "scan_catalogue in_table topics (line # ls) =
     (if prefix (lit ''## 2.'') line then scan_catalogue True topics ls
      else if in_table \<and> prefix (lit ''## '') line then Some topics
      else if \<not> in_table \<or> \<not> prefix (lit ''| [`Event'') line then scan_catalogue in_table topics ls
      else let cols = map trim (split_on 124 line) in
        case get_line cols 2 of None \<Rightarrow> None
        | Some c \<Rightarrow> scan_catalogue in_table (bs_insert (trim_matches 96 c) topics) ls)"

definition catalogued_topics :: "ustr \<Rightarrow> bset host" where
  "catalogued_topics events_md = scan_catalogue False [] (text_lines events_md)"

text \<open>The covered topics; \<open>paths\<close> is what \<open>read_dir\<close> yields for the fixture directory, if it
  can be read at all.\<close>

definition topic_of_line :: "ustr \<Rightarrow> ustr option" where
  "topic_of_line line =
     map_option (trim_end_matches 93) (strip_str (lit ''topics: [sym:synapse, sym:'') line)"

definition scan_fixture :: "bset \<Rightarrow> ustr \<Rightarrow> bset" where
  "scan_fixture topics txt =
     foldl (\<lambda>topics line. case topic_of_line line of
         None \<Rightarrow> topics | Some t \<Rightarrow> bs_insert t topics) topics (text_lines txt)"

definition snapshotted_topics :: "SnapHost \<Rightarrow> ustr list option \<Rightarrow> bset host" where
  "snapshotted_topics h paths = do {
     ps \<leftarrow> paths;
     fold_host (\<lambda>topics p. do {
         txt \<leftarrow> files h p;
         Some (scan_fixture topics txt) }) [] ps }"

definition every_catalogued_event_has_a_snapshot_or_a_tracked_gap ::
    "ustr \<Rightarrow> SnapHost \<Rightarrow> ustr list option \<Rightarrow> unit host" where
  "every_catalogued_event_has_a_snapshot_or_a_tracked_gap events_md h paths = do {
     catalogued \<leftarrow> catalogued_topics events_md;
     assert_that (length catalogued \<ge> 10);
     covered \<leftarrow> snapshotted_topics h paths;
     let gaps = bs_of (map fst KNOWN_GAPS);
     let uncatalogued = bs_of UNCATALOGUED_TOPICS;
     assert_that (filter (\<lambda>t. t \<notin> set covered \<and> t \<notin> set gaps) catalogued = []);
     assert_that (filter (\<lambda>t. t \<in> set covered) gaps = []);
     assert_that (filter (\<lambda>t. t \<notin> set catalogued) gaps = []);
     assert_that (bs_difference covered catalogued = uncatalogued) }"

subsection \<open>What the coverage test decides\<close>

lemma scan_catalogue_ok: "scan_catalogue b s ls = Some s' \<Longrightarrow> bs_ok s \<Longrightarrow> bs_ok s'"
  by (induction b s ls rule: scan_catalogue.induct)
    (auto simp: bs_ok_insert Let_def split: if_splits option.splits simp del: lit_simps)

lemma catalogued_topics_ok: "catalogued_topics md = Some s \<Longrightarrow> bs_ok s"
  unfolding catalogued_topics_def by (erule scan_catalogue_ok) simp

lemma scan_fixture_ok:
  "bs_ok s \<Longrightarrow> bs_ok (scan_fixture s t) \<and>
     set (scan_fixture s t) = set s \<union> {x. \<exists>l \<in> set (text_lines t). topic_of_line l = Some x}"
proof -
  have "bs_ok s \<Longrightarrow> bs_ok (foldl (\<lambda>s l. case topic_of_line l of None \<Rightarrow> s | Some t \<Rightarrow> bs_insert t s) s ls) \<and>
      set (foldl (\<lambda>s l. case topic_of_line l of None \<Rightarrow> s | Some t \<Rightarrow> bs_insert t s) s ls) =
        set s \<union> {x. \<exists>l \<in> set ls. topic_of_line l = Some x}" for ls
  proof (induction ls arbitrary: s)
    case (Cons l ls)
    then show ?case by (cases "topic_of_line l") (auto simp: bs_ok_insert)
  qed simp
  then show "bs_ok s \<Longrightarrow> ?thesis" by (simp add: scan_fixture_def)
qed

text \<open>Every fixture is readable, and the covered topics are those of their lines.\<close>

definition fixture_topics :: "SnapHost \<Rightarrow> ustr list \<Rightarrow> ustr set" where
  "fixture_topics h ps =
     {x. \<exists>p \<in> set ps. \<exists>t. files h p = Some t \<and> (\<exists>l \<in> set (text_lines t). topic_of_line l = Some x)}"

lemma fold_fixtures:
  "bs_ok s \<Longrightarrow> fold_host (\<lambda>s p. do { t \<leftarrow> files h p; Some (scan_fixture s t) }) s ps = r \<Longrightarrow>
     (case r of None \<Rightarrow> \<exists>p \<in> set ps. files h p = None
      | Some s' \<Rightarrow> (\<forall>p \<in> set ps. files h p \<noteq> None) \<and> bs_ok s' \<and> set s' = set s \<union> fixture_topics h ps)"
proof (induction ps arbitrary: s)
  case Nil
  then show ?case by (auto simp: fixture_topics_def)
next
  case (Cons p ps)
  show ?case
  proof (cases "files h p")
    case None
    with Cons.prems show ?thesis by auto
  next
    case (Some t)
    with Cons.IH [of "scan_fixture s t"] Cons.prems scan_fixture_ok [of s t]
    show ?thesis by (auto simp: fixture_topics_def split: option.splits)
  qed
qed

lemma snapshotted_topics_spec:
  "snapshotted_topics h paths = Some s \<longleftrightarrow>
     (\<exists>ps. paths = Some ps \<and> (\<forall>p \<in> set ps. files h p \<noteq> None) \<and> bs_ok s \<and> set s = fixture_topics h ps)"
proof (cases paths)
  case None
  then show ?thesis by (simp add: snapshotted_topics_def)
next
  case (Some ps)
  let ?r = "fold_host (\<lambda>s p. do { t \<leftarrow> files h p; Some (scan_fixture s t) }) [] ps"
  from Some have e: "snapshotted_topics h paths = ?r" by (simp add: snapshotted_topics_def)
  show ?thesis
  proof (cases ?r)
    case None
    with fold_fixtures [of "[]" h ps, OF _ refl] e Some show ?thesis by auto
  next
    case (Some s')
    with fold_fixtures [of "[]" h ps, OF _ refl] have "bs_ok s'" "set s' = fixture_topics h ps"
      "\<forall>p \<in> set ps. files h p \<noteq> None" by auto
    with e Some \<open>paths = Some ps\<close> show ?thesis using bs.eq_iff [of s' s] by auto
  qed
qed

lemma snapshotted_exists:
  assumes "paths = Some ps" "\<forall>p \<in> set ps. files h p \<noteq> None"
  shows "\<exists>V. snapshotted_topics h paths = Some V \<and> bs_ok V \<and> set V = fixture_topics h ps"
  using fold_fixtures [of "[]" h ps, OF _ refl] assms
  by (auto simp: snapshotted_topics_def split: option.splits)

text \<open>C23. The coverage test passes exactly when the catalogue scan finds at least ten topics, each
  has a fixture or a known gap, every known gap is catalogued and has no fixture, and the
  topics with a fixture but no row are exactly the listed ones; the fixtures must be
  readable.\<close>

theorem coverage_test_exact:
  "every_catalogued_event_has_a_snapshot_or_a_tracked_gap md h paths = Some () \<longleftrightarrow>
     (\<exists>C ps. catalogued_topics md = Some C \<and> paths = Some ps \<and> (\<forall>p \<in> set ps. files h p \<noteq> None) \<and>
        card (set C) \<ge> 10 \<and>
        set C \<subseteq> fixture_topics h ps \<union> fst ` set KNOWN_GAPS \<and>
        fst ` set KNOWN_GAPS \<subseteq> set C - fixture_topics h ps \<and>
        fixture_topics h ps - set C = set UNCATALOGUED_TOPICS)"
  (is "?test = Some () \<longleftrightarrow> (\<exists>C ps. ?spec C ps)")
proof
  assume t: "?test = Some ()"
  then obtain C V where C: "catalogued_topics md = Some C" and V: "snapshotted_topics h paths = Some V"
    and n: "length C \<ge> 10"
    and sub: "filter (\<lambda>t. t \<notin> set V \<and> t \<notin> set (bs_of (map fst KNOWN_GAPS))) C = []"
    and stale: "filter (\<lambda>t. t \<in> set V) (bs_of (map fst KNOWN_GAPS)) = []"
    and gone: "filter (\<lambda>t. t \<notin> set C) (bs_of (map fst KNOWN_GAPS)) = []"
    and diff: "bs_difference V C = bs_of UNCATALOGUED_TOPICS"
    by (force simp: every_catalogued_event_has_a_snapshot_or_a_tracked_gap_def Let_def
        bind_eq_Some_conv)
  from V obtain ps where ps: "paths = Some ps" "\<forall>p \<in> set ps. files h p \<noteq> None"
    "set V = fixture_topics h ps" unfolding snapshotted_topics_spec by blast
  from n bs.size_card [OF catalogued_topics_ok [OF C]] have "card (set C) \<ge> 10" by simp
  moreover have "set V - set C = set UNCATALOGUED_TOPICS"
    using diff by (metis set_bs_difference set_bs_of)
  ultimately have "?spec C ps" using C ps sub stale gone by (auto simp: filter_empty_conv)
  then show "\<exists>C ps. ?spec C ps" by blast
next
  assume "\<exists>C ps. ?spec C ps"
  then obtain C ps where sp: "?spec C ps" by blast
  obtain V where V: "snapshotted_topics h paths = Some V" "bs_ok V" "set V = fixture_topics h ps"
    using sp snapshotted_exists [of paths ps h] by blast
  have "bs_difference V C = bs_of UNCATALOGUED_TOPICS"
    using sp V by (simp add: bs.eq_iff [OF bs_ok_difference [OF V(2)] bs_of_ok])
  with sp V bs.size_card [OF catalogued_topics_ok, of md C] show "?test = Some ()"
    by (auto simp: every_catalogued_event_has_a_snapshot_or_a_tracked_gap_def Let_def
        bind_eq_Some_conv filter_empty_conv)
qed

subsection \<open>The committed catalogue\<close>

text \<open>\<open>EVENTS.md\<close> up to the heading of section 3.\<close>

definition EVENTS_MD_1 :: "ustr list" where
  "EVENTS_MD_1 =
    [lit ''# Events'',
     [],
     lit ''This document is the **locked event schema** for the contract. It is the single'',
     lit ''source of truth for the events the contract emits, and it is checked against the'',
     lit ''implementation by the automated conformance test (issues #43/#44). Any change to'',
     lit ''an emitted event '' @ em_dash @ lit '' its topic, its field list, or its emitting entry point '' @ em_dash @ lit '' must'',
     lit ''be reflected here in the same PR, or the conformance check will fail.'',
     [],
     lit ''The schema is \"locked\" in the sense that it is authoritative and machine-checked:'',
     lit ''it is not a wish list of events we would like to have. Only events that have a'',
     lit ''real, working emitter in `src/events.rs` and a corresponding `#[contractimpl]`'',
     lit ''entry point are catalogued below.'',
     [],
     lit ''## 1. Conventions'',
     [],
     lit ''- **Topic** '' @ em_dash @ lit '' the symbol under which the event is published. Topics are short,'',
     lit ''  stable identifiers; they are part of the public ABI and must not be renamed'',
     lit ''  without a coordinated off-chain migration.'',
     lit ''- **Fields** '' @ em_dash @ lit '' the `#[contracttype]` payload struct for the event, listed in'',
     lit ''  declaration order with the field name and its Soroban type. Field order is'',
     lit ''  significant: it is the serialization order of the payload.'',
     lit ''- **Emitter** '' @ em_dash @ lit '' the `#[contractimpl]` entry point that publishes the event.'',
     lit ''- **Ordering** '' @ em_dash @ lit '' where a single entry point publishes more than one event, the'',
     lit ''  guaranteed emission order is stated explicitly (issue #45). Off-chain'',
     lit ''  consumers may rely on this ordering.'',
     []]"

definition EVENTS_MD_ROWS :: "ustr list" where
  "EVENTS_MD_ROWS =
    [[],
     lit ''Each row below corresponds to exactly one event with a working emitter. The'',
     lit ''original ten \"live emitters\" from the README (`init`, `reg`, `status`, `done`,'',
     lit ''`fail`, `propose`, `admin`, `relay`, `pause`, `upgrade`) are all present, plus'',
     lit ''any events restored by issues #32'' @ [0x2013] @ lit ''#40.'',
     [],
     lit ''| Topic | Fields (`#[contracttype]`, declaration order) | Emitting entry point | Guaranteed ordering |'',
     lit ''| --- | --- | --- | --- |'',
     lit ''| `init` | `admin: Address`, `version: u32` | `initialize` | '' @ em_dash @ lit '' |'',
     lit ''| `reg` | `account: Address`, `role: u32` | `register` | '' @ em_dash @ lit '' |'',
     lit ''| `status` | `id: u64`, `status: u32` | `update_status`, `complete_transaction` | In `complete_transaction`: `status` is emitted **before** `done`. |'',
     lit ''| `done` | `id: u64`, `result: Bytes` | `complete_transaction` | In `complete_transaction`: emitted **after** `status`. |'',
     lit ''| `fail` | `id: u64`, `reason: Symbol` | `fail_transaction` | '' @ em_dash @ lit '' |'',
     lit ''| `propose` | `id: u64`, `proposer: Address`, `payload: Bytes` | `propose` | '' @ em_dash @ lit '' |'',
     lit ''| `admin` | `admin: Address`, `action: Symbol` | `set_admin` | '' @ em_dash @ lit '' |'',
     lit ''| `relay` | `id: u64`, `relayer: Address` | `relay` | '' @ em_dash @ lit '' |'',
     lit ''| `pause` | `paused: bool`, `by: Address` | `pause`, `unpause` | '' @ em_dash @ lit '' |'',
     lit ''| `upgrade` | `version: u32`, `by: Address` | `upgrade` | '' @ em_dash @ lit '' |'',
     [],
     lit ''> **Note on ordering (issue #45):** the only entry point that publishes more'',
     lit ''> than one event is `complete_transaction`, which emits `status` followed by'',
     lit ''> `done`. All other entry points publish exactly one event, so no ordering'',
     lit ''> guarantee applies beyond the single emission.'',
     []]"

definition EVENTS_MD_2 :: "ustr list" where
  "EVENTS_MD_2 =
    lit ''## 2. Event catalogue'' # EVENTS_MD_ROWS @ [lit ''## 3. Explicitly excluded topics'']"

lemma scan_before_table:
  "list_all (\<lambda>l. \<not> prefix (lit ''## 2.'') l) ls \<Longrightarrow>
     scan_catalogue False s (ls @ rest) = scan_catalogue False s rest"
  by (induction ls) (simp_all del: lit_simps)

lemma scan_no_rows:
  "list_all (\<lambda>l. \<not> prefix (lit ''| [`Event'') l) ls \<Longrightarrow> scan_catalogue b s ls = Some s"
  by (induction ls arbitrary: b) (simp_all del: lit_simps)

lemma scan_table_end:
  "list_all (\<lambda>l. \<not> prefix (lit ''| [`Event'') l) ls \<Longrightarrow>
   \<not> prefix (lit ''## 2.'') l \<Longrightarrow> prefix (lit ''## '') l \<Longrightarrow>
     scan_catalogue True s (ls @ l # rest) = Some s"
  by (induction ls) (simp_all del: lit_simps)

lemma events_md_plain: "list_all (\<lambda>l. 10 \<notin> set l \<and> 13 \<notin> set l) (EVENTS_MD_1 @ EVENTS_MD_2)"
  by (simp add: EVENTS_MD_1_def EVENTS_MD_2_def EVENTS_MD_ROWS_def em_dash_def)

lemma events_md_no_table: "list_all (\<lambda>l. \<not> prefix (lit ''## 2.'') l) EVENTS_MD_1"
  by (simp add: EVENTS_MD_1_def em_dash_def)

lemma events_md_no_rows: "list_all (\<lambda>l. \<not> prefix (lit ''| [`Event'') l) EVENTS_MD_ROWS"
  by (simp add: EVENTS_MD_ROWS_def em_dash_def)

text \<open>The committed \<open>EVENTS.md\<close> has no row in the form the scan looks for: its table rows
  begin with the topic, not with a link to the event struct.  So the scan finds no topic and
  the coverage test fails, whatever the rest of the document and the fixtures are.\<close>

theorem committed_catalogue_fails:
  "catalogued_topics (unlines (EVENTS_MD_1 @ EVENTS_MD_2) @ rest) = Some [] \<and>
   every_catalogued_event_has_a_snapshot_or_a_tracked_gap
     (unlines (EVENTS_MD_1 @ EVENTS_MD_2) @ rest) h paths = None"
proof -
  have "text_lines (unlines (EVENTS_MD_1 @ EVENTS_MD_2) @ rest) =
      EVENTS_MD_1 @ EVENTS_MD_2 @ text_lines rest"
    using events_md_plain text_lines_append [of "EVENTS_MD_1 @ EVENTS_MD_2" rest]
    by (simp add: list_all_iff plainI del: unlines_simps)
  moreover have "scan_catalogue False [] (EVENTS_MD_2 @ text_lines rest) = Some []"
    using scan_table_end [OF events_md_no_rows] by (simp add: EVENTS_MD_2_def)
  ultimately have "catalogued_topics (unlines (EVENTS_MD_1 @ EVENTS_MD_2) @ rest) = Some []"
    by (simp only: catalogued_topics_def scan_before_table [OF events_md_no_table])
  then show ?thesis
    by (simp add: every_catalogued_event_has_a_snapshot_or_a_tracked_gap_def assert_that_def
        del: unlines_simps)
qed

subsection \<open>The topics of a rendered fixture\<close>

definition published_as :: "ustr \<Rightarrow> EmittedEvent \<Rightarrow> bool" where
  "published_as t e \<longleftrightarrow> em_topics e = [ScSymbol (lit ''synapse''), ScSymbol t]"

lemma render_published_as:
  assumes "published_as t e"
  shows "\<exists>d x. render_event r e =
    [lit ''topics: [sym:synapse, sym:'' @ t @ [93], lit ''data:   '' @ d, lit ''xdr:    '' @ x]"
  using assms by (simp add: render_event_def published_as_def Let_def)

lemma topic_of_topics_line:
  "t = [] \<or> last t \<noteq> 93 \<Longrightarrow> topic_of_line (lit ''topics: [sym:synapse, sym:'' @ t @ [93]) = Some t"
  unfolding topic_of_line_def strip_str_append by (simp add: trim_end_matches_one)

lemma topic_of_other_line: "c \<noteq> 116 \<Longrightarrow> topic_of_line (c # l) = None"
  by (simp add: topic_of_line_def strip_str_def)

lemma rendered_log_topics:
  assumes "\<forall>e \<in> set evs. \<exists>t. published_as t e \<and> (t = [] \<or> last t \<noteq> 93)"
  shows "{x. \<exists>l \<in> set (render_last_events r evs). topic_of_line l = Some x} =
    {t. \<exists>e \<in> set evs. published_as t e}"
  using assms
proof (induction evs)
  case Nil
  show ?case by (simp add: render_last_events_def)
next
  case (Cons e evs)
  then obtain t where t: "published_as t e" "t = [] \<or> last t \<noteq> 93" by auto
  obtain d x where e: "render_event r e =
      [lit ''topics: [sym:synapse, sym:'' @ t @ [93], lit ''data:   '' @ d, lit ''xdr:    '' @ x]"
    using render_published_as [OF t(1)] by blast
  have "{x. \<exists>l \<in> set (render_event r e). topic_of_line l = Some x} = {t}"
    unfolding e using topic_of_topics_line [OF t(2)] by (auto simp: topic_of_other_line)
  moreover have "{u. published_as u e} = {t}" using t(1) by (auto simp: published_as_def)
  ultimately show ?case
    using Cons.IH Cons.prems unfolding render_last_events_Cons by auto
qed

text \<open>The scan of the fixtures reads the snapshots' own format: from the fixture rendered
  for an event log it collects exactly the second topics of the log's events.\<close>

theorem snapshot_topics_exact:
  assumes "\<forall>e \<in> set evs. \<exists>t. published_as t e \<and> (t = [] \<or> last t \<noteq> 93)"
    "\<forall>l \<in> set (snapshot_header name entry_point @ render_last_events r evs). plain l"
  shows "set (scan_fixture [] (render_snapshot name entry_point (render_last_events r evs))) =
    {t. \<exists>e \<in> set evs. published_as t e}"
proof -
  let ?L = "render_last_events r evs"
  let ?body = "if ?L = [] then [lit ''(no events)''] else ?L"
  have p: "\<forall>l \<in> set (snapshot_header name entry_point @ ?body). plain l"
    using assms(2) by (auto intro: plainI)
  have "{x. \<exists>l \<in> set (snapshot_header name entry_point). topic_of_line l = Some x} = {}"
    by (simp add: snapshot_header_def topic_of_other_line)
  moreover have "{x. \<exists>l \<in> set ?body. topic_of_line l = Some x} =
      {x. \<exists>l \<in> set ?L. topic_of_line l = Some x}"
    by (simp add: topic_of_other_line)
  ultimately show ?thesis
    unfolding render_snapshot_eq rendered_log_topics [OF assms(1), symmetric, of r]
    using scan_fixture_ok [of "[]" "unlines (snapshot_header name entry_point @ ?body)"]
    unfolding text_lines_unlines [OF p] by auto
qed

subsection \<open>Witnesses\<close>

definition example_event :: "u64 \<Rightarrow> EmittedEvent" where
  "example_event n =
     \<lparr>em_topics = [ScSymbol (lit ''synapse''), ScSymbol (lit ''reg'')], em_data = ScU64 n\<rparr>"

lemma hex_plain: "10 \<notin> set (hex bs) \<and> 13 \<notin> set (hex bs)"
  using hex_chars [of 10 bs] hex_chars [of 13 bs] by auto

lemma digits_newline_free: "10 \<notin> set (digits n) \<and> 13 \<notin> set (digits n)"
  using digits_range [of 10 n] digits_range [of 13 n] by auto

lemma example_lines:
  "\<forall>l \<in> set (render_last_events example_renderer [example_event n]). 10 \<notin> set l \<and> 13 \<notin> set l"
  using hex_plain digits_newline_free
  by (simp add: render_last_events_def render_event_def Let_def example_event_def xdr_hex_def
      display_int_def)

definition example_snap_host :: SnapHost where
  "example_snap_host =
    \<lparr>manifest_dir = lit ''/src'', update_var = False,
     files = (\<lambda>p. Some (render_snapshot (lit ''reg'') (lit ''register_callback'')
       (render_last_events example_renderer [example_event 1]))),
     dir_created = True, written = (\<lambda>_. True), read_error = (\<lambda>_. [])\<rparr>"

theorem snapshot_gate_exact_witness:
  "assert_snapshot example_snap_host (lit ''reg'') (lit ''register_callback'') example_renderer
     [example_event 1] = Some example_snap_host \<and>
   assert_snapshot example_snap_host (lit ''reg'') (lit ''register_callback'') example_renderer
     [example_event 2] = None"
proof -
  have l: "log_lines example_renderer [example_event n]" for n
    using example_lines by (simp add: log_lines_def)
  have f: "files example_snap_host (fixture_path example_snap_host (lit ''reg'')) =
      Some (render_snapshot (lit ''reg'') (lit ''register_callback'')
        (render_last_events example_renderer [example_event 1]))"
    and u: "\<not> update_var example_snap_host"
    by (simp_all only: example_snap_host_def SnapHost.simps not_False_eq_True)
  have "example_event 2 \<noteq> example_event 1" by (simp add: example_event_def)
  then show ?thesis
    using snapshot_gate_exact [OF example_renderer_inj l l f] u by (simp del: lit_simps)
qed

theorem snapshot_topics_exact_witness:
  "set (scan_fixture [] (render_snapshot (lit ''reg'') (lit ''register_callback'')
     (render_last_events example_renderer [example_event 1]))) = {lit ''reg''}"
proof -
  have e: "published_as t (example_event 1) \<longleftrightarrow> t = lit ''reg''" for t
    by (auto simp: published_as_def example_event_def)
  have "\<forall>l \<in> set (snapshot_header (lit ''reg'') (lit ''register_callback'')). plain l"
    by (auto simp: snapshot_header_def UPDATE_ENV_VAR_def intro!: plainI)
  then have "\<forall>l \<in> set (snapshot_header (lit ''reg'') (lit ''register_callback'') @
      render_last_events example_renderer [example_event 1]). plain l"
    using example_lines [of 1] plainI unfolding set_append by blast
  moreover have "\<forall>x \<in> set [example_event 1]. \<exists>t. published_as t x \<and> (t = [] \<or> last t \<noteq> 93)"
    by (simp add: e)
  ultimately show ?thesis
    using snapshot_topics_exact [of "[example_event 1]" "lit ''reg''" "lit ''register_callback''"
        example_renderer] by (simp add: e del: lit_simps)
qed

text \<open>A catalogue and a fixture on which the coverage test passes: a row for each known gap and
  for \<open>status\<close>, and a fixture line for \<open>status\<close> and each topic without a row.\<close>

definition example_row :: "ustr \<Rightarrow> ustr" where
  "example_row t = lit ''| [`EventX`] | `'' @ t @ lit ''` |''"

definition example_topics :: "ustr list" where
  "example_topics = map fst KNOWN_GAPS @ [lit ''status'']"

definition example_catalogue :: ustr where
  "example_catalogue = unlines (lit ''## 2. Events'' # map example_row example_topics)"

definition example_fixture :: ustr where
  "example_fixture =
     unlines (map (\<lambda>t. lit ''topics: [sym:synapse, sym:'' @ t @ [93]) (lit ''status'' # UNCATALOGUED_TOPICS))"

definition word_topic :: "ustr \<Rightarrow> bool" where
  "word_topic t \<longleftrightarrow> t \<noteq> [] \<and> list_all (\<lambda>c. c \<notin> {10, 13, 93, 96, 124} \<and> \<not> is_whitespace c) t"

lemma word_topics: "list_all word_topic (example_topics @ UNCATALOGUED_TOPICS)"
  by (simp add: example_topics_def KNOWN_GAPS_def UNCATALOGUED_TOPICS_def word_topic_def is_whitespace_def)

lemma word_topic_facts:
  assumes "word_topic t"
  shows "t \<noteq> []" "10 \<notin> set t" "13 \<notin> set t" "124 \<notin> set t" "hd t \<noteq> 96" "last t \<noteq> 96" "last t \<noteq> 93"
  using assms hd_in_set [of t] last_in_set [of t] by (auto simp: word_topic_def list_all_iff)

lemma example_row_columns:
  assumes "word_topic t"
  shows "get_line (map trim (split_on 124 (example_row t))) 2 = Some ([96] @ t @ [96])"
proof -
  note t = word_topic_facts [OF assms]
  have "split_on 124 ([32, 96] @ t @ [96, 32] @ 124 # []) = ([32, 96] @ t @ [96, 32]) # split_on 124 []"
    using t(4) split_on_join [of 124 "[32, 96] @ t @ [96, 32]" "[]"] by simp
  moreover have "trim ([32, 96] @ t @ [96, 32]) = [96] @ t @ [96]"
  proof -
    have "trim ((96 # t @ [96]) @ [32]) = 96 # t @ [96]"
      by (rule trim_space(2)) (simp_all add: is_whitespace_def)
    moreover have "trim (32 # (96 # t @ [96, 32])) = trim (96 # t @ [96, 32])"
      by (simp add: trim_def is_whitespace_def)
    ultimately show ?thesis by simp
  qed
  ultimately show ?thesis by (simp add: example_row_def get_line_def)
qed

lemma scan_example_rows:
  "list_all word_topic ts \<Longrightarrow>
     scan_catalogue True s (map example_row ts) = Some (foldl (\<lambda>s t. bs_insert t s) s ts)"
proof (induction ts arbitrary: s)
  case (Cons t ts)
  then have t: "word_topic t" by simp
  have p: "\<not> prefix (lit ''## 2.'') (example_row t)" "\<not> prefix (lit ''## '') (example_row t)"
    "prefix (lit ''| [`Event'') (example_row t)"
    by (simp_all add: example_row_def)
  have "trim_matches 96 ([96] @ t @ [96]) = t"
    using trim_matches_quoted [of t 96] word_topic_facts [OF t] by simp
  then have "scan_catalogue True s (example_row t # map example_row ts) =
      scan_catalogue True (bs_insert t s) (map example_row ts)"
    using p by (simp add: example_row_columns [OF t] Let_def del: lit_simps append.simps split_on.simps)
  with Cons show ?case by simp
qed simp

lemma example_catalogued: "catalogued_topics example_catalogue = Some (bs_of example_topics)"
proof -
  have w: "list_all word_topic example_topics" using word_topics by simp
  have "\<forall>l \<in> set (lit ''## 2. Events'' # map example_row example_topics). plain l"
    using w word_topic_facts(2,3)
    by (auto simp: list_all_iff example_row_def intro!: plainI)
  then have "text_lines example_catalogue = lit ''## 2. Events'' # map example_row example_topics"
    unfolding example_catalogue_def by (rule text_lines_unlines)
  then show ?thesis
    using scan_example_rows [OF w] by (simp add: catalogued_topics_def bs_of_def)
qed

lemma example_fixture_topics:
  "{x. \<exists>l \<in> set (text_lines example_fixture). topic_of_line l = Some x} =
     set (lit ''status'' # UNCATALOGUED_TOPICS)"
proof -
  let ?ts = "lit ''status'' # UNCATALOGUED_TOPICS"
  have w: "\<forall>t \<in> set ?ts. word_topic t"
    using word_topics by (simp add: list_all_iff example_topics_def)
  then have "\<forall>l \<in> set (map (\<lambda>t. lit ''topics: [sym:synapse, sym:'' @ t @ [93]) ?ts). plain l"
    using word_topic_facts(2,3) by (auto intro!: plainI)
  then have "text_lines example_fixture = map (\<lambda>t. lit ''topics: [sym:synapse, sym:'' @ t @ [93]) ?ts"
    unfolding example_fixture_def by (rule text_lines_unlines)
  moreover have "\<forall>t \<in> set ?ts. topic_of_line (lit ''topics: [sym:synapse, sym:'' @ t @ [93]) = Some t"
    using w word_topic_facts(7) topic_of_topics_line by blast
  ultimately show ?thesis by (auto simp del: lit_simps)
qed

lemma example_disjoint:
  "list_all (\<lambda>t. t \<notin> set UNCATALOGUED_TOPICS) example_topics" "distinct example_topics"
  by (simp_all add: example_topics_def KNOWN_GAPS_def UNCATALOGUED_TOPICS_def)

theorem coverage_test_exact_witness:
  "every_catalogued_event_has_a_snapshot_or_a_tracked_gap example_catalogue
     (example_snap_host\<lparr>files := (\<lambda>_. Some example_fixture)\<rparr>) (Some [lit ''status.snap'']) = Some ()"
proof -
  let ?h = "example_snap_host\<lparr>files := (\<lambda>_. Some example_fixture)\<rparr>"
  have f: "fixture_topics ?h [lit ''status.snap''] = insert (lit ''status'') (set UNCATALOGUED_TOPICS)"
    using example_fixture_topics by (simp add: fixture_topics_def del: lit_simps)
  have "lit ''status'' \<notin> fst ` set KNOWN_GAPS"
    using example_disjoint(2) by (auto simp: example_topics_def simp del: lit_simps)
  moreover have "fst ` set KNOWN_GAPS \<inter> set UNCATALOGUED_TOPICS = {}" "lit ''status'' \<notin> set UNCATALOGUED_TOPICS"
    using example_disjoint(1) by (auto simp: example_topics_def list_all_iff simp del: lit_simps)
  moreover have "card (set example_topics) \<ge> 10"
    using distinct_card [OF example_disjoint(2)] by (simp add: example_topics_def KNOWN_GAPS_def del: lit_simps)
  moreover have "set (bs_of example_topics) = insert (lit ''status'') (fst ` set KNOWN_GAPS)"
    by (simp add: example_topics_def del: lit_simps)
  ultimately show ?thesis
    unfolding coverage_test_exact
    by (intro exI [of _ "bs_of example_topics"] exI [of _ "[lit ''status.snap'']"])
      (auto simp: example_catalogued f simp del: lit_simps)
qed

end
