(* ===== verification/Event_Conformance.thy ===== *)
theory Event_Conformance
  imports Events Text_Scan
begin

text \<open>
  The event conformance tests of \<open>src/test_events_conformance.rs\<close>: the names of the logged
  events, the four ordering checks over them, the scan of the committed event manifest and the
  decoder coverage test.  The scenarios that produce the logs call entry points that are not in
  the repository; the checks are modelled over any log, and composed with the emission helpers
  of \<open>src/events.rs\<close>.  The drift fixtures use a checker that is defined nowhere.
\<close>

subsection \<open>Event names\<close>

text \<open>\<open>into_val\<close> of a first topic that is not a symbol panics.\<close>

definition topic_symbol :: "Topic \<Rightarrow> string host" where
  "topic_symbol t = (case t of TSym s \<Rightarrow> Some s | _ \<Rightarrow> None)"

definition event_names :: "('m, 'u) Env \<Rightarrow> string list host" where
  "event_names env =
     fold_host (\<lambda>names (topics, _).
       case topics of [] \<Rightarrow> Some names
       | first # _ \<Rightarrow> do { sym \<leftarrow> topic_symbol first; Some (names @ [sym]) }) [] (events env)"

subsection \<open>The ordering checks\<close>

text \<open>The loop that keeps the last index of each of two names; in the code a name equal to the
  first one is not compared with the second.\<close>

definition last_two :: "string \<Rightarrow> string \<Rightarrow> string list \<Rightarrow> nat option \<times> nat option" where
  "last_two a b names =
     foldl (\<lambda>(x, y) i. let name = names ! i in
         if name = a then (Some i, y) else if name = b then (x, Some i) else (x, y))
       (None, None) [0..<length names]"

definition assert_before :: "string \<Rightarrow> string \<Rightarrow> string list \<Rightarrow> unit host" where
  "assert_before a b names =
     (let (x, y) = last_two a b names in do {
       i \<leftarrow> x;
       j \<leftarrow> y;
       assert_that (i < j) })"

definition complete_transaction_emits_status_then_done :: "('m, 'u) Env \<Rightarrow> unit host" where
  "complete_transaction_emits_status_then_done env = do {
     names \<leftarrow> event_names env;
     assert_before ''status'' ''done'' names }"

definition dispute_resolution_emits_raised_before_resolved :: "('m, 'u) Env \<Rightarrow> unit host" where
  "dispute_resolution_emits_raised_before_resolved env = do {
     names \<leftarrow> event_names env;
     assert_before ''d_raise'' ''d_resolv'' names }"

definition upgrade_finalize_emits_up_fin_last :: "('m, 'u) Env \<Rightarrow> unit host" where
  "upgrade_finalize_emits_up_fin_last env = do {
     names \<leftarrow> event_names env;
     up_fin_idx \<leftarrow> foldl (\<lambda>x i. if names ! i = ''up_fin'' then Some i else x) None [0..<length names];
     assert_that (up_fin_idx = length names - 1) }"

text \<open>The data of an event read as a symbol; any other value panics.  The ids the \<open>reg\<close> events
  carry, in the order of the log.\<close>

definition data_symbol :: "Payload \<Rightarrow> string host" where
  "data_symbol d = (case d of PSymbol s \<Rightarrow> Some s | _ \<Rightarrow> None)"

definition seen_ids :: "('m, 'u) Env \<Rightarrow> string list host" where
  "seen_ids env =
     fold_host (\<lambda>ids (topics, data).
       case topics of [] \<Rightarrow> Some ids
       | first # _ \<Rightarrow> do {
           sym \<leftarrow> topic_symbol first;
           if sym = ''reg'' then do { i \<leftarrow> data_symbol data; Some (ids @ [i]) } else Some ids })
       [] (events env)"

definition callback_ids :: "string list" where
  "callback_ids = [''cb_a'', ''cb_b'', ''cb_c'']"

text \<open>With no \<open>reg\<close> event the index \<open>len() - 1\<close> underflows.\<close>

definition batch_register_callback_emits_regs_in_order_then_batch ::
    "('m, 'u) Env \<Rightarrow> unit host" where
  "batch_register_callback_emits_regs_in_order_then_batch env = do {
     names \<leftarrow> event_names env;
     let (reg_indices, batch) =
       foldl (\<lambda>(rs, b) i. let name = names ! i in
           if name = ''reg'' then (rs @ [i], b) else if name = ''batch'' then (rs, Some i) else (rs, b))
         ([], None) [0..<length names];
     assert_that (length reg_indices = length callback_ids);
     batch_idx \<leftarrow> batch;
     last_reg \<leftarrow> (if reg_indices = [] then None else Some (last reg_indices));
     assert_that (last_reg < batch_idx);
     ids \<leftarrow> seen_ids env;
     assert_that (length ids = 3);
     assert_that (ids ! 0 = callback_ids ! 0);
     assert_that (ids ! 1 = callback_ids ! 1);
     assert_that (ids ! 2 = callback_ids ! 2) }"

subsection \<open>What the checks decide\<close>

text \<open>The last index of a name, as a function on the list.\<close>

fun last_index :: "'a \<Rightarrow> 'a list \<Rightarrow> nat option" where
  "last_index a [] = None"
| "last_index a (x # xs) = (case last_index a xs of
     Some i \<Rightarrow> Some (Suc i) | None \<Rightarrow> if x = a then Some 0 else None)"

lemma last_index_None: "last_index a xs = None \<longleftrightarrow> a \<notin> set xs"
  by (induction xs) (auto split: option.splits)

lemma last_index_snoc:
  "last_index a (xs @ [x]) = (if x = a then Some (length xs) else last_index a xs)"
  by (induction xs) (auto split: option.splits)

lemma last_index_append:
  "last_index a (xs @ ys) = (case last_index a ys of
     Some i \<Rightarrow> Some (length xs + i) | None \<Rightarrow> last_index a xs)"
  by (induction xs) (auto split: option.splits)

lemma last_index_Some:
  "last_index a xs = Some i \<longleftrightarrow> i < length xs \<and> xs ! i = a \<and> (\<forall>j. i < j \<longrightarrow> j < length xs \<longrightarrow> xs ! j \<noteq> a)"
proof (induction xs rule: rev_induct)
  case (snoc x xs)
  show ?case
  proof (cases "x = a")
    case True
    then show ?thesis
      by (auto simp: last_index_snoc nth_append less_Suc_eq)
  next
    case False
    with snoc show ?thesis by (auto simp: last_index_snoc nth_append less_Suc_eq)
  qed
qed simp

text \<open>A loop over the indices of a list is a loop over the list.\<close>

lemma foldl_upt_snoc:
  "foldl (\<lambda>s i. f s i ((xs @ [x]) ! i)) z [0..<length (xs @ [x])] =
     f (foldl (\<lambda>s i. f s i (xs ! i)) z [0..<length xs]) (length xs) x"
proof -
  have "foldl (\<lambda>s i. f s i ((xs @ [x]) ! i)) z [0..<length xs] =
      foldl (\<lambda>s i. f s i (xs ! i)) z [0..<length xs]"
    by (rule foldl_cong) (simp_all add: nth_append)
  then show ?thesis by simp
qed

lemma last_two_eq: "a \<noteq> b \<Longrightarrow> last_two a b names = (last_index a names, last_index b names)"
proof (induction names rule: rev_induct)
  case Nil
  show ?case by (simp add: last_two_def)
next
  case (snoc x xs)
  have "last_two a b (xs @ [x]) = (case last_two a b xs of (u, v) \<Rightarrow>
      if x = a then (Some (length xs), v) else if x = b then (u, Some (length xs)) else (u, v))"
    using foldl_upt_snoc [of "\<lambda>(u, v) i n. if n = a then (Some i, v) else if n = b then (u, Some i) else (u, v)"
        xs x "(None, None)"]
    by (simp add: last_two_def Let_def case_prod_unfold)
  with snoc show ?case by (simp add: last_index_snoc)
qed

lemma assert_before_iff:
  "a \<noteq> b \<Longrightarrow> assert_before a b names = Some () \<longleftrightarrow>
     (\<exists>i j. last_index a names = Some i \<and> last_index b names = Some j \<and> i < j)"
  by (simp add: assert_before_def last_two_eq bind_eq_Some_conv)

lemma last_index_split:
  "a \<noteq> b \<Longrightarrow> (\<exists>i j. last_index a names = Some i \<and> last_index b names = Some j \<and> i < j) \<longleftrightarrow>
     (\<exists>xs ys zs. names = xs @ a # ys @ b # zs \<and> a \<notin> set ys \<and> a \<notin> set zs \<and> b \<notin> set zs)"
proof (induction names)
  case (Cons x names)
  show ?case
  proof
    assume "\<exists>i j. last_index a (x # names) = Some i \<and> last_index b (x # names) = Some j \<and> i < j"
    then obtain i j where ij: "last_index a (x # names) = Some i" "last_index b (x # names) = Some j"
      "i < j" by blast
    show "\<exists>xs ys zs. x # names = xs @ a # ys @ b # zs \<and> a \<notin> set ys \<and> a \<notin> set zs \<and> b \<notin> set zs"
    proof (cases "last_index a names")
      case (Some i')
      with ij obtain j' where "last_index b names = Some j'" "i' < j'"
        by (auto split: option.splits if_splits)
      with Some Cons obtain xs ys zs where
        "names = xs @ a # ys @ b # zs" "a \<notin> set ys" "a \<notin> set zs" "b \<notin> set zs" by blast
      then show ?thesis
        by (intro exI [of _ "x # xs"] exI [of _ ys] exI [of _ zs]) simp
    next
      case None
      with ij have x: "x = a" and na: "a \<notin> set names"
        by (auto simp: last_index_None split: if_splits)
      with ij None Cons.prems have "last_index b names \<noteq> None" by (auto split: option.splits)
      then have "b \<in> set names" by (simp add: last_index_None)
      then obtain ys zs where s: "names = ys @ b # zs" "b \<notin> set zs" by (meson split_list_last)
      with na have "a \<notin> set ys" "a \<notin> set zs" by auto
      with s x show ?thesis by (intro exI [of _ "[]"] exI [of _ ys] exI [of _ zs]) simp
    qed
  next
    assume "\<exists>xs ys zs. x # names = xs @ a # ys @ b # zs \<and> a \<notin> set ys \<and> a \<notin> set zs \<and> b \<notin> set zs"
    then obtain xs ys zs where e: "x # names = xs @ a # ys @ b # zs"
      and n: "a \<notin> set ys" "a \<notin> set zs" "b \<notin> set zs" by blast
    from n Cons.prems have "last_index a (xs @ a # ys @ b # zs) = Some (length xs)"
      "last_index b (xs @ a # ys @ b # zs) = Some (length xs + Suc (length ys))"
      by (simp_all add: last_index_append last_index_None [THEN iffD2])
    then show "\<exists>i j. last_index a (x # names) = Some i \<and> last_index b (x # names) = Some j \<and> i < j"
      unfolding e by simp
  qed
qed simp

lemma pair_check:
  assumes "a \<noteq> b"
  shows "do { names \<leftarrow> e; assert_before a b names } = Some () \<longleftrightarrow>
    (\<exists>xs ys zs. e = Some (xs @ a # ys @ b # zs) \<and> a \<notin> set ys \<and> a \<notin> set zs \<and> b \<notin> set zs)"
  by (cases e) (simp_all add: trans [OF assert_before_iff [OF assms] last_index_split [OF assms]])

lemma last_up_fin: "foldl (\<lambda>x i. if names ! i = a then Some i else x) None [0..<length names] = last_index a names"
proof (induction names rule: rev_induct)
  case (snoc x xs)
  with foldl_upt_snoc [of "\<lambda>u i n. if n = a then Some i else u" xs x None]
  show ?case by (simp add: last_index_snoc)
qed simp

lemma batch_loop:
  "foldl (\<lambda>(rs, b) i. let name = names ! i in
       if name = ''reg'' then (rs @ [i], b) else if name = ''batch'' then (rs, Some i) else (rs, b))
     ([], None) [0..<length names] =
   (filter (\<lambda>i. names ! i = ''reg'') [0..<length names], last_index ''batch'' names)"
proof (induction names rule: rev_induct)
  case (snoc x xs)
  have "filter (\<lambda>i. (xs @ [x]) ! i = ''reg'') [0..<length xs] = filter (\<lambda>i. xs ! i = ''reg'') [0..<length xs]"
    by (rule filter_cong) (simp_all add: nth_append)
  moreover note foldl_upt_snoc [of "\<lambda>(rs, b) i name.
       if name = ''reg'' then (rs @ [i], b) else if name = ''batch'' then (rs, Some i) else (rs, b)"
       xs x "([], None)"]
  ultimately show ?case using snoc by (simp add: Let_def case_prod_unfold last_index_snoc)
qed simp

lemma filter_upt_count: "length (filter (\<lambda>i. names ! i = a) [0..<length names]) = count_list names a"
proof (induction names rule: rev_induct)
  case (snoc x xs)
  have "filter (\<lambda>i. (xs @ [x]) ! i = a) [0..<length xs] = filter (\<lambda>i. xs ! i = a) [0..<length xs]"
    by (rule filter_cong) (simp_all add: nth_append)
  with snoc show ?case by simp
qed simp

lemma filter_upt_last:
  "filter (\<lambda>i. names ! i = a) [0..<length names] = [] \<longleftrightarrow> last_index a names = None"
  "last_index a names = Some k \<Longrightarrow> last (filter (\<lambda>i. names ! i = a) [0..<length names]) = k"
proof -
  have "(filter (\<lambda>i. names ! i = a) [0..<length names] = [] \<longleftrightarrow> last_index a names = None) \<and>
    (\<forall>k. last_index a names = Some k \<longrightarrow> last (filter (\<lambda>i. names ! i = a) [0..<length names]) = k)"
  proof (induction names rule: rev_induct)
    case (snoc x xs)
    have "filter (\<lambda>i. (xs @ [x]) ! i = a) [0..<length xs] = filter (\<lambda>i. xs ! i = a) [0..<length xs]"
      by (rule filter_cong) (simp_all add: nth_append)
    with snoc show ?case by (simp add: last_index_snoc)
  qed simp
  then show "filter (\<lambda>i. names ! i = a) [0..<length names] = [] \<longleftrightarrow> last_index a names = None"
    "last_index a names = Some k \<Longrightarrow> last (filter (\<lambda>i. names ! i = a) [0..<length names]) = k"
    by blast+
qed

text \<open>Reading the log event by event.\<close>

definition is_reg :: "Event \<Rightarrow> bool" where
  "is_reg = (\<lambda>(topics, _). \<exists>rest. topics = TSym ''reg'' # rest)"

lemma fold_host_snoc: "fold_host f z (xs @ [x]) = Option.bind (fold_host f z xs) (\<lambda>s. f s x)"
  by (induction xs arbitrary: z) (simp_all split: bind_splits)

lemma names_regs:
  assumes "fold_host (\<lambda>names (topics, _).
       case topics of [] \<Rightarrow> Some names
       | first # _ \<Rightarrow> do { sym \<leftarrow> topic_symbol first; Some (names @ [sym]) }) [] es = Some names"
  shows "count_list names ''reg'' = length (filter is_reg es) \<and>
    (fold_host (\<lambda>ids (topics, data).
       case topics of [] \<Rightarrow> Some ids
       | first # _ \<Rightarrow> do {
           sym \<leftarrow> topic_symbol first;
           if sym = ''reg'' then do { i \<leftarrow> data_symbol data; Some (ids @ [i]) } else Some ids })
       [] es = Some ids \<longleftrightarrow> map snd (filter is_reg es) = map PSymbol ids)"
  using assms
proof (induction es arbitrary: names ids rule: rev_induct)
  case Nil
  then show ?case by auto
next
  case (snoc e es)
  obtain topics data where e: "e = (topics, data)" by (cases e)
  have map_snoc: "xs @ [PSymbol s] = map PSymbol ids \<longleftrightarrow> (\<exists>ys. ids = ys @ [s] \<and> xs = map PSymbol ys)"
    for xs s ids by (cases ids rule: rev_cases) auto
  show ?case
  proof (cases topics)
    case Nil
    with snoc e show ?thesis by (simp add: fold_host_snoc is_reg_def)
  next
    case (Cons first rest)
    with snoc.prems e obtain names' t where p: "first = TSym t" "names = names' @ [t]"
      and n: "fold_host (\<lambda>names (topics, _).
       case topics of [] \<Rightarrow> Some names
       | first # _ \<Rightarrow> do { sym \<leftarrow> topic_symbol first; Some (names @ [sym]) }) [] es = Some names'"
      by (auto simp: fold_host_snoc bind_eq_Some_conv topic_symbol_def split: Topic.splits)
    note IH = snoc.IH [OF n]
    show ?thesis
    proof (cases "t = ''reg''")
      case False
      with IH e Cons p show ?thesis
        by (auto simp: fold_host_snoc is_reg_def topic_symbol_def bind_eq_Some_conv)
    next
      case True
      have "map snd (filter is_reg es) @ [data] = map PSymbol ids \<longleftrightarrow>
          (\<exists>s ys. data = PSymbol s \<and> ids = ys @ [s] \<and> map snd (filter is_reg es) = map PSymbol ys)"
        by (cases ids rule: rev_cases) auto
      with True IH e Cons p show ?thesis
        by (auto simp: fold_host_snoc is_reg_def topic_symbol_def data_symbol_def bind_eq_Some_conv
            split: Payload.splits)
    qed
  qed
qed

lemma batch_check_iff:
  "batch_register_callback_emits_regs_in_order_then_batch env = Some () \<longleftrightarrow>
     (\<exists>names i j. event_names env = Some names \<and>
        last_index ''reg'' names = Some i \<and> last_index ''batch'' names = Some j \<and> i < j) \<and>
     map snd (filter is_reg (events env)) = map PSymbol callback_ids"
proof (cases "event_names env")
  case None
  then show ?thesis by (simp add: batch_register_callback_emits_regs_in_order_then_batch_def)
next
  case (Some names)
  note regs = names_regs [OF Some [unfolded event_names_def], folded seen_ids_def]
  have ids: "length ids = 3 \<and> ids ! 0 = callback_ids ! 0 \<and> ids ! 1 = callback_ids ! 1 \<and>
      ids ! 2 = callback_ids ! 2 \<longleftrightarrow> ids = callback_ids" for ids
    by (auto simp: callback_ids_def list_eq_iff_nth_eq less_Suc_eq numeral_3_eq_3 numeral_2_eq_2)
  have "map snd (filter is_reg (events env)) = map PSymbol callback_ids \<longleftrightarrow>
      count_list names ''reg'' = length callback_ids \<and> seen_ids env = Some callback_ids"
    using regs [of callback_ids] by (metis length_map)
  then show ?thesis
    using Some ids
    by (auto simp: batch_register_callback_emits_regs_in_order_then_batch_def batch_loop
      filter_upt_count filter_upt_last bind_eq_Some_conv split: if_splits)
qed

text \<open>C14. The ordering tests decide exactly what the event catalogue promises. The pair checks
  accept a log when, with repeated names read by their last occurrence, the first name comes
  before the second; the finalisation check when \<open>up_fin\<close> ends the log; the batch check when
  the last \<open>reg\<close> precedes the last \<open>batch\<close> and the data of the \<open>reg\<close> events are, in order, the
  symbols of the three callbacks and nothing else. A log with an event whose first topic is no
  symbol fails all of them.\<close>

theorem ordering_checks_exact:
  "(complete_transaction_emits_status_then_done env = Some () \<longleftrightarrow>
     (\<exists>xs ys zs. event_names env = Some (xs @ ''status'' # ys @ ''done'' # zs) \<and>
        ''status'' \<notin> set ys \<and> ''status'' \<notin> set zs \<and> ''done'' \<notin> set zs)) \<and>
   (dispute_resolution_emits_raised_before_resolved env = Some () \<longleftrightarrow>
     (\<exists>xs ys zs. event_names env = Some (xs @ ''d_raise'' # ys @ ''d_resolv'' # zs) \<and>
        ''d_raise'' \<notin> set ys \<and> ''d_raise'' \<notin> set zs \<and> ''d_resolv'' \<notin> set zs)) \<and>
   (upgrade_finalize_emits_up_fin_last env = Some () \<longleftrightarrow>
     (\<exists>xs. event_names env = Some (xs @ [''up_fin'']))) \<and>
   (batch_register_callback_emits_regs_in_order_then_batch env = Some () \<longleftrightarrow>
     (\<exists>xs ys zs. event_names env = Some (xs @ ''reg'' # ys @ ''batch'' # zs) \<and>
        ''reg'' \<notin> set ys \<and> ''reg'' \<notin> set zs \<and> ''batch'' \<notin> set zs) \<and>
     map snd (filter (\<lambda>(topics, _). \<exists>rest. topics = TSym ''reg'' # rest) (events env)) =
       map PSymbol [''cb_a'', ''cb_b'', ''cb_c''])"
proof (intro conjI)
  show "complete_transaction_emits_status_then_done env = Some () \<longleftrightarrow>
     (\<exists>xs ys zs. event_names env = Some (xs @ ''status'' # ys @ ''done'' # zs) \<and>
        ''status'' \<notin> set ys \<and> ''status'' \<notin> set zs \<and> ''done'' \<notin> set zs)"
    by (simp add: complete_transaction_emits_status_then_done_def pair_check)
  show "dispute_resolution_emits_raised_before_resolved env = Some () \<longleftrightarrow>
     (\<exists>xs ys zs. event_names env = Some (xs @ ''d_raise'' # ys @ ''d_resolv'' # zs) \<and>
        ''d_raise'' \<notin> set ys \<and> ''d_raise'' \<notin> set zs \<and> ''d_resolv'' \<notin> set zs)"
    by (simp add: dispute_resolution_emits_raised_before_resolved_def pair_check)
  have "last_index a names = Some (length names - 1) \<longleftrightarrow> (\<exists>xs. names = xs @ [a])" for a :: string and names
    by (cases names rule: rev_cases) (auto simp: last_index_snoc last_index_Some)
  then show "upgrade_finalize_emits_up_fin_last env = Some () \<longleftrightarrow>
     (\<exists>xs. event_names env = Some (xs @ [''up_fin'']))"
    by (auto simp: upgrade_finalize_emits_up_fin_last_def last_up_fin bind_eq_Some_conv)
next
  have "(\<exists>names i j. e = Some names \<and> last_index ''reg'' names = Some i \<and>
        last_index ''batch'' names = Some j \<and> i < j) \<longleftrightarrow>
      (\<exists>xs ys zs. e = Some (xs @ ''reg'' # ys @ ''batch'' # zs) \<and>
        ''reg'' \<notin> set ys \<and> ''reg'' \<notin> set zs \<and> ''batch'' \<notin> set zs)" for e :: "string list host"
    by (cases e) (simp_all add: last_index_split [symmetric])
  then show "batch_register_callback_emits_regs_in_order_then_batch env = Some () \<longleftrightarrow>
     (\<exists>xs ys zs. event_names env = Some (xs @ ''reg'' # ys @ ''batch'' # zs) \<and>
        ''reg'' \<notin> set ys \<and> ''reg'' \<notin> set zs \<and> ''batch'' \<notin> set zs) \<and>
     map snd (filter (\<lambda>(topics, _). \<exists>rest. topics = TSym ''reg'' # rest) (events env)) =
       map PSymbol [''cb_a'', ''cb_b'', ''cb_c'']"
    unfolding batch_check_iff is_reg_def callback_ids_def by blast
qed

subsection \<open>The checks on the emission helpers\<close>

lemma event_names_publish:
  "event_names (publish env (TSym t # ts) d) = map_option (\<lambda>names. names @ [t]) (event_names env)"
proof -
  let ?f = "\<lambda>names (topics, _ :: Payload). case topics of [] \<Rightarrow> Some names
       | first # _ \<Rightarrow> do { sym \<leftarrow> topic_symbol first; Some (names @ [sym]) }"
  have "fold_host ?f z (es @ [(TSym t # ts, d)]) = map_option (\<lambda>names. names @ [t]) (fold_host ?f z es)"
    for z es
    by (induction es arbitrary: z) (auto simp: topic_symbol_def split: list.splits bind_splits)
  then show ?thesis by (simp add: event_names_def publish_def)
qed

text \<open>Later publications, each under a symbol.\<close>

definition publish_all ::
    "('m, 'u) Env \<Rightarrow> (string \<times> Topic list \<times> Payload) list \<Rightarrow> ('m, 'u) Env" where
  "publish_all env es = foldl (\<lambda>e (t, ts, d). publish e (TSym t # ts) d) env es"

lemma event_names_publish_all:
  "event_names env = Some names \<Longrightarrow> event_names (publish_all env es) = Some (names @ map fst es)"
  by (induction es rule: rev_induct)
    (auto simp: publish_all_def event_names_publish)

lemma emit_pair_publish_all:
  "emit_status_then_done env i s h =
     publish_all env [(''status'', [TId i], PStatus s), (''done'', [TId i], PHash h)]"
  "emit_status (emit_done env i h) i s =
     publish_all env [(''done'', [TId i], PHash h), (''status'', [TId i], PStatus s)]"
  by (simp_all add: publish_all_def emit_status_then_done_def emit_status_def emit_done_def topic_defs)

lemma publish_all_append: "publish_all (publish_all env es) fs = publish_all env (es @ fs)"
  by (simp add: publish_all_def)

lemma emit_regs_publish_all:
  "foldl emit_reg env is = publish_all env (map (\<lambda>i. (''reg'', [], PTxId i)) is)"
  by (induction "is" arbitrary: env) (simp_all add: publish_all_def emit_reg_def topic_defs)

lemma host_unit_None: "(x :: unit host) = None \<longleftrightarrow> x \<noteq> Some ()"
  by (cases x) simp_all

lemma completion_log:
  assumes "event_names env = Some (names @ [a, b] @ ns)" "{a, b} = {''status'', ''done''}"
    "''status'' \<notin> set ns" "''done'' \<notin> set ns"
  shows "complete_transaction_emits_status_then_done env = Some () \<longleftrightarrow> a = ''status''"
proof -
  have i: "last_index a (names @ [a, b] @ ns) = Some (length names)"
    "last_index b (names @ [a, b] @ ns) = Some (Suc (length names))"
    using assms(2-4) by (auto simp: last_index_append doubleton_eq_iff last_index_None [THEN iffD2])
  with assms(1,2) show ?thesis
    by (auto simp: complete_transaction_emits_status_then_done_def assert_before_iff doubleton_eq_iff)
qed

lemma last_index_regs:
  "last_index ''reg'' (replicate k ''reg'') = (if k = 0 then None else Some (k - 1))"
  "last_index ''batch'' (replicate k ''reg'') = None"
  "count_list (replicate k ''reg'') ''reg'' = k"
  by (induction k) auto

lemma emit_batch_publish_all: "emit env [''batch''] d = publish_all env [(''batch'', [], d)]"
  by (simp add: emit_def publish_all_def)

lemma emit_symbols_publish_all:
  "foldl (\<lambda>e c. emit e [''reg''] (PSymbol c)) env ids =
     publish_all env (map (\<lambda>c. (''reg'', [], PSymbol c)) ids)"
  by (induction ids arbitrary: env) (simp_all add: publish_all_def emit_def)

lemma regs_publish_all:
  "map snd (filter is_reg (events (publish_all env es))) =
     map snd (filter is_reg (events env)) @ map (snd \<circ> snd) (filter (\<lambda>e. fst e = ''reg'') es)"
  by (induction es rule: rev_induct) (auto simp: publish_all_def publish_def is_reg_def)

lemma no_regs:
  assumes "event_names env = Some names" "''reg'' \<notin> set names"
  shows "filter is_reg (events env) = []"
  using names_regs [OF assms(1) [unfolded event_names_def]] assms(2)
  by (metis count_list_0_iff length_0_conv)

text \<open>A batch of \<open>reg\<close> events with the given data, closed or preceded by a \<open>batch\<close> event.\<close>

lemma batch_logs:
  assumes "event_names env = Some names" "''reg'' \<notin> set names" "''batch'' \<notin> set names"
  shows "batch_register_callback_emits_regs_in_order_then_batch
      (publish_all env (map (\<lambda>x. (''reg'', [], x)) xs @ [(''batch'', [], d)])) = Some () \<longleftrightarrow>
        xs = map PSymbol callback_ids"
    and "batch_register_callback_emits_regs_in_order_then_batch
      (publish_all env ((''batch'', [], d) # map (\<lambda>x. (''reg'', [], x)) xs)) = None"
proof -
  have l: "last_index ''reg'' names = None" "last_index ''batch'' names = None"
    using assms(2,3) by (simp_all add: last_index_None)
  note names = event_names_publish_all [OF assms(1)] and none = no_regs [OF assms(1,2)]
  note index = l last_index_regs last_index_append last_index_snoc map_replicate_const comp_def
  have filter_map: "filter (\<lambda>e. fst e = ''reg'') (map (\<lambda>x. (''reg'', [], x)) xs) =
      map (\<lambda>x. (''reg'', [], x)) xs" for xs :: "Payload list"
    by (induction xs) simp_all
  show "batch_register_callback_emits_regs_in_order_then_batch
      (publish_all env (map (\<lambda>x. (''reg'', [], x)) xs @ [(''batch'', [], d)])) = Some () \<longleftrightarrow>
        xs = map PSymbol callback_ids"
    unfolding batch_check_iff regs_publish_all names none
    by (auto simp: index filter_map callback_ids_def)
  show "batch_register_callback_emits_regs_in_order_then_batch
      (publish_all env ((''batch'', [], d) # map (\<lambda>x. (''reg'', [], x)) xs)) = None"
    unfolding host_unit_None batch_check_iff names
    by (auto simp: index split: if_splits)
qed

text \<open>C13. The emission helpers against the ordering tests, on any log whose names can be read.
  Completing with \<open>emit_status_then_done\<close> passes the completion test, also after any later events
  under other names; the same two events in the other order fail it. A batch published through
  \<open>emit\<close> with a symbol in every \<open>reg\<close> event passes the batch test exactly when the symbols are
  those of the three callbacks in input order, and fails with the \<open>batch\<close> event first. A batch
  registered with \<open>emit_reg\<close>, whose data is the \<open>u64\<close> id, fails the batch test however many
  items it has, because the test reads the data as a symbol.\<close>

theorem emitters_against_ordering_checks:
  assumes "event_names env = Some names" "''reg'' \<notin> set names" "''batch'' \<notin> set names"
    "''status'' \<notin> fst ` set later" "''done'' \<notin> fst ` set later"
  shows "complete_transaction_emits_status_then_done
      (publish_all (emit_status_then_done env i s h) later) = Some () \<and>
    complete_transaction_emits_status_then_done
      (publish_all (emit_status (emit_done env i h) i s) later) = None \<and>
    (batch_register_callback_emits_regs_in_order_then_batch
       (emit (foldl (\<lambda>e c. emit e [''reg''] (PSymbol c)) env ids) [''batch''] d) = Some () \<longleftrightarrow>
         ids = [''cb_a'', ''cb_b'', ''cb_c'']) \<and>
    batch_register_callback_emits_regs_in_order_then_batch
       (foldl (\<lambda>e c. emit e [''reg''] (PSymbol c)) (emit env [''batch''] d) ids) = None \<and>
    batch_register_callback_emits_regs_in_order_then_batch
       (emit (foldl emit_reg env is) [''batch''] d) = None"
proof (intro conjI)
  note names = event_names_publish_all [OF assms(1)]
  have ns: "''status'' \<notin> set (map fst later)" "''done'' \<notin> set (map fst later)"
    using assms(4,5) by simp_all
  have "event_names (publish_all (emit_status_then_done env i s h) later) =
      Some (names @ [''status'', ''done''] @ map fst later)"
    unfolding emit_pair_publish_all publish_all_append by (simp add: names)
  then show "complete_transaction_emits_status_then_done
      (publish_all (emit_status_then_done env i s h) later) = Some ()"
    using completion_log [OF _ _ ns] by blast
  have "event_names (publish_all (emit_status (emit_done env i h) i s) later) =
      Some (names @ [''done'', ''status''] @ map fst later)"
    unfolding emit_pair_publish_all publish_all_append by (simp add: names)
  from completion_log [OF this _ ns] show "complete_transaction_emits_status_then_done
      (publish_all (emit_status (emit_done env i h) i s) later) = None"
    by (auto simp: host_unit_None)
next
  note regs = batch_logs [OF assms(1-3)]
  show "batch_register_callback_emits_regs_in_order_then_batch
       (emit (foldl (\<lambda>e c. emit e [''reg''] (PSymbol c)) env ids) [''batch''] d) = Some () \<longleftrightarrow>
         ids = [''cb_a'', ''cb_b'', ''cb_c'']"
    using regs(1) [of "map PSymbol ids" d]
    by (auto simp: emit_symbols_publish_all emit_batch_publish_all publish_all_append callback_ids_def
        comp_def)
  show "batch_register_callback_emits_regs_in_order_then_batch
       (foldl (\<lambda>e c. emit e [''reg''] (PSymbol c)) (emit env [''batch''] d) ids) = None"
    using regs(2) [of d "map PSymbol ids"]
    by (simp add: emit_symbols_publish_all emit_batch_publish_all publish_all_append comp_def)
  have "map PTxId is \<noteq> map PSymbol callback_ids"
    by (cases "is") (simp_all add: callback_ids_def)
  with regs(1) [of "map PTxId is" d] show "batch_register_callback_emits_regs_in_order_then_batch
       (emit (foldl emit_reg env is) [''batch''] d) = None"
    by (simp add: emit_regs_publish_all emit_batch_publish_all publish_all_append comp_def
        host_unit_None)
qed

theorem emitters_against_ordering_checks_witness:
  "complete_transaction_emits_status_then_done
     (publish_all (emit_status_then_done (empty_env (\<lambda>_. True) :: (unit, unit) Env) 7 2 [1, 2, 3]) [(''fee'', [], PAmount 1)]) = Some () \<and>
   batch_register_callback_emits_regs_in_order_then_batch
     (emit (foldl (\<lambda>e c. emit e [''reg''] (PSymbol c)) (empty_env (\<lambda>_. True) :: (unit, unit) Env)
       [''cb_a'', ''cb_b'', ''cb_c'']) [''batch''] (PStatus 3)) = Some () \<and>
   batch_register_callback_emits_regs_in_order_then_batch
     (emit (foldl emit_reg (empty_env (\<lambda>_. True) :: (unit, unit) Env) [1, 2, 3]) [''batch''] (PStatus 3)) = None"
proof -
  have "event_names (empty_env (\<lambda>_. True) :: (unit, unit) Env) = Some []" by (simp add: event_names_def empty_env_def)
  note t = emitters_against_ordering_checks [OF this, of "[(''fee'', [], PAmount 1)]" 7 2 "[1, 2, 3]"
      "[''cb_a'', ''cb_b'', ''cb_c'']" "PStatus 3" "[1, 2, 3]"]
  have "complete_transaction_emits_status_then_done
     (publish_all (emit_status_then_done (empty_env (\<lambda>_. True) :: (unit, unit) Env) 7 2 [1, 2, 3]) [(''fee'', [], PAmount 1)]) = Some ()"
    using t by simp
  moreover have "batch_register_callback_emits_regs_in_order_then_batch
     (emit (foldl (\<lambda>e c. emit e [''reg''] (PSymbol c)) (empty_env (\<lambda>_. True) :: (unit, unit) Env)
       [''cb_a'', ''cb_b'', ''cb_c'']) [''batch''] (PStatus 3)) = Some ()"
    using t by (simp del: foldl.simps)
  moreover have "batch_register_callback_emits_regs_in_order_then_batch
     (emit (foldl emit_reg (empty_env (\<lambda>_. True) :: (unit, unit) Env) [1, 2, 3]) [''batch''] (PStatus 3)) = None"
    using t by (simp del: foldl.simps)
  ultimately show ?thesis by blast
qed

end
