(* ===== verification/Chaos_Model.thy ===== *)
theory Chaos_Model
  imports Lifecycle_Calls
begin

text \<open>
  The reference model of \<open>src/test_rotation_chaos.rs\<close>: the transition table its seeded runs
  compare the contract with, the calls its liveness check makes, and the bookkeeping of
  stale relay signers.  The properties show that the storage layer implements the table,
  that the liveness check succeeds, and that the bookkeeping is exact.
\<close>

datatype Op = Op_Start | Op_Complete | Op_Fail

definition model_transition :: "TransactionStatus \<Rightarrow> Op \<Rightarrow> TransactionStatus option" where
  "model_transition from op =
     (case (from, op) of
        (Pending, Op_Start) \<Rightarrow> Some Processing
      | (Processing, Op_Complete) \<Rightarrow> Some Completed
      | (Pending, Op_Fail) \<Rightarrow> Some Failed
      | (Processing, Op_Fail) \<Rightarrow> Some Failed
      | _ \<Rightarrow> None)"

fun op_call :: "TxId \<Rightarrow> Address \<Rightarrow> string \<Rightarrow> Op \<Rightarrow> lifecycle_call" where
  "op_call i c reason Op_Start = Start i c"
| "op_call i c reason Op_Complete = Complete i c"
| "op_call i c reason Op_Fail = Fail i reason c"

text \<open>The calls of \<open>assert_can_finish\<close> from each status.\<close>

definition finish_calls :: "TxId \<Rightarrow> Address \<Rightarrow> TransactionStatus \<Rightarrow> lifecycle_call list" where
  "finish_calls i c s = (case s of
     Pending \<Rightarrow> [Start i c, Complete i c]
   | Processing \<Rightarrow> [Complete i c]
   | _ \<Rightarrow> [])"

subsection \<open>Rotations\<close>

record World =
  w_relay :: Address
  w_admin :: Address
  stale_relays :: "Address list"
  relay_history :: "Address list"

definition new_world :: "Address \<Rightarrow> Address \<Rightarrow> World" where
  "new_world admin relay =
     \<lparr>w_relay = relay, w_admin = admin, stale_relays = [], relay_history = [relay]\<rparr>"

definition rotate_to :: "'a World_scheme \<Rightarrow> Address \<Rightarrow> 'a World_scheme" where
  "rotate_to w next' =
     (let old = w_relay w;
          stale = (if old \<noteq> next' \<and> old \<notin> set (stale_relays w) then stale_relays w @ [old]
                   else stale_relays w)
      in w\<lparr>w_relay := next', stale_relays := filter (\<lambda>a. a \<noteq> next' \<and> a \<noteq> w_admin w) stale,
           relay_history := relay_history w @ [next']\<rparr>)"

definition stale_exact :: "World \<Rightarrow> bool" where
  "stale_exact w \<longleftrightarrow> distinct (stale_relays w) \<and> w_relay w \<in> set (relay_history w) \<and>
     set (stale_relays w) = set (relay_history w) - {w_relay w, w_admin w}"

lemma rotate_to_stale_exact: "stale_exact w \<Longrightarrow> stale_exact (rotate_to w a)"
  unfolding stale_exact_def rotate_to_def Let_def by auto

lemma rotations_stale_exact: "stale_exact w \<Longrightarrow> stale_exact (foldl rotate_to w as)"
  by (induction "as" arbitrary: w) (simp_all add: rotate_to_stale_exact)

lemma rotations_fields:
  "w_admin (foldl rotate_to w as) = w_admin w \<and>
   relay_history (foldl rotate_to w as) = relay_history w @ as \<and>
   w_relay (foldl rotate_to w as) = last (w_relay w # as)"
  by (induction "as" arbitrary: w) (simp_all add: rotate_to_def Let_def)

lemma op_refines_table:
  assumes "tx_wf env" "status_of env i = Some s" "length reason \<le> max_reason"
  shows "case model_transition s op of
      None \<Rightarrow> exec_call max_reason env (op_call i c reason op) = Some (Inl InvalidSource, env)
    | Some t \<Rightarrow> \<exists>tx env'. exec_call max_reason env (op_call i c reason op) = Some (Inr tx, env') \<and>
        tx_status tx = t \<and> tx_caller tx = c \<and> status_of env' = (status_of env)(i \<mapsto> t)"
  using assms(1)
proof (cases rule: tx_wf_get [where i = i])
  case 1
  with assms(2) show ?thesis by simp
next
  case (2 tx)
  with assms(2) have s: "tx_status tx = s" by simp
  show ?thesis
    using 2 s assms(3)
    by (cases op; cases s)
      (simp_all add: model_transition_def start_op.moves start_op.blocked complete_op.moves
        complete_op.blocked fail_op.moves fail_op.blocked)
qed

subsection \<open>Properties\<close>

text \<open>C18. The storage layer implements the transition table of the chaos test: on a stored
  transaction, an operation whose reason fits is refused with \<open>InvalidSource\<close> and no change
  exactly where the table has no entry, and otherwise moves the record to the status the
  table gives.\<close>

theorem op_refines_model_transition:
  assumes "tx_wf env" "status_of env i = Some s" "length reason \<le> max_reason"
  shows "case model_transition s op of
      None \<Rightarrow> exec_call max_reason env (op_call i c reason op) = Some (Inl InvalidSource, env)
    | Some t \<Rightarrow> \<exists>tx env'. exec_call max_reason env (op_call i c reason op) = Some (Inr tx, env') \<and>
        tx_status tx = t \<and> tx_caller tx = c \<and> status_of env' = (status_of env)(i \<mapsto> t)"
  by (rule op_refines_table [OF assms])

theorem op_refines_model_transition_witness:
  "exec_call 64 example_env (op_call (TxSymbol ''t1'') ''GADMIN'' ''late'' Op_Complete) =
     Some (Inl InvalidSource, example_env)"
  using op_refines_model_transition [OF example_env_facts(1,2),
      where reason = "''late''" and max_reason = 64 and op = Op_Complete and c = "''GADMIN''"]
  by (simp add: model_transition_def)

text \<open>Liveness: from any status, the calls of the chaos test's finishing check all
  succeed and leave a pending or processing transaction completed, any other status as it
  was.\<close>

theorem finish_calls_complete:
  assumes "tx_wf env" "status_of env i = Some s"
  shows "\<exists>env'. exec_calls max_reason env (finish_calls i c s) =
      Some (map (\<lambda>_. None) (finish_calls i c s), env') \<and>
    status_of env' i = Some (if s \<in> {Pending, Processing} then Completed else s)"
proof -
  from exec_calls_refines [OF assms(1), of max_reason "finish_calls i c s"] obtain env' where
    e: "exec_calls max_reason env (finish_calls i c s) =
        Some (fst (spec_calls max_reason (status_of env) (finish_calls i c s)), env')"
      "status_of env' = snd (spec_calls max_reason (status_of env) (finish_calls i c s))" by blast
  then show ?thesis using assms(2)
    by (cases s) (simp_all add: finish_calls_def spec_transition_def)
qed

theorem finish_calls_complete_witness:
  "\<exists>env'. exec_calls 64 example_env [Start (TxSymbol ''t1'') ''GR'', Complete (TxSymbol ''t1'') ''GR'']
      = Some ([None, None], env') \<and> status_of env' (TxSymbol ''t1'') = Some Completed"
  using finish_calls_complete [OF example_env_facts(1,2), of 64 "''GR''"]
  by (simp add: finish_calls_def)

text \<open>After any rotations from a fresh world, the stale set is exactly the signers that
  were current at some time and are neither the current signer nor the admin, each listed
  once.\<close>

theorem rotations_stale_set:
  "distinct (stale_relays (foldl rotate_to (new_world admin relay) signers)) \<and>
   set (stale_relays (foldl rotate_to (new_world admin relay) signers)) =
     set (relay # signers) - {last (relay # signers), admin}"
proof -
  have "stale_exact (new_world admin relay)" by (auto simp: stale_exact_def new_world_def)
  from rotations_stale_exact [OF this, of signers] rotations_fields [of "new_world admin relay" signers]
  show ?thesis by (simp add: stale_exact_def new_world_def)
qed

end
