(* ===== verification/Register.thy ===== *)
theory Register
  imports Lifecycle
begin

text \<open>
  \<open>register_callback\<close>, the one function \<open>src/lib.rs\<close> contains at this commit.  The
  \<open>StorageClient\<close> and \<open>Validator\<close> methods and \<open>write_pending\<close> are defined nowhere under
  \<open>src/\<close>; they are fields of the record \<open>Client\<close>.
\<close>

record CallbackPayload =
  cp_transaction_id :: string
  cp_idempotency_key :: string

record ('e, 'm) Client =
  is_paused :: "'e \<Rightarrow> bool"
  client_relay_signer :: "'e \<Rightarrow> ContractError + Address"
  client_auth :: "'e \<Rightarrow> Address \<Rightarrow> unit host"
  validate_payload :: "'e \<Rightarrow> 'm CallbackPayload_scheme \<Rightarrow> ContractError + unit"
  get_idempotency_key :: "'e \<Rightarrow> string \<Rightarrow> string option"
  transaction_exists :: "'e \<Rightarrow> string \<Rightarrow> bool"
  write_pending :: "'e \<Rightarrow> 'm CallbackPayload_scheme \<Rightarrow> string \<times> 'e"

definition register_callback ::
    "('e, 'm) Client \<Rightarrow> 'e \<Rightarrow> 'm CallbackPayload_scheme \<Rightarrow> ((ContractError + string) \<times> 'e) host"
  where
  "register_callback cl env payload =
     (if is_paused cl env then Some (Inl ContractPaused, env)
      else case client_relay_signer cl env of
        Inl e \<Rightarrow> Some (Inl e, env)
      | Inr relay \<Rightarrow> do {
          client_auth cl env relay;
          case validate_payload cl env payload of
            Inl e \<Rightarrow> Some (Inl e, env)
          | Inr _ \<Rightarrow>
              if get_idempotency_key cl env (cp_idempotency_key payload) \<noteq> None
              then Some (Inr (cp_transaction_id payload), env)
              else if transaction_exists cl env (cp_transaction_id payload)
              then Some (Inl DuplicateRequest, env)
              else let (i, env') = write_pending cl env payload in Some (Inr i, env') })"

text \<open>A call gets past the checks that do not depend on earlier registrations.\<close>

definition admitted :: "('e, 'm) Client \<Rightarrow> 'e \<Rightarrow> 'm CallbackPayload_scheme \<Rightarrow> bool" where
  "admitted cl env payload \<longleftrightarrow> \<not> is_paused cl env \<and>
     (\<exists>relay. client_relay_signer cl env = Inr relay \<and> client_auth cl env relay = Some ()) \<and>
     validate_payload cl env payload = Inr ()"

lemma register_callback_admitted:
  assumes "admitted cl env p"
  shows "register_callback cl env p =
    (if get_idempotency_key cl env (cp_idempotency_key p) \<noteq> None
     then Some (Inr (cp_transaction_id p), env)
     else if transaction_exists cl env (cp_transaction_id p) then Some (Inl DuplicateRequest, env)
     else Some (Inr (fst (write_pending cl env p)), snd (write_pending cl env p)))"
  using assms unfolding admitted_def register_callback_def by (auto split: prod.splits)

text \<open>A client for the witnesses, with the registrations kept as a list of (transaction id, key) pairs.\<close>

definition example_client :: "((string \<times> string) list, unit) Client" where
  "example_client = \<lparr>is_paused = (\<lambda>_. False), client_relay_signer = (\<lambda>_. Inr ''GRELAY''),
     client_auth = (\<lambda>_ _. Some ()), validate_payload = (\<lambda>_ _. Inr ()),
     get_idempotency_key = (\<lambda>e k. map_option fst (find (\<lambda>x. snd x = k) e)),
     transaction_exists = (\<lambda>e i. i \<in> set (map fst e)),
     write_pending = (\<lambda>e p. (cp_transaction_id p, (cp_transaction_id p, cp_idempotency_key p) # e))\<rparr>"

subsection \<open>Properties\<close>

text \<open>C27. The order of the checks: a paused contract refuses before anything else is read;
  the store changes only when every check passed, and then by \<open>write_pending\<close> alone.\<close>

theorem register_callback_checks:
  "(is_paused cl env \<longrightarrow> register_callback cl env p = Some (Inl ContractPaused, env)) \<and>
   (register_callback cl env p = Some (r, env') \<longrightarrow> env' \<noteq> env \<longrightarrow>
      admitted cl env p \<and> get_idempotency_key cl env (cp_idempotency_key p) = None \<and>
      \<not> transaction_exists cl env (cp_transaction_id p) \<and>
      (\<exists>i. r = Inr i \<and> write_pending cl env p = (i, env')))"
proof (intro conjI impI)
  assume "is_paused cl env"
  then show "register_callback cl env p = Some (Inl ContractPaused, env)"
    by (simp add: register_callback_def)
next
  assume r: "register_callback cl env p = Some (r, env')" and e: "env' \<noteq> env"
  then have a: "admitted cl env p"
    unfolding register_callback_def admitted_def
    by (auto simp: bind_eq_Some_conv split: if_splits sum.splits)
  note eq = register_callback_admitted [OF a]
  show "admitted cl env p" by (rule a)
  show "get_idempotency_key cl env (cp_idempotency_key p) = None"
    "\<not> transaction_exists cl env (cp_transaction_id p)"
    "\<exists>i. r = Inr i \<and> write_pending cl env p = (i, env')"
    using r e unfolding eq by (auto split: if_splits)
qed

theorem register_callback_checks_witness:
  "register_callback (example_client\<lparr>is_paused := \<lambda>_. True\<rparr>) []
     \<lparr>cp_transaction_id = ''t1'', cp_idempotency_key = ''k1''\<rparr> = Some (Inl ContractPaused, []) \<and>
   admitted example_client [] \<lparr>cp_transaction_id = ''t1'', cp_idempotency_key = ''k1''\<rparr>"
proof
  show "register_callback (example_client\<lparr>is_paused := \<lambda>_. True\<rparr>) []
     \<lparr>cp_transaction_id = ''t1'', cp_idempotency_key = ''k1''\<rparr> = Some (Inl ContractPaused, [])"
    using register_callback_checks [where cl = "example_client\<lparr>is_paused := \<lambda>_. True\<rparr>"] by simp
next
  have "register_callback example_client [] \<lparr>cp_transaction_id = ''t1'', cp_idempotency_key = ''k1''\<rparr> =
      Some (Inr ''t1'', [(''t1'', ''k1'')])"
    by (simp add: register_callback_def example_client_def)
  with register_callback_checks [where cl = example_client and env = "[]"]
  show "admitted example_client [] \<lparr>cp_transaction_id = ''t1'', cp_idempotency_key = ''k1''\<rparr>"
    by blast
qed

text \<open>C26. Replays: when \<open>write_pending\<close> records the transaction and the idempotency key and
  returns the id, then after a first registration the same payload is answered with the same
  id and no second write, and the same transaction id under a fresh key is refused as a
  duplicate, with no write either.\<close>

theorem register_callback_replay:
  assumes "admitted cl env p" "get_idempotency_key cl env (cp_idempotency_key p) = None"
    "\<not> transaction_exists cl env (cp_transaction_id p)"
    and w: "write_pending cl env p = (cp_transaction_id p, env')"
    and "get_idempotency_key cl env' (cp_idempotency_key p) \<noteq> None"
    "transaction_exists cl env' (cp_transaction_id p)"
    and "admitted cl env' p"
    and q: "admitted cl env' q" "cp_transaction_id q = cp_transaction_id p"
      "get_idempotency_key cl env' (cp_idempotency_key q) = None"
  shows "register_callback cl env p = Some (Inr (cp_transaction_id p), env') \<and>
    register_callback cl env' p = Some (Inr (cp_transaction_id p), env') \<and>
    register_callback cl env' q = Some (Inl DuplicateRequest, env')"
  using assms by (simp add: register_callback_admitted)

theorem register_callback_replay_witness:
  "let p = \<lparr>cp_transaction_id = ''t1'', cp_idempotency_key = ''k1''\<rparr>;
       q = \<lparr>cp_transaction_id = ''t1'', cp_idempotency_key = ''k2''\<rparr>
   in register_callback example_client [] p = Some (Inr ''t1'', [(''t1'', ''k1'')]) \<and>
      register_callback example_client [(''t1'', ''k1'')] p = Some (Inr ''t1'', [(''t1'', ''k1'')]) \<and>
      register_callback example_client [(''t1'', ''k1'')] q =
        Some (Inl DuplicateRequest, [(''t1'', ''k1'')])"
proof -
  let ?p = "\<lparr>cp_transaction_id = ''t1'', cp_idempotency_key = ''k1''\<rparr>"
  let ?q = "\<lparr>cp_transaction_id = ''t1'', cp_idempotency_key = ''k2''\<rparr>"
  have a: "admitted example_client e r" for e r by (simp add: admitted_def example_client_def)
  have "register_callback example_client [] ?p = Some (Inr (cp_transaction_id ?p), [(''t1'', ''k1'')]) \<and>
    register_callback example_client [(''t1'', ''k1'')] ?p =
      Some (Inr (cp_transaction_id ?p), [(''t1'', ''k1'')]) \<and>
    register_callback example_client [(''t1'', ''k1'')] ?q =
      Some (Inl DuplicateRequest, [(''t1'', ''k1'')])"
    by (rule register_callback_replay [OF a _ _ _ _ _ a a]) (simp_all add: example_client_def)
  then show ?thesis by simp
qed

end
