(* ===== verification/Chaos_World.thy ===== *)
theory Chaos_World
  imports Chaos_Model Register Rust_Text
begin

text \<open>
  The world of \<open>src/test_rotation_chaos.rs\<close>: the contract client the scenarios drive, the
  helper methods of \<open>World\<close>, and the locale \<open>chaos_contract\<close>, the behaviour of the entry
  points the scenarios rely on.  The entry points are not in the repository; the client is a
  record of functions, and a host-level failure of a call is \<open>None\<close>.
\<close>

subsection \<open>The client\<close>

text \<open>\<open>k_register_callback\<close> takes the address whose authorisation alone is mocked, or
  \<open>None\<close> when every authorisation is.  The payloads of the scenarios differ in the
  transaction id, which is also their idempotency key.  \<open>k_has_transaction\<close> is whether
  \<open>try_get_transaction\<close> succeeds, \<open>k_auths\<close> who authorised the last call.\<close>

record 'e ChaosClient =
  k_initialize :: "Address \<Rightarrow> Address \<Rightarrow> 'e host"
  k_set_relay_signer :: "'e \<Rightarrow> Address \<Rightarrow> 'e host"
  k_relay_signer :: "'e \<Rightarrow> Address host"
  k_register_callback :: "'e \<Rightarrow> Address option \<Rightarrow> string \<Rightarrow> ((ContractError + string) \<times> 'e) host"
  k_get_status :: "'e \<Rightarrow> string \<Rightarrow> TransactionStatus host"
  k_start_processing :: "'e \<Rightarrow> string \<Rightarrow> Address \<Rightarrow> ((ContractError + unit) \<times> 'e) host"
  k_complete_transaction :: "'e \<Rightarrow> string \<Rightarrow> string \<Rightarrow> Address \<Rightarrow> ((ContractError + unit) \<times> 'e) host"
  k_fail_transaction :: "'e \<Rightarrow> string \<Rightarrow> string \<Rightarrow> Address \<Rightarrow> ((ContractError + unit) \<times> 'e) host"
  k_propose_admin :: "'e \<Rightarrow> Address \<Rightarrow> 'e host"
  k_accept_admin :: "'e \<Rightarrow> Address \<Rightarrow> 'e host"
  k_pause :: "'e \<Rightarrow> 'e host"
  k_unpause :: "'e \<Rightarrow> 'e host"
  k_has_transaction :: "'e \<Rightarrow> string \<Rightarrow> bool"
  k_auths :: "'e \<Rightarrow> Address list"

subsection \<open>The world\<close>

text \<open>\<open>generated\<close> counts the addresses drawn so far; \<open>gen n\<close> is the \<open>n\<close>-th address
  \<open>Address::generate\<close> returns.\<close>

record 'e Run = World +
  run_env :: 'e
  next_tx :: u32
  generated :: nat

definition new_run :: "'e ChaosClient \<Rightarrow> (nat \<Rightarrow> Address) \<Rightarrow> 'e Run host" where
  "new_run cl gen = do {
     let admin = gen 0;
     let relay = gen 1;
     env \<leftarrow> k_initialize cl admin relay;
     Some \<lparr>w_relay = relay, w_admin = admin, stale_relays = [], relay_history = [relay],
           run_env = env, next_tx = 0, generated = 2\<rparr> }"

definition tx_name :: "nat \<Rightarrow> string" where
  "tx_name n = ''tx-'' @ map char_of (digits n)"

definition payload_id :: "'e Run \<Rightarrow> (string \<times> 'e Run) host" where
  "payload_id w = do {
     n \<leftarrow> incr32 (next_tx w);
     Some (tx_name (unat n), w\<lparr>next_tx := n\<rparr>) }"

definition rotate_run :: "'e ChaosClient \<Rightarrow> 'e Run \<Rightarrow> Address \<Rightarrow> 'e Run host" where
  "rotate_run cl w next' = do {
     env \<leftarrow> k_set_relay_signer cl (run_env w) next';
     let w' = rotate_to (w\<lparr>run_env := env\<rparr>) next';
     r \<leftarrow> k_relay_signer cl (run_env w');
     assert_that (r = w_relay w');
     Some w' }"

datatype RotationKind = Fresh | SameSigner | ToAdmin | BackToOriginal

definition ROTATION_KINDS :: "RotationKind list" where
  "ROTATION_KINDS = [Fresh, SameSigner, ToAdmin, BackToOriginal]"

definition PATHS :: "Op list list" where
  "PATHS = [[Op_Start, Op_Complete], [Op_Start, Op_Fail], [Op_Fail]]"

definition fresh_address :: "(nat \<Rightarrow> Address) \<Rightarrow> 'e Run \<Rightarrow> Address \<times> 'e Run" where
  "fresh_address gen w = (gen (generated w), w\<lparr>generated := Suc (generated w)\<rparr>)"

definition rotate :: "'e ChaosClient \<Rightarrow> (nat \<Rightarrow> Address) \<Rightarrow> 'e Run \<Rightarrow> RotationKind \<Rightarrow> 'e Run host" where
  "rotate cl gen w kind =
     (let (next', w') = (case kind of
          Fresh \<Rightarrow> fresh_address gen w
        | SameSigner \<Rightarrow> (w_relay w, w)
        | ToAdmin \<Rightarrow> (w_admin w, w)
        | BackToOriginal \<Rightarrow>
            if w_relay w = relay_history w ! 0 then fresh_address gen w
            else (relay_history w ! 0, w))
      in rotate_run cl w' next')"

text \<open>Registering with only one signer's authorisation: whether the call succeeded; a call
  that fails at host level leaves no change.\<close>

definition register_as :: "'e ChaosClient \<Rightarrow> 'e Run \<Rightarrow> Address \<Rightarrow> string \<Rightarrow> bool \<times> 'e Run" where
  "register_as cl w signer i =
     (case k_register_callback cl (run_env w) (Some signer) i of
        Some (Inr _, env) \<Rightarrow> (True, w\<lparr>run_env := env\<rparr>)
      | Some (Inl _, env) \<Rightarrow> (False, w\<lparr>run_env := env\<rparr>)
      | None \<Rightarrow> (False, w))"

definition run_status :: "'e ChaosClient \<Rightarrow> 'e Run \<Rightarrow> string \<Rightarrow> TransactionStatus host" where
  "run_status cl w i = k_get_status cl (run_env w) i"

definition run_step ::
    "'e ChaosClient \<Rightarrow> 'e Run \<Rightarrow> Op \<Rightarrow> string \<Rightarrow> Address \<Rightarrow> ((ContractError + unit) \<times> 'e Run) host" where
  "run_step cl w op i c = do {
     (r, env) \<leftarrow> (case op of
         Op_Start \<Rightarrow> k_start_processing cl (run_env w) i c
       | Op_Complete \<Rightarrow> k_complete_transaction cl (run_env w) i ''hash'' c
       | Op_Fail \<Rightarrow> k_fail_transaction cl (run_env w) i ''err'' c);
     Some (r, w\<lparr>run_env := env\<rparr>) }"

definition step_expecting ::
    "'e ChaosClient \<Rightarrow> 'e Run \<Rightarrow> Op \<Rightarrow> string \<Rightarrow> Address \<Rightarrow> ContractError + unit \<Rightarrow> 'e Run host" where
  "step_expecting cl w op i c expected = do {
     (r, w') \<leftarrow> run_step cl w op i c;
     assert_that (r = expected);
     Some w' }"

definition stale_signers_cannot :: "'e ChaosClient \<Rightarrow> 'e Run \<Rightarrow> Op \<Rightarrow> string \<Rightarrow> 'e Run host" where
  "stale_signers_cannot cl w op i = do {
     before \<leftarrow> run_status cl w i;
     fold_host (\<lambda>w stale. do {
         w' \<leftarrow> step_expecting cl w op i stale (Inl Unauthorised);
         s \<leftarrow> run_status cl w' i;
         assert_that (s = before);
         Some w' }) w (stale_relays w) }"

text \<open>The match of \<open>assert_can_finish\<close> has no arm for the other statuses.\<close>

definition assert_can_finish :: "'e ChaosClient \<Rightarrow> 'e Run \<Rightarrow> string \<Rightarrow> 'e Run host" where
  "assert_can_finish cl w i = do {
     s \<leftarrow> run_status cl w i;
     w' \<leftarrow> (case s of
         Pending \<Rightarrow> do {
           w1 \<leftarrow> step_expecting cl w Op_Start i (w_relay w) (Inr ());
           step_expecting cl w1 Op_Complete i (w_relay w) (Inr ()) }
       | Processing \<Rightarrow> step_expecting cl w Op_Complete i (w_relay w) (Inr ())
       | Completed \<Rightarrow> Some w
       | Failed \<Rightarrow> Some w
       | _ \<Rightarrow> None);
     s' \<leftarrow> run_status cl w' i;
     assert_that (s' = Completed \<or> s' = Failed);
     Some w' }"

lemma map_of_char_digits: "map of_char (map char_of (digits n)) = digits n"
proof -
  have "of_char (char_of c :: char) = c" if "c \<in> set (digits n)" for c :: nat
    using digits_range [OF that] by simp
  then show ?thesis by (simp add: map_idI)
qed

lemma tx_name_inj: "tx_name m = tx_name n \<longleftrightarrow> m = n"
proof
  assume "tx_name m = tx_name n"
  then have "map of_char (map char_of (digits m) :: string) = (map of_char (map char_of (digits n) :: string) :: ustr)"
    by (simp add: tx_name_def)
  then show "m = n" by (simp only: map_of_char_digits) (metis digits_value_digits)
qed simp

subsection \<open>What the scenarios rely on\<close>

text \<open>The statuses the transition table deals with.\<close>

definition table_status :: "TransactionStatus \<Rightarrow> bool" where
  "table_status s \<longleftrightarrow> s \<in> {Pending, Processing, Completed, Failed}"

lemma model_transition_table: "model_transition s op = Some t \<Longrightarrow> table_status t"
  by (cases s; cases op) (auto simp: model_transition_def table_status_def)

record ChaosView =
  v_admin :: Address
  v_relay :: Address
  v_pending :: "Address option"
  v_paused :: bool
  v_status :: "string \<rightharpoonup> TransactionStatus"

definition role_then_table ::
    "('e \<Rightarrow> ChaosView) \<Rightarrow> 'e \<Rightarrow> Address \<Rightarrow> TransactionStatus \<Rightarrow> Op \<Rightarrow> ContractError + TransactionStatus"
  where
  "role_then_table view e c s op =
     (if c \<noteq> v_relay (view e) \<and> c \<noteq> v_admin (view e) then Inl Unauthorised
      else case model_transition s op of
        None \<Rightarrow> Inl InvalidStatusTransition
      | Some t \<Rightarrow> Inr t)"

text \<open>The invariant of the world: its bookkeeping agrees with the contract, neither current
  role is stale, every address in it has been drawn, and every id was handed out.\<close>

definition known_addresses :: "'a World_scheme \<Rightarrow> Address set" where
  "known_addresses w = {w_relay w, w_admin w} \<union> set (stale_relays w) \<union> set (relay_history w)"

lemma known_addresses_frame [simp]:
  "known_addresses (w\<lparr>run_env := e\<rparr>) = known_addresses w"
  "known_addresses (w\<lparr>next_tx := n\<rparr>) = known_addresses w"
  "known_addresses (w\<lparr>generated := m\<rparr>) = known_addresses w"
  by (simp_all add: known_addresses_def)

lemma rotate_to_known: "known_addresses (rotate_to w a) \<subseteq> insert a (known_addresses w)"
  by (auto simp: known_addresses_def rotate_to_def Let_def)

lemma rotate_to_roles:
  shows "w_relay (rotate_to w a) = a" "w_admin (rotate_to w a) = w_admin w"
    and "a \<notin> set (stale_relays (rotate_to w a))" "w_admin w \<notin> set (stale_relays (rotate_to w a))"
    and "relay_history (rotate_to w a) \<noteq> []"
  by (simp_all add: rotate_to_def Let_def)

lemma rotate_to_run [simp]:
  fixes w :: "'e Run"
  shows "run_env (rotate_to w a) = run_env w" "next_tx (rotate_to w a) = next_tx w"
    and "generated (rotate_to w a) = generated w"
  by (simp_all add: rotate_to_def Let_def)

definition world_ok :: "('e \<Rightarrow> bool) \<Rightarrow> ('e \<Rightarrow> ChaosView) \<Rightarrow> (nat \<Rightarrow> Address) \<Rightarrow> 'e Run \<Rightarrow> bool" where
  "world_ok ok view gen w \<longleftrightarrow> ok (run_env w) \<and>
     v_admin (view (run_env w)) = w_admin w \<and> v_relay (view (run_env w)) = w_relay w \<and>
     w_relay w \<notin> set (stale_relays w) \<and> w_admin w \<notin> set (stale_relays w) \<and>
     relay_history w \<noteq> [] \<and> known_addresses w \<subseteq> gen ` {..<generated w} \<and>
     (\<forall>i s. v_status (view (run_env w)) i = Some s \<longrightarrow>
       table_status s \<and> (\<exists>n \<le> unat (next_tx w). i = tx_name n))"

lemma world_ok_later:
  assumes "world_ok ok view gen w" "unat (next_tx w) \<le> unat n"
  shows "world_ok ok view gen (w\<lparr>next_tx := n\<rparr>)"
proof -
  have "\<exists>m \<le> unat n. i = tx_name m" if "\<exists>m \<le> unat (next_tx w). i = tx_name m" for i
    using that assms(2) le_trans by blast
  with assms(1) show ?thesis by (simp add: world_ok_def)
qed

text \<open>The behaviour of the entry points, as seen through the getters: roles and the pause
  flag are set as told, registration needs the current signer and a running contract, and a
  lifecycle call checks the caller before the transition table.\<close>

locale chaos_contract =
  fixes cl :: "'e ChaosClient"
    and ok :: "'e \<Rightarrow> bool"
    and view :: "'e \<Rightarrow> ChaosView"
  assumes initialize: "\<exists>e. k_initialize cl admin relay = Some e \<and> ok e \<and>
      view e = \<lparr>v_admin = admin, v_relay = relay, v_pending = None, v_paused = False,
        v_status = Map.empty\<rparr>"
    and set_relay_signer: "ok e \<Longrightarrow> \<exists>e'. k_set_relay_signer cl e a = Some e' \<and> ok e' \<and>
      view e' = view e\<lparr>v_relay := a\<rparr>"
    and relay_signer: "ok e \<Longrightarrow> k_relay_signer cl e = Some (v_relay (view e))"
    and get_status: "ok e \<Longrightarrow> k_get_status cl e i = v_status (view e) i"
    and propose_admin: "ok e \<Longrightarrow> \<exists>e'. k_propose_admin cl e a = Some e' \<and> ok e' \<and>
      view e' = view e\<lparr>v_pending := Some a\<rparr>"
    and accept_admin: "ok e \<Longrightarrow> v_pending (view e) = Some a \<Longrightarrow> \<exists>e'. k_accept_admin cl e a = Some e' \<and>
      ok e' \<and> view e' = view e\<lparr>v_admin := a, v_pending := None\<rparr>"
    and pause: "ok e \<Longrightarrow> \<not> v_paused (view e) \<Longrightarrow> \<exists>e'. k_pause cl e = Some e' \<and> ok e' \<and>
      view e' = view e\<lparr>v_paused := True\<rparr>"
    and unpause: "ok e \<Longrightarrow> v_paused (view e) \<Longrightarrow> \<exists>e'. k_unpause cl e = Some e' \<and> ok e' \<and>
      view e' = view e\<lparr>v_paused := False\<rparr>"
    and register_paused: "ok e \<Longrightarrow> v_paused (view e) \<Longrightarrow>
      k_register_callback cl e signer i = Some (Inl ContractPaused, e)"
    and register_current: "ok e \<Longrightarrow> \<not> v_paused (view e) \<Longrightarrow> v_status (view e) i = None \<Longrightarrow>
      signer = None \<or> signer = Some (v_relay (view e)) \<Longrightarrow>
      \<exists>e'. k_register_callback cl e signer i = Some (Inr i, e') \<and> ok e' \<and>
        view e' = view e\<lparr>v_status := (v_status (view e))(i \<mapsto> Pending)\<rparr> \<and>
        k_auths cl e' = [v_relay (view e)]"
    and has_transaction: "ok e \<Longrightarrow> k_has_transaction cl e i \<longleftrightarrow> v_status (view e) i \<noteq> None"
    and register_stale: "ok e \<Longrightarrow> \<not> v_paused (view e) \<Longrightarrow> a \<noteq> v_relay (view e) \<Longrightarrow>
      k_register_callback cl e (Some a) i = None"
    and start: "ok e \<Longrightarrow> v_status (view e) i = Some s \<Longrightarrow>
      (case role_then_table view e c s Op_Start of
         Inl err \<Rightarrow> k_start_processing cl e i c = Some (Inl err, e)
       | Inr t \<Rightarrow> \<exists>e'. k_start_processing cl e i c = Some (Inr (), e') \<and> ok e' \<and>
           view e' = view e\<lparr>v_status := (v_status (view e))(i \<mapsto> t)\<rparr>)"
    and complete: "ok e \<Longrightarrow> v_status (view e) i = Some s \<Longrightarrow>
      (case role_then_table view e c s Op_Complete of
         Inl err \<Rightarrow> k_complete_transaction cl e i h c = Some (Inl err, e)
       | Inr t \<Rightarrow> \<exists>e'. k_complete_transaction cl e i h c = Some (Inr (), e') \<and> ok e' \<and>
           view e' = view e\<lparr>v_status := (v_status (view e))(i \<mapsto> t)\<rparr>)"
    and fail: "ok e \<Longrightarrow> v_status (view e) i = Some s \<Longrightarrow>
      (case role_then_table view e c s Op_Fail of
         Inl err \<Rightarrow> k_fail_transaction cl e i ''err'' c = Some (Inl err, e)
       | Inr t \<Rightarrow> \<exists>e'. k_fail_transaction cl e i ''err'' c = Some (Inr (), e') \<and> ok e' \<and>
           view e' = view e\<lparr>v_status := (v_status (view e))(i \<mapsto> t)\<rparr>)"
begin

lemma run_step_law:
  assumes "ok (run_env w)" "v_status (view (run_env w)) i = Some s"
  shows "case role_then_table view (run_env w) c s op of
      Inl err \<Rightarrow> run_step cl w op i c = Some (Inl err, w)
    | Inr t \<Rightarrow> \<exists>e'. run_step cl w op i c = Some (Inr (), w\<lparr>run_env := e'\<rparr>) \<and> ok e' \<and>
        view e' = (view (run_env w))\<lparr>v_status := (v_status (view (run_env w)))(i \<mapsto> t)\<rparr>"
  using start [OF assms, of c] complete [OF assms, where c = c and h = "''hash''"] fail [OF assms, of c]
  by (cases op) (auto simp: run_step_def split: sum.splits)

text \<open>A refused call changes nothing, an admitted one moves the transaction.\<close>

lemma refused_step:
  assumes "world_ok ok view gen w" "v_status (view (run_env w)) i = Some s"
    and "c \<noteq> w_relay w" "c \<noteq> w_admin w"
  shows "step_expecting cl w op i c (Inl Unauthorised) = Some w"
  using run_step_law [where w = w and c = c and op = op, OF _ assms(2)] assms
  by (simp add: world_ok_def role_then_table_def step_expecting_def)

lemma untabled_step:
  assumes "world_ok ok view gen w" "v_status (view (run_env w)) i = Some s"
    and "c = w_relay w \<or> c = w_admin w" "model_transition s op = None"
  shows "step_expecting cl w op i c (Inl InvalidStatusTransition) = Some w"
  using run_step_law [where w = w and c = c and op = op, OF _ assms(2)] assms
  by (auto simp: world_ok_def role_then_table_def step_expecting_def)

lemma admitted_step:
  assumes "world_ok ok view gen w" "v_status (view (run_env w)) i = Some s"
    and "c = w_relay w \<or> c = w_admin w" "model_transition s op = Some t"
  shows "\<exists>e'. step_expecting cl w op i c (Inr ()) = Some (w\<lparr>run_env := e'\<rparr>) \<and>
    world_ok ok view gen (w\<lparr>run_env := e'\<rparr>) \<and>
    view e' = (view (run_env w))\<lparr>v_status := (v_status (view (run_env w)))(i \<mapsto> t)\<rparr>"
proof -
  have "role_then_table view (run_env w) c s op = Inr t"
    using assms(1,3,4) by (auto simp: world_ok_def role_then_table_def)
  with run_step_law [where w = w and c = c and op = op, OF _ assms(2)] assms(1)
  obtain e' where e: "run_step cl w op i c = Some (Inr (), w\<lparr>run_env := e'\<rparr>)" "ok e'"
    "view e' = (view (run_env w))\<lparr>v_status := (v_status (view (run_env w)))(i \<mapsto> t)\<rparr>"
    by (auto simp: world_ok_def)
  have "table_status t" using assms(4) model_transition_table by blast
  with assms(1,2) e(2,3) have "world_ok ok view gen (w\<lparr>run_env := e'\<rparr>)"
    by (auto simp: world_ok_def)
  with e show ?thesis unfolding step_expecting_def by (intro exI [of _ e']) simp
qed

lemma status_law: "world_ok ok view gen w \<Longrightarrow> run_status cl w i = v_status (view (run_env w)) i"
  by (simp add: world_ok_def run_status_def get_status)

lemma stale_signers_refused:
  assumes "world_ok ok view gen w" "v_status (view (run_env w)) i = Some s"
  shows "stale_signers_cannot cl w op i = Some w"
proof -
  have "fold_host (\<lambda>w stale. do {
         w' \<leftarrow> step_expecting cl w op i stale (Inl Unauthorised);
         s' \<leftarrow> run_status cl w' i;
         assert_that (s' = s);
         Some w' }) w as = Some w" if "set as \<subseteq> set (stale_relays w)" for "as"
    using that
  proof (induction "as")
    case (Cons a "as")
    with assms(1) have "a \<noteq> w_relay w" "a \<noteq> w_admin w" by (auto simp: world_ok_def)
    from refused_step [OF assms this] Cons show ?case
      by (simp add: status_law [OF assms(1)] assms(2))
  qed simp
  with assms show ?thesis by (simp add: stale_signers_cannot_def status_law [OF assms(1)])
qed

lemma rotate_run_law:
  assumes "world_ok ok view gen w" "a \<in> gen ` {..<generated w}"
  shows "\<exists>w'. rotate_run cl w a = Some w' \<and> world_ok ok view gen w' \<and> w_admin w' = w_admin w \<and>
    next_tx w' = next_tx w \<and> generated w' = generated w \<and> w_relay w' = a \<and>
    view (run_env w') = (view (run_env w))\<lparr>v_relay := a\<rparr>"
proof -
  from assms(1) obtain e' where e: "k_set_relay_signer cl (run_env w) a = Some e'" "ok e'"
    "view e' = (view (run_env w))\<lparr>v_relay := a\<rparr>"
    using set_relay_signer [of "run_env w" a] by (auto simp: world_ok_def)
  let ?w = "rotate_to (w\<lparr>run_env := e'\<rparr>) a"
  have r: "k_relay_signer cl e' = Some a" using relay_signer [OF e(2)] e(3) by simp
  have "world_ok ok view gen ?w"
    using assms e(2,3) rotate_to_known [of "w\<lparr>run_env := e'\<rparr>" a]
      rotate_to_roles [where w = "w\<lparr>run_env := e'\<rparr>" and a = a]
    by (auto simp: world_ok_def)
  with e r assms(1) show ?thesis
    by (auto simp: rotate_run_def world_ok_def rotate_to_roles)
qed

lemma world_ok_generated:
  "world_ok ok view gen w \<Longrightarrow> world_ok ok view gen (w\<lparr>generated := Suc (generated w)\<rparr>)"
  by (force simp: world_ok_def)

lemma rotate_law:
  assumes "world_ok ok view gen w"
  shows "\<exists>w'. rotate cl gen w kind = Some w' \<and> world_ok ok view gen w' \<and> w_admin w' = w_admin w \<and>
    next_tx w' = next_tx w \<and>
    view (run_env w') = (view (run_env w))\<lparr>v_relay := w_relay w'\<rparr>"
proof -
  have known: "\<exists>w'. rotate_run cl w a = Some w' \<and> world_ok ok view gen w' \<and> w_admin w' = w_admin w \<and>
    next_tx w' = next_tx w \<and> view (run_env w') = (view (run_env w))\<lparr>v_relay := w_relay w'\<rparr>"
    if "a \<in> known_addresses w" for a
    using rotate_run_law [OF assms, of a] that assms by (auto simp: world_ok_def)
  have fresh: "\<exists>w'. (let (a, w1) = fresh_address gen w in rotate_run cl w1 a) = Some w' \<and>
    world_ok ok view gen w' \<and> w_admin w' = w_admin w \<and> next_tx w' = next_tx w \<and>
    view (run_env w') = (view (run_env w))\<lparr>v_relay := w_relay w'\<rparr>"
    using rotate_run_law [OF world_ok_generated [OF assms], of "gen (generated w)"]
    by (auto simp: fresh_address_def)
  have "relay_history w ! 0 \<in> known_addresses w"
    using assms nth_mem [of 0 "relay_history w"] by (auto simp: world_ok_def known_addresses_def)
  with known fresh show ?thesis
    by (cases kind) (auto simp: rotate_def known_addresses_def split: if_splits)
qed

lemma new_run_law:
  assumes "inj gen"
  shows "\<exists>w. new_run cl gen = Some w \<and> world_ok ok view gen w \<and> next_tx w = 0 \<and>
    stale_relays w = [] \<and> \<not> v_paused (view (run_env w)) \<and> v_status (view (run_env w)) = Map.empty"
proof -
  from initialize [of "gen 0" "gen 1"] obtain e where "k_initialize cl (gen 0) (gen 1) = Some e" "ok e"
    "view e = \<lparr>v_admin = gen 0, v_relay = gen 1, v_pending = None, v_paused = False,
       v_status = Map.empty\<rparr>" by blast
  then show ?thesis by (auto simp: new_run_def Let_def world_ok_def known_addresses_def)
qed

lemma payload_law:
  assumes "world_ok ok view gen w" "unat (next_tx w) < 2 ^ 32 - 1"
  shows "\<exists>n. payload_id w = Some (tx_name (unat n), w\<lparr>next_tx := n\<rparr>) \<and>
    unat n = Suc (unat (next_tx w)) \<and> world_ok ok view gen (w\<lparr>next_tx := n\<rparr>) \<and>
    v_status (view (run_env w)) (tx_name (unat n)) = None"
proof -
  from incr32_fits [OF assms(2)] obtain n where n: "incr32 (next_tx w) = Some n"
    "unat n = Suc (unat (next_tx w))" by blast
  have "v_status (view (run_env w)) (tx_name (unat n)) = None"
  proof (rule ccontr)
    assume "v_status (view (run_env w)) (tx_name (unat n)) \<noteq> None"
    with assms(1) have "\<exists>m \<le> unat (next_tx w). tx_name (unat n) = tx_name m"
      unfolding world_ok_def by blast
    then obtain m where "m \<le> unat (next_tx w)" "tx_name (unat n) = tx_name m" by blast
    with n(2) show False by (simp add: tx_name_inj)
  qed
  moreover have "world_ok ok view gen (w\<lparr>next_tx := n\<rparr>)"
    using assms(1) n(2) by (intro world_ok_later) simp_all
  ultimately show ?thesis using n by (intro exI [of _ n]) (simp add: payload_id_def)
qed

lemma register_law:
  assumes "world_ok ok view gen w" "\<not> v_paused (view (run_env w))"
    and "v_status (view (run_env w)) (tx_name (unat (next_tx w))) = None"
    and "signer = None \<or> signer = Some (w_relay w)"
  shows "\<exists>e'. k_register_callback cl (run_env w) signer (tx_name (unat (next_tx w))) =
      Some (Inr (tx_name (unat (next_tx w))), e') \<and> world_ok ok view gen (w\<lparr>run_env := e'\<rparr>) \<and>
    view e' = (view (run_env w))\<lparr>v_status :=
      (v_status (view (run_env w)))(tx_name (unat (next_tx w)) \<mapsto> Pending)\<rparr> \<and>
    k_auths cl e' = [w_relay w]"
proof -
  from register_current [of "run_env w", OF _ assms(2,3), of signer] assms(1,4)
  obtain e' where e: "k_register_callback cl (run_env w) signer (tx_name (unat (next_tx w))) =
      Some (Inr (tx_name (unat (next_tx w))), e')" "ok e'"
    "view e' = (view (run_env w))\<lparr>v_status :=
      (v_status (view (run_env w)))(tx_name (unat (next_tx w)) \<mapsto> Pending)\<rparr>"
    "k_auths cl e' = [w_relay w]"
    by (auto simp: world_ok_def)
  with assms(1) have "world_ok ok view gen (w\<lparr>run_env := e'\<rparr>)"
    by (auto simp: world_ok_def table_status_def)
  with e show ?thesis by blast
qed

lemma finish_law:
  assumes "world_ok ok view gen w" "v_status (view (run_env w)) i = Some s"
  shows "\<exists>e' t. assert_can_finish cl w i = Some (w\<lparr>run_env := e'\<rparr>) \<and>
    world_ok ok view gen (w\<lparr>run_env := e'\<rparr>) \<and>
    view e' = (view (run_env w))\<lparr>v_status := (v_status (view (run_env w)))(i \<mapsto> t)\<rparr>"
proof -
  note law = status_law [OF assms(1), of i]
  have "table_status s" using assms by (auto simp: world_ok_def)
  then consider "s = Pending" | "s = Processing" | "s = Completed \<or> s = Failed"
    by (auto simp: table_status_def)
  then show ?thesis
  proof cases
    case 1
    then have "model_transition s Op_Start = Some Processing" by (simp add: model_transition_def)
    from admitted_step [OF assms _ this, of "w_relay w"] obtain e1 where
      e1: "step_expecting cl w Op_Start i (w_relay w) (Inr ()) = Some (w\<lparr>run_env := e1\<rparr>)"
      "world_ok ok view gen (w\<lparr>run_env := e1\<rparr>)"
      "view e1 = (view (run_env w))\<lparr>v_status := (v_status (view (run_env w)))(i \<mapsto> Processing)\<rparr>"
      by blast
    have "model_transition Processing Op_Complete = Some Completed" by (simp add: model_transition_def)
    from admitted_step [OF e1(2) _ _ this, of i "w_relay w"] e1(3) obtain e2 where
      e2: "step_expecting cl (w\<lparr>run_env := e1\<rparr>) Op_Complete i (w_relay w) (Inr ()) =
        Some (w\<lparr>run_env := e2\<rparr>)" "world_ok ok view gen (w\<lparr>run_env := e2\<rparr>)"
      "view e2 = (view (run_env w))\<lparr>v_status := (v_status (view (run_env w)))(i \<mapsto> Completed)\<rparr>"
      by auto
    have "assert_can_finish cl w i = Some (w\<lparr>run_env := e2\<rparr>)"
      using 1 law assms(2) e1(1) e2 status_law [OF e2(2), of i]
      by (simp add: assert_can_finish_def)
    with e2 show ?thesis by blast
  next
    case 2
    then have "model_transition s Op_Complete = Some Completed" by (simp add: model_transition_def)
    from admitted_step [OF assms _ this, of "w_relay w"] obtain e1 where
      e1: "step_expecting cl w Op_Complete i (w_relay w) (Inr ()) = Some (w\<lparr>run_env := e1\<rparr>)"
      "world_ok ok view gen (w\<lparr>run_env := e1\<rparr>)"
      "view e1 = (view (run_env w))\<lparr>v_status := (v_status (view (run_env w)))(i \<mapsto> Completed)\<rparr>"
      by blast
    have "assert_can_finish cl w i = Some (w\<lparr>run_env := e1\<rparr>)"
      using 2 law assms(2) e1 status_law [OF e1(2), of i] by (simp add: assert_can_finish_def)
    with e1 show ?thesis by blast
  next
    case 3
    then have "assert_can_finish cl w i = Some w"
      using law assms(2) by (auto simp: assert_can_finish_def)
    moreover have "view (run_env w) = (view (run_env w))\<lparr>v_status := (v_status (view (run_env w)))(i \<mapsto> s)\<rparr>"
      using assms(2) by (simp add: fun_upd_idem)
    ultimately show ?thesis using assms(1) by (intro exI [of _ "run_env w"] exI [of _ s]) simp
  qed
qed

end

end
