(* ===== verification/Chaos_Run.thy ===== *)
theory Chaos_Run
  imports Chaos_World
begin

text \<open>
  The drivers of \<open>src/test_rotation_chaos.rs\<close>: the exhaustive enumeration of rotation
  interleavings and the seeded chaos run against the reference model.  Over any contract
  that keeps the laws of \<open>chaos_contract\<close>, no assertion of either fails, whatever the seed,
  the number of steps, the rotation slots and the kind of rotation.
\<close>

subsection \<open>Interleavings\<close>

definition rotate_at ::
    "'e ChaosClient \<Rightarrow> (nat \<Rightarrow> Address) \<Rightarrow> u32 \<Rightarrow> RotationKind \<Rightarrow> nat \<Rightarrow> 'e Run \<Rightarrow> 'e Run host" where
  "rotate_at cl gen msk kind slot w = (if bit msk slot then rotate cl gen w kind else Some w)"

definition stale_cannot_register :: "'e ChaosClient \<Rightarrow> string \<Rightarrow> 'e Run \<Rightarrow> 'e Run host" where
  "stale_cannot_register cl i w =
     fold_host (\<lambda>w stale. case register_as cl w stale i of (registered, w') \<Rightarrow> do {
         assert_that (\<not> registered);
         Some w' }) w (stale_relays w)"

definition interleaving_step ::
    "'e ChaosClient \<Rightarrow> (nat \<Rightarrow> Address) \<Rightarrow> u32 \<Rightarrow> RotationKind \<Rightarrow> bool \<Rightarrow> string \<Rightarrow> 'e Run \<Rightarrow>
     nat \<times> Op \<Rightarrow> 'e Run host" where
  "interleaving_step cl gen msk kind admin_drives_odd_steps tx w = (\<lambda>(i, op). do {
     w1 \<leftarrow> rotate_at cl gen msk kind (i + 1) w;
     w2 \<leftarrow> stale_signers_cannot cl w1 op tx;
     let driver = (if admin_drives_odd_steps \<and> i mod 2 = 1 then w_admin w2 else w_relay w2);
     step_expecting cl w2 op tx driver (Inr ()) })"

definition run_interleaving ::
    "'e ChaosClient \<Rightarrow> (nat \<Rightarrow> Address) \<Rightarrow> Op list \<Rightarrow> u32 \<Rightarrow> RotationKind \<Rightarrow> bool \<Rightarrow> unit host" where
  "run_interleaving cl gen path msk kind admin_drives_odd_steps = do {
     w0 \<leftarrow> new_run cl gen;
     w1 \<leftarrow> rotate_at cl gen msk kind 0 w0;
     (tx, w2) \<leftarrow> payload_id w1;
     w3 \<leftarrow> stale_cannot_register cl tx w2;
     let (registered, w4) = register_as cl w3 (w_relay w3) tx;
     assert_that registered;
     s \<leftarrow> run_status cl w4 tx;
     assert_that (s = Pending);
     w5 \<leftarrow> fold_host (interleaving_step cl gen msk kind admin_drives_odd_steps tx) w4
       (enumerate 0 path);
     terminal \<leftarrow> run_status cl w5 tx;
     w6 \<leftarrow> rotate_at cl gen msk kind (length path + 1) w5;
     s' \<leftarrow> run_status cl w6 tx;
     assert_that (s' = terminal);
     assert_that (path \<noteq> []);
     assert_that (terminal = (if last path = Op_Complete then Completed else Failed));
     fold_host (\<lambda>w stale. step_expecting cl w Op_Fail tx stale (Inl Unauthorised)) w6 (stale_relays w6);
     Some () }"

text \<open>Every subset of the slots, with every kind of rotation driven by the relay and once
  more with the admin driving the odd steps; the number of scenarios run.\<close>

definition interleavings :: "Op list \<Rightarrow> (u32 \<times> RotationKind \<times> bool) list" where
  "interleavings path =
     concat (map (\<lambda>msk. map (\<lambda>kind. (word_of_nat msk, kind, False)) ROTATION_KINDS @
         [(word_of_nat msk, Fresh, True)]) [0..<2 ^ (length path + 2)])"

definition exhaustive_rotation_interleavings ::
    "'e ChaosClient \<Rightarrow> (nat \<Rightarrow> Address) \<Rightarrow> Op list \<Rightarrow> u32 host" where
  "exhaustive_rotation_interleavings cl gen path =
     fold_host (\<lambda>n (msk, kind, admin_drives). do {
         run_interleaving cl gen path msk kind admin_drives;
         incr32 n }) 0 (interleavings path)"

text \<open>The status a path of operations leads to, by the transition table.\<close>

fun path_status :: "TransactionStatus \<Rightarrow> Op list \<Rightarrow> TransactionStatus option" where
  "path_status s [] = Some s"
| "path_status s (op # ops) = do { t \<leftarrow> model_transition s op; path_status t ops }"

definition terminal_path :: "Op list \<Rightarrow> bool" where
  "terminal_path path \<longleftrightarrow> path \<noteq> [] \<and>
     path_status Pending path = Some (if last path = Op_Complete then Completed else Failed)"

lemma paths_terminal: "path \<in> set PATHS \<Longrightarrow> terminal_path path"
  by (auto simp: PATHS_def terminal_path_def model_transition_def)

context chaos_contract
begin

lemma rotate_at_law:
  assumes "world_ok ok view gen w"
  shows "\<exists>w'. rotate_at cl gen msk kind slot w = Some w' \<and> world_ok ok view gen w' \<and>
    next_tx w' = next_tx w \<and> v_status (view (run_env w')) = v_status (view (run_env w)) \<and>
    v_paused (view (run_env w')) = v_paused (view (run_env w))"
  using rotate_law [OF assms, of kind] assms by (auto simp: rotate_at_def)

lemma stale_register_law:
  assumes "world_ok ok view gen w" "\<not> v_paused (view (run_env w))"
  shows "stale_cannot_register cl i w = Some w"
proof -
  have "fold_host (\<lambda>w stale. case register_as cl w stale i of (registered, w') \<Rightarrow> do {
         assert_that (\<not> registered);
         Some w' }) w as = Some w" if "set as \<subseteq> set (stale_relays w)" for "as"
    using that
  proof (induction "as")
    case (Cons a "as")
    with assms(1) have "a \<noteq> v_relay (view (run_env w))" by (auto simp: world_ok_def)
    with register_stale [OF _ assms(2) this] assms(1) have "register_as cl w a i = (False, w)"
      by (simp add: register_as_def world_ok_def)
    with Cons show ?case by simp
  qed simp
  then show ?thesis by (simp add: stale_cannot_register_def)
qed

lemma interleaving_steps_law:
  assumes "world_ok ok view gen w" "v_status (view (run_env w)) tx = Some s"
    and "path_status s path = Some t"
  shows "\<exists>w'. fold_host (interleaving_step cl gen msk kind odd' tx) w (enumerate n path) = Some w' \<and>
    world_ok ok view gen w' \<and> v_status (view (run_env w')) tx = Some t"
  using assms
proof (induction path arbitrary: n w s)
  case Nil
  then show ?case by simp
next
  case (Cons op path)
  then obtain s1 where s1: "model_transition s op = Some s1" "path_status s1 path = Some t"
    by (auto simp: bind_eq_Some_conv)
  from rotate_at_law [OF Cons.prems(1), of msk kind "n + 1"] Cons.prems(2) obtain w1 where
    w1: "rotate_at cl gen msk kind (n + 1) w = Some w1" "world_ok ok view gen w1"
    "v_status (view (run_env w1)) tx = Some s" by auto
  let ?d = "if odd' \<and> n mod 2 = 1 then w_admin w1 else w_relay w1"
  have "?d = w_relay w1 \<or> ?d = w_admin w1" by simp
  from admitted_step [OF w1(2,3) this s1(1)] obtain e where
    e: "step_expecting cl w1 op tx ?d (Inr ()) = Some (w1\<lparr>run_env := e\<rparr>)"
    "world_ok ok view gen (w1\<lparr>run_env := e\<rparr>)" "v_status (view e) tx = Some s1"
    by auto
  have step: "interleaving_step cl gen msk kind odd' tx w (n, op) = Some (w1\<lparr>run_env := e\<rparr>)"
    using w1(1) stale_signers_refused [OF w1(2,3)] e(1) by (simp add: interleaving_step_def Let_def)
  from Cons.IH [OF e(2) _ s1(2), of "Suc n"] e(3) step show ?case by simp
qed

lemma interleaving_law:
  assumes "inj gen" "terminal_path path"
  shows "run_interleaving cl gen path msk kind admin_drives = Some ()"
proof -
  from new_run_law [OF assms(1)] obtain w0 where w0: "new_run cl gen = Some w0"
    "world_ok ok view gen w0" "next_tx w0 = 0" "\<not> v_paused (view (run_env w0))" by blast
  from rotate_at_law [OF w0(2), of msk kind 0] w0(3,4) obtain w1 where
    w1: "rotate_at cl gen msk kind 0 w0 = Some w1" "world_ok ok view gen w1" "next_tx w1 = 0"
    "\<not> v_paused (view (run_env w1))" by auto
  from payload_law [OF w1(2)] w1(3) obtain n where
    n: "payload_id w1 = Some (tx_name (unat n), w1\<lparr>next_tx := n\<rparr>)"
    "world_ok ok view gen (w1\<lparr>next_tx := n\<rparr>)"
    "v_status (view (run_env w1)) (tx_name (unat n)) = None" by auto
  let ?w2 = "w1\<lparr>next_tx := n\<rparr>" and ?tx = "tx_name (unat n)"
  from register_law [OF n(2), of "Some (w_relay w1)"] w1(4) n(3) obtain e where
    e: "k_register_callback cl (run_env w1) (Some (w_relay w1)) ?tx = Some (Inr ?tx, e)"
    "world_ok ok view gen (?w2\<lparr>run_env := e\<rparr>)" "v_status (view e) ?tx = Some Pending" by auto
  let ?w4 = "?w2\<lparr>run_env := e\<rparr>"
  let ?t = "if last path = Op_Complete then Completed else Failed"
  from assms(2) have path: "path \<noteq> []" "path_status Pending path = Some ?t"
    by (simp_all add: terminal_path_def)
  from interleaving_steps_law [OF e(2) _ path(2), of ?tx msk kind admin_drives 0] e(3) obtain w5 where
    w5: "fold_host (interleaving_step cl gen msk kind admin_drives ?tx) ?w4 (enumerate 0 path) = Some w5"
    "world_ok ok view gen w5" "v_status (view (run_env w5)) ?tx = Some ?t" by auto
  from rotate_at_law [OF w5(2), of msk kind "length path + 1"] w5(3) obtain w6 where
    w6: "rotate_at cl gen msk kind (length path + 1) w5 = Some w6" "world_ok ok view gen w6"
    "v_status (view (run_env w6)) ?tx = Some ?t" by auto
  have stale: "\<exists>w'. fold_host (\<lambda>w stale. step_expecting cl w Op_Fail ?tx stale (Inl Unauthorised)) w6
      (stale_relays w6) = Some w' \<and> w' = w6"
    using w6(2,3) by (intro fold_host_inv) (auto intro!: refused_step simp: world_ok_def)
  have reg: "register_as cl ?w2 (w_relay w1) ?tx = (True, ?w4)"
    using e(1) by (simp add: register_as_def)
  show ?thesis
    using w0(1) w1(1) n(1) stale_register_law [OF n(2)] w1(4) reg status_law [OF e(2), of ?tx] e(3)
      w5(1) status_law [OF w5(2), of ?tx] w5(3) w6(1) status_law [OF w6(2), of ?tx] w6(3) path(1) stale
    by (simp add: run_interleaving_def Let_def)
qed

end

lemma interleavings_length: "length (interleavings path) = 5 * 2 ^ (length path + 2)"
  by (simp add: interleavings_def ROTATION_KINDS_def length_concat o_def sum_list_triv)

lemma count_runs:
  assumes "\<forall>x \<in> set xs. f x = Some ()" "unat n + length xs < 2 ^ 32"
  shows "\<exists>m. fold_host (\<lambda>n x. do { f x; incr32 n }) n xs = Some m \<and> unat m = unat n + length xs"
  using assms
proof (induction xs arbitrary: n)
  case (Cons x xs)
  then have "unat n < 2 ^ 32 - 1" by simp
  from incr32_fits [OF this] obtain m where m: "incr32 n = Some m" "unat m = Suc (unat n)" by blast
  from Cons.IH [of m] Cons.prems m show ?case by auto
qed simp

subsection \<open>The seeded run\<close>

text \<open>The generator: the result and the next state.\<close>

definition lcg_next :: "u64 \<Rightarrow> u64 \<times> u64" where
  "lcg_next s =
     (let s' = s * 6364136223846793005 + 1442695040888963407 in (drop_bit 33 s', s'))"

definition below :: "u64 \<Rightarrow> nat \<Rightarrow> (nat \<times> u64) host" where
  "below s n = (if n = 0 then None else case lcg_next s of (r, s') \<Rightarrow> Some (unat r mod n, s'))"

lemma below_law: "0 < n \<Longrightarrow> \<exists>k s'. below s n = Some (k, s') \<and> k < n"
  by (cases "lcg_next s") (simp add: below_def)

datatype Actor = CurrentRelay | AdminActor | StaleRelay | StaleAdmin | Stranger

record 'e Chaos =
  rng :: u64
  crun :: "'e Run"
  stale_admins :: "Address list"
  paused :: bool
  txs :: "(string \<times> TransactionStatus) list"

definition chaos_rotate :: "'e ChaosClient \<Rightarrow> (nat \<Rightarrow> Address) \<Rightarrow> 'e Chaos \<Rightarrow> 'e Chaos host" where
  "chaos_rotate cl gen c = do {
     (i, r) \<leftarrow> below (rng c) 4;
     w \<leftarrow> rotate cl gen (crun c) (ROTATION_KINDS ! i);
     Some (c\<lparr>rng := r, crun := w\<rparr>) }"

definition chaos_transfer :: "'e ChaosClient \<Rightarrow> (nat \<Rightarrow> Address) \<Rightarrow> 'e Chaos \<Rightarrow> 'e Chaos host" where
  "chaos_transfer cl gen c =
     (case fresh_address gen (crun c) of (next', w) \<Rightarrow> do {
        env1 \<leftarrow> k_propose_admin cl (run_env w) next';
        env2 \<leftarrow> k_accept_admin cl env1 next';
        let old = w_admin w;
        Some (c\<lparr>crun := w\<lparr>run_env := env2, w_admin := next'\<rparr>,
                stale_admins := (if old \<noteq> w_relay w then stale_admins c @ [old] else stale_admins c)\<rparr>) })"

definition chaos_pause :: "'e ChaosClient \<Rightarrow> 'e Chaos \<Rightarrow> 'e Chaos host" where
  "chaos_pause cl c = do {
     env \<leftarrow> (if paused c then k_unpause cl (run_env (crun c)) else k_pause cl (run_env (crun c)));
     Some (c\<lparr>crun := (crun c)\<lparr>run_env := env\<rparr>, paused := \<not> paused c\<rparr>) }"

definition chaos_register :: "'e ChaosClient \<Rightarrow> 'e Chaos \<Rightarrow> 'e Chaos host" where
  "chaos_register cl c = do {
     (i, w) \<leftarrow> payload_id (crun c);
     (r, env) \<leftarrow> k_register_callback cl (run_env w) None i;
     let c' = c\<lparr>crun := w\<lparr>run_env := env\<rparr>\<rparr>;
     if paused c then do { assert_that (r = Inl ContractPaused); Some c' }
     else do {
       assert_that (case r of Inl _ \<Rightarrow> False | Inr _ \<Rightarrow> True);
       Some (c'\<lparr>txs := txs c @ [(i, Pending)]\<rparr>) } }"

text \<open>The caller an actor stands for; a stale one that does not exist is a stranger.\<close>

definition chaos_caller ::
    "(nat \<Rightarrow> Address) \<Rightarrow> Actor \<Rightarrow> 'e Chaos \<Rightarrow> (Address \<times> 'e Chaos) host" where
  "chaos_caller gen actor c =
     (let stranger = (case fresh_address gen (crun c) of (a, w) \<Rightarrow> Some (a, c\<lparr>crun := w\<rparr>));
          pick = (\<lambda>as. do { (i, r) \<leftarrow> below (rng c) (length as); Some (as ! i, c\<lparr>rng := r\<rparr>) })
      in case actor of
        CurrentRelay \<Rightarrow> Some (w_relay (crun c), c)
      | AdminActor \<Rightarrow> Some (w_admin (crun c), c)
      | StaleRelay \<Rightarrow> if stale_relays (crun c) \<noteq> [] then pick (stale_relays (crun c)) else stranger
      | StaleAdmin \<Rightarrow> if stale_admins c \<noteq> [] then pick (stale_admins c) else stranger
      | Stranger \<Rightarrow> stranger)"

definition chaos_call :: "'e ChaosClient \<Rightarrow> (nat \<Rightarrow> Address) \<Rightarrow> 'e Chaos \<Rightarrow> 'e Chaos host" where
  "chaos_call cl gen c = do {
     (i, r1) \<leftarrow> below (rng c) (length (txs c));
     (o', r2) \<leftarrow> below r1 3;
     let op = [Op_Start, Op_Complete, Op_Fail] ! o';
     (a, r3) \<leftarrow> below r2 5;
     let actor = [CurrentRelay, AdminActor, StaleRelay, StaleAdmin, Stranger] ! a;
     (caller, c1) \<leftarrow> chaos_caller gen actor (c\<lparr>rng := r3\<rparr>);
     let w = crun c1;
     let authorised = (caller = w_relay w \<or> caller = w_admin w);
     let (tx, s) = txs c1 ! i;
     let (expected, s') =
       (if \<not> authorised then (Inl Unauthorised, s)
        else case model_transition s op of
          Some t \<Rightarrow> (Inr (), t)
        | None \<Rightarrow> (Inl InvalidStatusTransition, s));
     w' \<leftarrow> step_expecting cl w op tx caller expected;
     Some (c1\<lparr>crun := w', txs := (txs c1)[i := (tx, s')]\<rparr>) }"

text \<open>The state always matches the model.\<close>

definition check_model :: "'e ChaosClient \<Rightarrow> 'e Chaos \<Rightarrow> 'e Chaos host" where
  "check_model cl c = do {
     fold_host (\<lambda>_ (i, s). do { s' \<leftarrow> run_status cl (crun c) i; assert_that (s' = s) }) () (txs c);
     Some c }"

definition chaos_step :: "'e ChaosClient \<Rightarrow> (nat \<Rightarrow> Address) \<Rightarrow> 'e Chaos \<Rightarrow> 'e Chaos host" where
  "chaos_step cl gen c0 = do {
     (k, r) \<leftarrow> below (rng c0) 10;
     let c = c0\<lparr>rng := r\<rparr>;
     if k = 0 \<or> k = 1 then do { c' \<leftarrow> chaos_rotate cl gen c; check_model cl c' }
     else if k = 2 then do { c' \<leftarrow> chaos_transfer cl gen c; check_model cl c' }
     else if k = 3 then do { c' \<leftarrow> chaos_pause cl c; check_model cl c' }
     else if k = 4 then do { c' \<leftarrow> chaos_register cl c; check_model cl c' }
     else if txs c = [] then Some c
     else do { c' \<leftarrow> chaos_call cl gen c; check_model cl c' } }"

fun chaos_loop :: "'e ChaosClient \<Rightarrow> (nat \<Rightarrow> Address) \<Rightarrow> nat \<Rightarrow> 'e Chaos \<Rightarrow> 'e Chaos host" where
  "chaos_loop cl gen 0 c = Some c"
| "chaos_loop cl gen (Suc n) c = do { c' \<leftarrow> chaos_step cl gen c; chaos_loop cl gen n c' }"

definition run_chaos :: "'e ChaosClient \<Rightarrow> (nat \<Rightarrow> Address) \<Rightarrow> u64 \<Rightarrow> u32 \<Rightarrow> unit host" where
  "run_chaos cl gen seed steps = do {
     w \<leftarrow> new_run cl gen;
     c \<leftarrow> chaos_loop cl gen (unat steps)
       \<lparr>rng = seed, crun = w, stale_admins = [], paused = False, txs = []\<rparr>;
     fold_host (\<lambda>w (i, _). do {
         w' \<leftarrow> stale_signers_cannot cl w Op_Fail i;
         assert_can_finish cl w' i }) (crun c) (txs c);
     Some () }"

subsection \<open>The run keeps its invariant\<close>

definition chaos_ok ::
    "('e \<Rightarrow> bool) \<Rightarrow> ('e \<Rightarrow> ChaosView) \<Rightarrow> (nat \<Rightarrow> Address) \<Rightarrow> nat \<Rightarrow> 'e Chaos \<Rightarrow> bool" where
  "chaos_ok ok view gen n c \<longleftrightarrow> world_ok ok view gen (crun c) \<and>
     paused c = v_paused (view (run_env (crun c))) \<and> distinct (map fst (txs c)) \<and>
     (\<forall>(i, s) \<in> set (txs c). v_status (view (run_env (crun c))) i = Some s) \<and>
     unat (next_tx (crun c)) \<le> n"

lemma chaos_ok_rng [simp]: "chaos_ok ok view gen n (c\<lparr>rng := r\<rparr>) = chaos_ok ok view gen n c"
  by (simp add: chaos_ok_def)

lemma chaos_ok_Suc: "chaos_ok ok view gen n c \<Longrightarrow> chaos_ok ok view gen (Suc n) c"
  by (simp add: chaos_ok_def)

lemma below_Some: "below s n = Some (k, s') \<Longrightarrow> k < n"
  by (auto simp: below_def split: if_splits prod.splits)

context chaos_contract
begin

lemma chaos_rotate_law:
  assumes "chaos_ok ok view gen n c"
  shows "\<exists>c'. chaos_rotate cl gen c = Some c' \<and> chaos_ok ok view gen n c'"
proof -
  from below_law [of 4 "rng c"] obtain i r where i: "below (rng c) 4 = Some (i, r)" by auto
  from assms rotate_law [of gen "crun c" "ROTATION_KINDS ! i"] obtain w where
    "rotate cl gen (crun c) (ROTATION_KINDS ! i) = Some w" "world_ok ok view gen w"
    "next_tx w = next_tx (crun c)"
    "view (run_env w) = (view (run_env (crun c)))\<lparr>v_relay := w_relay w\<rparr>"
    by (auto simp: chaos_ok_def)
  with i assms show ?thesis by (simp add: chaos_rotate_def chaos_ok_def)
qed

lemma transfer_world:
  assumes "inj gen" "world_ok ok view gen w" "ok e"
    and "view e = (view (run_env w))\<lparr>v_admin := gen (generated w), v_pending := None\<rparr>"
  shows "world_ok ok view gen
    (w\<lparr>generated := Suc (generated w), run_env := e, w_admin := gen (generated w)\<rparr>)"
proof -
  have known: "known_addresses w \<subseteq> gen ` {..<generated w}" using assms(2) by (simp add: world_ok_def)
  have new: "gen (generated w) \<notin> gen ` {..<generated w}" using assms(1) by (auto dest: injD)
  then have "gen (generated w) \<notin> set (stale_relays w)" using known by (auto simp: known_addresses_def)
  moreover have "known_addresses (w\<lparr>generated := Suc (generated w), run_env := e, w_admin := gen (generated w)\<rparr>)
    \<subseteq> gen ` {..<Suc (generated w)}"
    using known by (auto simp: known_addresses_def)
  ultimately show ?thesis using assms(2-4) by (simp add: world_ok_def)
qed

lemma chaos_transfer_law:
  assumes "inj gen" "chaos_ok ok view gen n c"
  shows "\<exists>c'. chaos_transfer cl gen c = Some c' \<and> chaos_ok ok view gen n c'"
proof -
  let ?w = "crun c" and ?a = "gen (generated (crun c))"
  from assms(2) have w: "world_ok ok view gen ?w" by (simp add: chaos_ok_def)
  from w propose_admin [of "run_env ?w" ?a] obtain e1 where e1: "k_propose_admin cl (run_env ?w) ?a = Some e1"
    "ok e1" "view e1 = (view (run_env ?w))\<lparr>v_pending := Some ?a\<rparr>" by (auto simp: world_ok_def)
  from accept_admin [OF e1(2), of ?a] e1(3) obtain e2 where e2: "k_accept_admin cl e1 ?a = Some e2" "ok e2"
    "view e2 = (view (run_env ?w))\<lparr>v_admin := ?a, v_pending := None\<rparr>" by auto
  from transfer_world [OF assms(1) w e2(2,3)] e1 e2 assms(2) show ?thesis
    by (simp add: chaos_transfer_def fresh_address_def chaos_ok_def Let_def)
qed

lemma world_ok_env:
  "world_ok ok view gen w \<Longrightarrow> ok e \<Longrightarrow> view e = (view (run_env w))\<lparr>v_paused := b\<rparr> \<Longrightarrow>
     world_ok ok view gen (w\<lparr>run_env := e\<rparr>)"
  by (simp add: world_ok_def)

lemma chaos_pause_law:
  assumes "chaos_ok ok view gen n c"
  shows "\<exists>c'. chaos_pause cl c = Some c' \<and> chaos_ok ok view gen n c'"
proof -
  let ?w = "crun c"
  have "\<exists>e. (if paused c then k_unpause cl (run_env ?w) else k_pause cl (run_env ?w)) = Some e \<and> ok e \<and>
    view e = (view (run_env ?w))\<lparr>v_paused := \<not> paused c\<rparr>"
    using assms pause [of "run_env ?w"] unpause [of "run_env ?w"] by (auto simp: chaos_ok_def world_ok_def)
  then obtain e where e: "(if paused c then k_unpause cl (run_env ?w) else k_pause cl (run_env ?w)) = Some e"
    "ok e" "view e = (view (run_env ?w))\<lparr>v_paused := \<not> paused c\<rparr>" by blast
  with assms world_ok_env [of gen ?w e] show ?thesis by (simp add: chaos_pause_def chaos_ok_def)
qed

lemma chaos_register_law:
  assumes "chaos_ok ok view gen n c" "n < 2 ^ 32 - 1"
  shows "\<exists>c'. chaos_register cl c = Some c' \<and> chaos_ok ok view gen (Suc n) c'"
proof -
  let ?w = "crun c"
  from assms have w: "world_ok ok view gen ?w" "unat (next_tx ?w) < 2 ^ 32 - 1" by (simp_all add: chaos_ok_def)
  from payload_law [OF w] obtain m where m: "payload_id ?w = Some (tx_name (unat m), ?w\<lparr>next_tx := m\<rparr>)"
    "unat m = Suc (unat (next_tx ?w))" "world_ok ok view gen (?w\<lparr>next_tx := m\<rparr>)"
    "v_status (view (run_env ?w)) (tx_name (unat m)) = None" by blast
  show ?thesis
  proof (cases "paused c")
    case True
    then have "k_register_callback cl (run_env ?w) None (tx_name (unat m)) = Some (Inl ContractPaused, run_env ?w)"
      using assms(1) by (intro register_paused) (simp_all add: chaos_ok_def world_ok_def)
    with True m assms(1) show ?thesis by (simp add: chaos_register_def chaos_ok_def)
  next
    case False
    with register_law [OF m(3), of None] m(4) assms(1) obtain e where
      e: "k_register_callback cl (run_env ?w) None (tx_name (unat m)) = Some (Inr (tx_name (unat m)), e)"
      "world_ok ok view gen (?w\<lparr>next_tx := m, run_env := e\<rparr>)"
      "view e = (view (run_env ?w))\<lparr>v_status := (v_status (view (run_env ?w)))(tx_name (unat m) \<mapsto> Pending)\<rparr>"
      by (auto simp: chaos_ok_def)
    have new: "tx_name (unat m) \<notin> fst ` set (txs c)"
      using assms(1) m(4) by (fastforce simp: chaos_ok_def)
    have old: "v_status (view e) i = Some s" if "(i, s) \<in> set (txs c)" for i s
    proof -
      from new that have "i \<noteq> tx_name (unat m)" by force
      with that assms(1) e(3) show ?thesis by (auto simp: chaos_ok_def)
    qed
    have "chaos_ok ok view gen (Suc n)
      (c\<lparr>crun := ?w\<lparr>next_tx := m, run_env := e\<rparr>, txs := txs c @ [(tx_name (unat m), Pending)]\<rparr>)"
      using assms(1) m(2) e(2,3) new old by (auto simp: chaos_ok_def)
    with False m(1) e(1) show ?thesis by (simp add: chaos_register_def)
  qed
qed

lemma chaos_fresh:
  "chaos_ok ok view gen n c \<Longrightarrow>
     chaos_ok ok view gen n (c\<lparr>crun := (crun c)\<lparr>generated := Suc (generated (crun c))\<rparr>\<rparr>)"
  using world_ok_generated by (simp add: chaos_ok_def)

lemma chaos_caller_law:
  assumes "chaos_ok ok view gen n c"
  shows "\<exists>a c'. chaos_caller gen actor c = Some (a, c') \<and> chaos_ok ok view gen n c' \<and> txs c' = txs c"
proof -
  have pick: "\<exists>a c'. (do { (i, r) \<leftarrow> below (rng c) (length as); Some (as ! i, c\<lparr>rng := r\<rparr>) }) = Some (a, c') \<and>
    chaos_ok ok view gen n c' \<and> txs c' = txs c" if "as \<noteq> []" for "as" :: "Address list"
    using below_law [of "length as" "rng c"] that assms by auto
  have stranger: "\<exists>a c'. (case fresh_address gen (crun c) of (a, w) \<Rightarrow> Some (a, c\<lparr>crun := w\<rparr>)) = Some (a, c') \<and>
    chaos_ok ok view gen n c' \<and> txs c' = txs c"
    using chaos_fresh [OF assms] by (simp add: fresh_address_def)
  show ?thesis
  proof (cases actor)
    case StaleRelay
    then show ?thesis using pick [of "stale_relays (crun c)"] stranger by (auto simp: chaos_caller_def)
  next
    case StaleAdmin
    then show ?thesis using pick [of "stale_admins c"] stranger by (auto simp: chaos_caller_def)
  qed (use assms stranger in \<open>simp_all add: chaos_caller_def Let_def\<close>)
qed

lemma chaos_ok_call:
  assumes "chaos_ok ok view gen n c" "i < length (txs c)" "txs c ! i = (tx, s)"
    and "world_ok ok view gen ((crun c)\<lparr>run_env := e\<rparr>)"
    and "view e = (view (run_env (crun c)))\<lparr>v_status := (v_status (view (run_env (crun c))))(tx \<mapsto> t)\<rparr>"
  shows "chaos_ok ok view gen n (c\<lparr>crun := (crun c)\<lparr>run_env := e\<rparr>, txs := (txs c)[i := (tx, t)]\<rparr>)"
proof -
  have d: "distinct (map fst (txs c))" using assms(1) by (simp add: chaos_ok_def)
  have keys: "map fst ((txs c)[i := (tx, t)]) = map fst (txs c)"
    using assms(2,3) by (metis fst_conv list_update_id map_update nth_map)
  have "v_status (view e) j = Some u" if j: "(j, u) \<in> set ((txs c)[i := (tx, t)])" for j u
  proof -
    from j obtain k where k: "k < length (txs c)" "(txs c)[i := (tx, t)] ! k = (j, u)"
      by (auto simp: in_set_conv_nth)
    show ?thesis
    proof (cases "k = i")
      case True
      with k assms(5) show ?thesis by simp
    next
      case False
      with k have jk: "txs c ! k = (j, u)" by simp
      have "map fst (txs c) ! k \<noteq> map fst (txs c) ! i"
        using d False k(1) assms(2) by (simp add: nth_eq_iff_index_eq del: nth_map)
      with jk assms(2,3) k(1) have "j \<noteq> tx" by simp
      moreover from jk k(1) have "(j, u) \<in> set (txs c)" by (metis nth_mem)
      with assms(1) have "v_status (view (run_env (crun c))) j = Some u" by (auto simp: chaos_ok_def)
      ultimately show ?thesis using assms(5) by simp
    qed
  qed
  with assms d keys show ?thesis by (auto simp: chaos_ok_def)
qed

lemma chaos_call_law:
  assumes "chaos_ok ok view gen n c" "txs c \<noteq> []"
  shows "\<exists>c'. chaos_call cl gen c = Some c' \<and> chaos_ok ok view gen n c'"
proof -
  from below_law [of "length (txs c)" "rng c"] assms(2) obtain i r1 where
    i: "below (rng c) (length (txs c)) = Some (i, r1)" "i < length (txs c)" by auto
  from below_law [of 3 r1] obtain o' r2 where o: "below r1 3 = Some (o', r2)" by auto
  from below_law [of 5 r2] obtain a r3 where a: "below r2 5 = Some (a, r3)" by auto
  let ?op = "[Op_Start, Op_Complete, Op_Fail] ! o'"
  from chaos_caller_law [where c = "c\<lparr>rng := r3\<rparr>" and gen = gen and n = n
      and actor = "[CurrentRelay, AdminActor, StaleRelay, StaleAdmin, Stranger] ! a"] assms(1)
  obtain caller c1 where
    c1: "chaos_caller gen ([CurrentRelay, AdminActor, StaleRelay, StaleAdmin, Stranger] ! a) (c\<lparr>rng := r3\<rparr>) =
      Some (caller, c1)" "chaos_ok ok view gen n c1" "txs c1 = txs c" by auto
  have same: "chaos_ok ok view gen n (c1\<lparr>txs := txs c\<rparr>)" using c1(2,3) by (simp add: chaos_ok_def)
  obtain tx s where tx: "txs c ! i = (tx, s)" by (cases "txs c ! i")
  from tx i(2) c1(3) have "(tx, s) \<in> set (txs c1)" by (metis nth_mem)
  with c1(2) have w: "world_ok ok view gen (crun c1)" "v_status (view (run_env (crun c1))) tx = Some s"
    by (auto simp: chaos_ok_def)
  show ?thesis
  proof (cases "caller = w_relay (crun c1) \<or> caller = w_admin (crun c1)")
    case False
    with refused_step [OF w, of caller ?op]
    have "step_expecting cl (crun c1) ?op tx caller (Inl Unauthorised) = Some (crun c1)" by simp
    moreover have "(txs c)[i := (tx, s)] = txs c" using tx by (metis list_update_id)
    ultimately show ?thesis using same i o a c1 tx False by (simp add: chaos_call_def Let_def)
  next
    case True
    show ?thesis
    proof (cases "model_transition s ?op")
      case None
      with untabled_step [OF w True]
      have "step_expecting cl (crun c1) ?op tx caller (Inl InvalidStatusTransition) = Some (crun c1)" by simp
      moreover have "(txs c)[i := (tx, s)] = txs c" using tx by (metis list_update_id)
      ultimately show ?thesis using same i o a c1 tx True None by (auto simp: chaos_call_def Let_def)
    next
      case (Some t)
      from admitted_step [OF w True Some] obtain e where
        e: "step_expecting cl (crun c1) ?op tx caller (Inr ()) = Some ((crun c1)\<lparr>run_env := e\<rparr>)"
        "world_ok ok view gen ((crun c1)\<lparr>run_env := e\<rparr>)"
        "view e = (view (run_env (crun c1)))\<lparr>v_status := (v_status (view (run_env (crun c1))))(tx \<mapsto> t)\<rparr>"
        by blast
      from chaos_ok_call [OF c1(2) _ _ e(2,3)] i(2) tx c1(3)
      have "chaos_ok ok view gen n (c1\<lparr>crun := (crun c1)\<lparr>run_env := e\<rparr>, txs := (txs c)[i := (tx, t)]\<rparr>)"
        by simp
      with i o a c1 tx True Some e(1) show ?thesis by (auto simp: chaos_call_def Let_def)
    qed
  qed
qed

lemma check_model_law:
  assumes "chaos_ok ok view gen n c"
  shows "check_model cl c = Some c"
proof -
  have w: "world_ok ok view gen (crun c)" using assms by (simp add: chaos_ok_def)
  have "\<exists>u. fold_host (\<lambda>_ (i, s). do { s' \<leftarrow> run_status cl (crun c) i; assert_that (s' = s) }) () (txs c) =
      Some u \<and> True"
  proof (rule fold_host_inv [where I = "\<lambda>_. True"])
    fix u :: unit and x
    assume x: "x \<in> set (txs c)"
    obtain i s where [simp]: "x = (i, s)" by (cases x)
    from x assms have "v_status (view (run_env (crun c))) i = Some s" by (auto simp: chaos_ok_def)
    then show "\<exists>u. (case x of (i, s) \<Rightarrow> do { s' \<leftarrow> run_status cl (crun c) i; assert_that (s' = s) }) = Some u \<and> True"
      by (simp add: status_law [OF w])
  qed simp
  then show ?thesis by (auto simp: check_model_def)
qed

lemma checked:
  "\<exists>c'. f = Some c' \<and> chaos_ok ok view gen n c' \<Longrightarrow>
     \<exists>c'. (do { c' \<leftarrow> f; check_model cl c' }) = Some c' \<and> chaos_ok ok view gen n c'"
  using check_model_law by fastforce

lemma chaos_step_law:
  assumes "inj gen" "chaos_ok ok view gen n c" "n < 2 ^ 32 - 1"
  shows "\<exists>c'. chaos_step cl gen c = Some c' \<and> chaos_ok ok view gen (Suc n) c'"
proof -
  from below_law [of 10 "rng c"] obtain k r where k: "below (rng c) 10 = Some (k, r)" by auto
  let ?c = "c\<lparr>rng := r\<rparr>"
  have c: "chaos_ok ok view gen n ?c" using assms(2) by simp
  note keep = chaos_ok_Suc [where n = n]
  consider "k = 0 \<or> k = 1" | "k = 2" | "k = 3" | "k = 4" | "4 < k" by linarith
  then show ?thesis
  proof cases
    case 1
    with checked [OF chaos_rotate_law [OF c]] k show ?thesis by (auto simp: chaos_step_def Let_def intro: keep)
  next
    case 2
    with checked [OF chaos_transfer_law [OF assms(1) c]] k show ?thesis
      by (auto simp: chaos_step_def Let_def intro: keep)
  next
    case 3
    with checked [OF chaos_pause_law [OF c]] k show ?thesis by (auto simp: chaos_step_def Let_def intro: keep)
  next
    case 4
    with checked [OF chaos_register_law [OF c assms(3)]] k show ?thesis
      by (auto simp: chaos_step_def Let_def)
  next
    case 5
    show ?thesis
    proof (cases "txs c = []")
      case True
      with 5 k c show ?thesis by (auto simp: chaos_step_def Let_def intro: chaos_ok_Suc)
    next
      case False
      with 5 checked [OF chaos_call_law [OF c]] k show ?thesis
        by (auto simp: chaos_step_def Let_def intro: keep)
    qed
  qed
qed

lemma chaos_loop_law:
  assumes "inj gen" "chaos_ok ok view gen m c" "m + n \<le> 2 ^ 32 - 1"
  shows "\<exists>c'. chaos_loop cl gen n c = Some c' \<and> chaos_ok ok view gen (m + n) c'"
  using assms(2,3)
proof (induction n arbitrary: m c)
  case (Suc n)
  then obtain c1 where "chaos_step cl gen c = Some c1" "chaos_ok ok view gen (Suc m) c1"
    using chaos_step_law [OF assms(1), of m c] by auto
  with Suc.IH [of "Suc m" c1] Suc.prems show ?case by simp
qed simp

lemma run_chaos_law:
  assumes "inj gen"
  shows "run_chaos cl gen seed steps = Some ()"
proof -
  from new_run_law [OF assms] obtain w where w: "new_run cl gen = Some w" "world_ok ok view gen w"
    "next_tx w = 0" "\<not> v_paused (view (run_env w))" by blast
  let ?c = "\<lparr>rng = seed, crun = w, stale_admins = [], paused = False, txs = []\<rparr>"
  have "chaos_ok ok view gen 0 ?c" using w by (simp add: chaos_ok_def)
  moreover have "unat steps < 2 ^ 32" using unsigned_less [of steps] by simp
  then have "unat steps \<le> 2 ^ 32 - 1" by simp
  ultimately obtain c where c: "chaos_loop cl gen (unat steps) ?c = Some c"
    "chaos_ok ok view gen (0 + unat steps) c"
    using chaos_loop_law [OF assms, of 0 ?c "unat steps"] by auto
  let ?I = "\<lambda>w. world_ok ok view gen w \<and> (\<forall>(i, s) \<in> set (txs c). v_status (view (run_env w)) i \<noteq> None)"
  have "\<exists>w. fold_host (\<lambda>w (i, _). do { w' \<leftarrow> stale_signers_cannot cl w Op_Fail i; assert_can_finish cl w' i })
      (crun c) (txs c) = Some w \<and> ?I w"
  proof (rule fold_host_inv [where I = ?I])
    show "?I (crun c)" using c(2) by (auto simp: chaos_ok_def)
  next
    fix x w
    assume x: "x \<in> set (txs c)" and I: "?I w"
    obtain i u where [simp]: "x = (i, u)" by (cases x)
    from x I obtain s where s: "v_status (view (run_env w)) i = Some s" by fastforce
    from I have w: "world_ok ok view gen w" by blast
    from finish_law [OF w s] obtain e t where e: "assert_can_finish cl w i = Some (w\<lparr>run_env := e\<rparr>)"
      "world_ok ok view gen (w\<lparr>run_env := e\<rparr>)"
      "view e = (view (run_env w))\<lparr>v_status := (v_status (view (run_env w)))(i \<mapsto> t)\<rparr>" by blast
    with I have "?I (w\<lparr>run_env := e\<rparr>)" by auto
    with e(1) stale_signers_refused [OF w s]
    show "\<exists>s'. (case x of (i, _) \<Rightarrow> do { w' \<leftarrow> stale_signers_cannot cl w Op_Fail i; assert_can_finish cl w' i }) =
      Some s' \<and> ?I s'" by simp
  qed
  with w(1) c(1) show ?thesis by (auto simp: run_chaos_def)
qed

end

end
