(* ===== verification/Chaos_Scenarios.thy ===== *)
theory Chaos_Scenarios
  imports Chaos_Run
begin

text \<open>
  The named scenarios of \<open>src/test_rotation_chaos.rs\<close>: a rotation, an admin transfer or a pause
  at one chosen moment of a transaction's life.  Over any contract that keeps the laws of
  \<open>chaos_contract\<close> every assertion of every scenario holds.
\<close>

subsection \<open>The scenarios\<close>

text \<open>\<open>payload\<close> and \<open>client.register_callback\<close>, which panics when it is refused; the same for
  \<open>client.complete_transaction\<close> with the hash of the scenario.\<close>

definition register_now :: "'e ChaosClient \<Rightarrow> 'e Run \<Rightarrow> (string \<times> 'e Run) host" where
  "register_now cl w = do {
     (p, w1) \<leftarrow> payload_id w;
     (r, env) \<leftarrow> k_register_callback cl (run_env w1) None p;
     case r of Inl _ \<Rightarrow> None | Inr i \<Rightarrow> Some (i, w1\<lparr>run_env := env\<rparr>) }"

definition complete_now :: "'e ChaosClient \<Rightarrow> 'e Run \<Rightarrow> string \<Rightarrow> string \<Rightarrow> Address \<Rightarrow> 'e Run host" where
  "complete_now cl w i h c = do {
     (r, env) \<leftarrow> k_complete_transaction cl (run_env w) i h c;
     assert_that (r = Inr ());
     Some (w\<lparr>run_env := env\<rparr>) }"

definition rotation_before_registration_rejects_old_signer_and_accepts_new ::
    "'e ChaosClient \<Rightarrow> (nat \<Rightarrow> Address) \<Rightarrow> unit host" where
  "rotation_before_registration_rejects_old_signer_and_accepts_new cl gen = do {
     w0 \<leftarrow> new_run cl gen;
     let old = w_relay w0;
     w1 \<leftarrow> rotate cl gen w0 Fresh;
     (p, w2) \<leftarrow> payload_id w1;
     let (r1, w3) = register_as cl w2 old p;
     assert_that (\<not> r1);
     assert_that (\<not> k_has_transaction cl (run_env w3) p);
     let (r2, w4) = register_as cl w3 (w_relay w3) p;
     assert_that r2;
     assert_can_finish cl w4 p;
     Some () }"

definition rotation_while_pending_hands_the_transaction_to_the_new_signer ::
    "'e ChaosClient \<Rightarrow> (nat \<Rightarrow> Address) \<Rightarrow> unit host" where
  "rotation_while_pending_hands_the_transaction_to_the_new_signer cl gen = do {
     w0 \<leftarrow> new_run cl gen;
     (i, w1) \<leftarrow> register_now cl w0;
     let old = w_relay w1;
     w2 \<leftarrow> rotate cl gen w1 Fresh;
     w3 \<leftarrow> step_expecting cl w2 Op_Start i old (Inl Unauthorised);
     s \<leftarrow> run_status cl w3 i;
     assert_that (s = Pending);
     assert_can_finish cl w3 i;
     Some () }"

definition rotation_between_processing_and_completion ::
    "'e ChaosClient \<Rightarrow> (nat \<Rightarrow> Address) \<Rightarrow> unit host" where
  "rotation_between_processing_and_completion cl gen = do {
     w0 \<leftarrow> new_run cl gen;
     (i, w1) \<leftarrow> register_now cl w0;
     w2 \<leftarrow> step_expecting cl w1 Op_Start i (w_relay w1) (Inr ());
     let old = w_relay w2;
     w3 \<leftarrow> rotate cl gen w2 Fresh;
     w4 \<leftarrow> step_expecting cl w3 Op_Complete i old (Inl Unauthorised);
     w5 \<leftarrow> step_expecting cl w4 Op_Fail i old (Inl Unauthorised);
     s \<leftarrow> run_status cl w5 i;
     assert_that (s = Processing);
     step_expecting cl w5 Op_Complete i (w_relay w5) (Inr ());
     Some () }"

definition auth_stage :: "'e ChaosClient \<Rightarrow> (nat \<Rightarrow> Address) \<Rightarrow> 'e Run \<Rightarrow> RotationKind \<Rightarrow> 'e Run host" where
  "auth_stage cl gen w kind = do {
     w1 \<leftarrow> rotate cl gen w kind;
     (_, w2) \<leftarrow> register_now cl w1;
     let auths = k_auths cl (run_env w2);
     assert_that (length auths = 1);
     assert_that (auths ! 0 = w_relay w2);
     Some w2 }"

definition registration_auth_always_names_the_current_signer ::
    "'e ChaosClient \<Rightarrow> (nat \<Rightarrow> Address) \<Rightarrow> unit host" where
  "registration_auth_always_names_the_current_signer cl gen = do {
     w0 \<leftarrow> new_run cl gen;
     fold_host (auth_stage cl gen) w0 ROTATION_KINDS;
     Some () }"

definition flight_stage :: "'e ChaosClient \<Rightarrow> (nat \<Rightarrow> Address) \<Rightarrow> string list \<times> 'e Run \<Rightarrow> nat \<Rightarrow>
    (string list \<times> 'e Run) host" where
  "flight_stage cl gen = (\<lambda>(ids, w) stage. do {
     (i, w1) \<leftarrow> register_now cl w;
     w2 \<leftarrow> (if stage mod 3 = 0 then Some w1
       else if stage mod 3 = 1 then step_expecting cl w1 Op_Start i (w_relay w1) (Inr ())
       else do {
         w' \<leftarrow> step_expecting cl w1 Op_Start i (w_relay w1) (Inr ());
         complete_now cl w' i ''h'' (w_relay w') });
     w3 \<leftarrow> rotate cl gen w2 (ROTATION_KINDS ! (stage mod 4));
     Some (ids @ [i], w3) })"

definition many_transactions_in_flight_across_repeated_rotations ::
    "'e ChaosClient \<Rightarrow> (nat \<Rightarrow> Address) \<Rightarrow> unit host" where
  "many_transactions_in_flight_across_repeated_rotations cl gen = do {
     w0 \<leftarrow> new_run cl gen;
     (ids, w) \<leftarrow> fold_host (flight_stage cl gen) ([], w0) [0..<9];
     fold_host (\<lambda>w i. do {
         w' \<leftarrow> stale_signers_cannot cl w Op_Fail i;
         assert_can_finish cl w' i }) w ids;
     Some () }"

definition admin_transfer_interleaved_with_rotation ::
    "'e ChaosClient \<Rightarrow> (nat \<Rightarrow> Address) \<Rightarrow> unit host" where
  "admin_transfer_interleaved_with_rotation cl gen = do {
     w0 \<leftarrow> new_run cl gen;
     (i, w1) \<leftarrow> register_now cl w0;
     w2 \<leftarrow> rotate cl gen w1 Fresh;
     let old_admin = w_admin w2;
     let (new_admin, w3) = fresh_address gen w2;
     e1 \<leftarrow> k_propose_admin cl (run_env w3) new_admin;
     w4 \<leftarrow> step_expecting cl (w3\<lparr>run_env := e1\<rparr>) Op_Start i old_admin (Inr ());
     e2 \<leftarrow> k_accept_admin cl (run_env w4) new_admin;
     let w5 = w4\<lparr>run_env := e2, w_admin := new_admin\<rparr>;
     w6 \<leftarrow> step_expecting cl w5 Op_Complete i old_admin (Inl Unauthorised);
     w7 \<leftarrow> rotate cl gen w6 Fresh;
     step_expecting cl w7 Op_Complete i new_admin (Inr ());
     Some () }"

definition rotation_during_pause_still_drains ::
    "'e ChaosClient \<Rightarrow> (nat \<Rightarrow> Address) \<Rightarrow> unit host" where
  "rotation_during_pause_still_drains cl gen = do {
     w0 \<leftarrow> new_run cl gen;
     (i, w1) \<leftarrow> register_now cl w0;
     e1 \<leftarrow> k_pause cl (run_env w1);
     w2 \<leftarrow> rotate cl gen (w1\<lparr>run_env := e1\<rparr>) Fresh;
     (p, w3) \<leftarrow> payload_id w2;
     (r, e2) \<leftarrow> k_register_callback cl (run_env w3) None p;
     assert_that (r = Inl ContractPaused);
     assert_can_finish cl (w3\<lparr>run_env := e2\<rparr>) i;
     Some () }"

definition named_scenarios :: "'e ChaosClient \<Rightarrow> (nat \<Rightarrow> Address) \<Rightarrow> unit host list" where
  "named_scenarios cl gen =
     [rotation_before_registration_rejects_old_signer_and_accepts_new cl gen,
      rotation_while_pending_hands_the_transaction_to_the_new_signer cl gen,
      rotation_between_processing_and_completion cl gen,
      registration_auth_always_names_the_current_signer cl gen,
      many_transactions_in_flight_across_repeated_rotations cl gen,
      admin_transfer_interleaved_with_rotation cl gen,
      rotation_during_pause_still_drains cl gen]"

text \<open>The seeded test: the number of seeds and of steps come from two environment variables,
  with a default for one that is missing or does not parse; \<open>as u32\<close> keeps the low half.\<close>

definition knob :: "ustr option \<Rightarrow> u64 \<Rightarrow> u64" where
  "knob var default' = unwrap_or (Option.bind var parse_u64) default'"

definition seeded_chaos_against_model ::
    "'e ChaosClient \<Rightarrow> (nat \<Rightarrow> Address) \<Rightarrow> ustr option \<Rightarrow> ustr option \<Rightarrow> unit host" where
  "seeded_chaos_against_model cl gen seeds_var steps_var =
     (let seeds = knob seeds_var 4; steps = ucast (knob steps_var 150) in
      fold_host (\<lambda>_ seed. run_chaos cl gen (word_of_nat seed) steps) () [1..<Suc (unat seeds)])"

subsection \<open>Their steps\<close>

context chaos_contract
begin

lemma rotate_fresh_law:
  assumes "inj gen" "world_ok ok view gen w"
  shows "\<exists>w'. rotate cl gen w Fresh = Some w' \<and> world_ok ok view gen w' \<and> w_admin w' = w_admin w \<and>
    next_tx w' = next_tx w \<and> w_relay w' \<notin> known_addresses w \<and> generated w' = Suc (generated w) \<and>
    view (run_env w') = (view (run_env w))\<lparr>v_relay := w_relay w'\<rparr>"
proof -
  have "known_addresses w \<subseteq> gen ` {..<generated w}" using assms(2) by (simp add: world_ok_def)
  then have new: "gen (generated w) \<notin> known_addresses w" using assms(1) by (auto dest: injD)
  from rotate_run_law [OF world_ok_generated [OF assms(2)], of "gen (generated w)"]
  obtain w' where w': "rotate_run cl (w\<lparr>generated := Suc (generated w)\<rparr>) (gen (generated w)) = Some w'"
    "world_ok ok view gen w'" "w_admin w' = w_admin w" "next_tx w' = next_tx w"
    "generated w' = Suc (generated w)" "w_relay w' = gen (generated w)"
    "view (run_env w') = (view (run_env w))\<lparr>v_relay := gen (generated w)\<rparr>"
    by auto
  then have "rotate cl gen w Fresh = Some w'" by (simp add: rotate_def fresh_address_def)
  with w' new show ?thesis by simp
qed

lemma register_now_law:
  assumes "world_ok ok view gen w" "\<not> v_paused (view (run_env w))" "unat (next_tx w) < 2 ^ 32 - 1"
  shows "\<exists>i n e. register_now cl w = Some (i, w\<lparr>next_tx := n, run_env := e\<rparr>) \<and>
    unat n = Suc (unat (next_tx w)) \<and> world_ok ok view gen (w\<lparr>next_tx := n, run_env := e\<rparr>) \<and>
    view e = (view (run_env w))\<lparr>v_status := (v_status (view (run_env w)))(i \<mapsto> Pending)\<rparr> \<and>
    k_auths cl e = [w_relay w]"
proof -
  from payload_law [OF assms(1,3)] obtain n where
    n: "payload_id w = Some (tx_name (unat n), w\<lparr>next_tx := n\<rparr>)" "unat n = Suc (unat (next_tx w))"
    "world_ok ok view gen (w\<lparr>next_tx := n\<rparr>)" "v_status (view (run_env w)) (tx_name (unat n)) = None" by blast
  from register_law [OF n(3), of None] assms(2) n(4) obtain e where
    "k_register_callback cl (run_env w) None (tx_name (unat n)) = Some (Inr (tx_name (unat n)), e)"
    "world_ok ok view gen (w\<lparr>next_tx := n, run_env := e\<rparr>)"
    "view e = (view (run_env w))\<lparr>v_status := (v_status (view (run_env w)))(tx_name (unat n) \<mapsto> Pending)\<rparr>"
    "k_auths cl e = [w_relay w]" by auto
  with n show ?thesis by (auto simp: register_now_def)
qed

lemma complete_now_law:
  assumes "world_ok ok view gen w" "v_status (view (run_env w)) i = Some Processing"
    and "c = w_relay w \<or> c = w_admin w"
  shows "\<exists>e. complete_now cl w i h c = Some (w\<lparr>run_env := e\<rparr>) \<and> world_ok ok view gen (w\<lparr>run_env := e\<rparr>) \<and>
    view e = (view (run_env w))\<lparr>v_status := (v_status (view (run_env w)))(i \<mapsto> Completed)\<rparr>"
proof -
  have t: "role_then_table view (run_env w) c Processing Op_Complete = Inr Completed"
    using assms(1,3) by (auto simp: world_ok_def role_then_table_def model_transition_def)
  with complete [where e = "run_env w" and i = i and s = Processing and c = c and h = h] assms(1,2) obtain e where
    e: "k_complete_transaction cl (run_env w) i h c = Some (Inr (), e)" "ok e"
    "view e = (view (run_env w))\<lparr>v_status := (v_status (view (run_env w)))(i \<mapsto> Completed)\<rparr>"
    by (auto simp: world_ok_def)
  with assms(1,2) have "world_ok ok view gen (w\<lparr>run_env := e\<rparr>)"
    by (auto simp: world_ok_def table_status_def)
  with e show ?thesis by (auto simp: complete_now_def)
qed

text \<open>The start of most scenarios: one transaction, pending, in a world whose relay and admin
  are different.\<close>

lemma registered_law:
  assumes "inj gen"
  shows "\<exists>w0 i w. new_run cl gen = Some w0 \<and> register_now cl w0 = Some (i, w) \<and> world_ok ok view gen w \<and>
    w_relay w \<noteq> w_admin w \<and> \<not> v_paused (view (run_env w)) \<and> unat (next_tx w) = 1 \<and>
    v_status (view (run_env w)) i = Some Pending"
proof -
  from new_run_law [OF assms] obtain w0 where w0: "new_run cl gen = Some w0" "world_ok ok view gen w0"
    "next_tx w0 = 0" "\<not> v_paused (view (run_env w0))" by blast
  from w0(1) have "w_relay w0 = gen 1" "w_admin w0 = gen 0"
    by (auto simp: new_run_def Let_def bind_eq_Some_conv)
  with assms have "w_relay w0 \<noteq> w_admin w0" by (auto dest: injD)
  moreover from register_now_law [OF w0(2,4)] w0(3) obtain i n e where
    "register_now cl w0 = Some (i, w0\<lparr>next_tx := n, run_env := e\<rparr>)" "unat n = Suc 0"
    "world_ok ok view gen (w0\<lparr>next_tx := n, run_env := e\<rparr>)"
    "view e = (view (run_env w0))\<lparr>v_status := (v_status (view (run_env w0)))(i \<mapsto> Pending)\<rparr>" by auto
  ultimately show ?thesis using w0 by auto
qed

lemma finish_now:
  assumes "world_ok ok view gen w" "v_status (view (run_env w)) i = Some s"
  obtains w' where "assert_can_finish cl w i = Some w'"
  using finish_law [OF assms] by blast

lemma table_entries:
  "model_transition Pending Op_Start = Some Processing"
  "model_transition Processing Op_Complete = Some Completed"
  by (simp_all add: model_transition_def)

subsection \<open>The scenarios pass\<close>

lemma before_registration_passes:
  assumes "inj gen"
  shows "rotation_before_registration_rejects_old_signer_and_accepts_new cl gen = Some ()"
proof -
  from new_run_law [OF assms] obtain w0 where w0: "new_run cl gen = Some w0" "world_ok ok view gen w0"
    "next_tx w0 = 0" "\<not> v_paused (view (run_env w0))" by blast
  from rotate_fresh_law [OF assms w0(2)] w0 obtain w1 where w1: "rotate cl gen w0 Fresh = Some w1"
    "world_ok ok view gen w1" "w_relay w1 \<noteq> w_relay w0" "next_tx w1 = 0"
    "\<not> v_paused (view (run_env w1))" by (auto simp: known_addresses_def)
  from payload_law [OF w1(2)] w1(4) obtain n where n: "payload_id w1 = Some (tx_name (unat n), w1\<lparr>next_tx := n\<rparr>)"
    "world_ok ok view gen (w1\<lparr>next_tx := n\<rparr>)" "v_status (view (run_env w1)) (tx_name (unat n)) = None" by auto
  have ok1: "ok (run_env w1)" "v_relay (view (run_env w1)) = w_relay w1" using w1(2) by (simp_all add: world_ok_def)
  with register_stale [OF ok1(1) w1(5)] w1(3)
  have r1: "register_as cl (w1\<lparr>next_tx := n\<rparr>) (w_relay w0) (tx_name (unat n)) = (False, w1\<lparr>next_tx := n\<rparr>)"
    by (simp add: register_as_def)
  have absent: "\<not> k_has_transaction cl (run_env w1) (tx_name (unat n))"
    using has_transaction [OF ok1(1)] n(3) by simp
  from register_law [OF n(2), of "Some (w_relay w1)"] w1(5) n(3) obtain e where
    e: "k_register_callback cl (run_env w1) (Some (w_relay w1)) (tx_name (unat n)) = Some (Inr (tx_name (unat n)), e)"
    "world_ok ok view gen (w1\<lparr>next_tx := n, run_env := e\<rparr>)" "v_status (view e) (tx_name (unat n)) = Some Pending"
    by auto
  from finish_now [OF e(2), of "tx_name (unat n)" Pending] e(3) obtain w' where
    "assert_can_finish cl (w1\<lparr>next_tx := n, run_env := e\<rparr>) (tx_name (unat n)) = Some w'" by auto
  with w0(1) w1(1) n(1) r1 absent e(1) show ?thesis
    by (simp add: rotation_before_registration_rejects_old_signer_and_accepts_new_def register_as_def Let_def)
qed

lemma while_pending_passes:
  assumes "inj gen"
  shows "rotation_while_pending_hands_the_transaction_to_the_new_signer cl gen = Some ()"
proof -
  from registered_law [OF assms] obtain w0 i w1 where w: "new_run cl gen = Some w0"
    "register_now cl w0 = Some (i, w1)" "world_ok ok view gen w1" "w_relay w1 \<noteq> w_admin w1"
    "v_status (view (run_env w1)) i = Some Pending" by blast
  from rotate_fresh_law [OF assms w(3)] w(4,5) obtain w2 where w2: "rotate cl gen w1 Fresh = Some w2"
    "world_ok ok view gen w2" "w_relay w1 \<noteq> w_relay w2" "w_relay w1 \<noteq> w_admin w2"
    "v_status (view (run_env w2)) i = Some Pending" by (auto simp: known_addresses_def)
  from finish_now [OF w2(2,5)] obtain w' where "assert_can_finish cl w2 i = Some w'" .
  with w w2 refused_step [OF w2(2,5,3,4)] status_law [OF w2(2)] show ?thesis
    by (simp add: rotation_while_pending_hands_the_transaction_to_the_new_signer_def)
qed

lemma between_passes:
  assumes "inj gen"
  shows "rotation_between_processing_and_completion cl gen = Some ()"
proof -
  from registered_law [OF assms] obtain w0 i w1 where w: "new_run cl gen = Some w0"
    "register_now cl w0 = Some (i, w1)" "world_ok ok view gen w1" "w_relay w1 \<noteq> w_admin w1"
    "v_status (view (run_env w1)) i = Some Pending" by blast
  from admitted_step [OF w(3,5) _ table_entries(1), of "w_relay w1"] obtain e where
    e: "step_expecting cl w1 Op_Start i (w_relay w1) (Inr ()) = Some (w1\<lparr>run_env := e\<rparr>)"
    "world_ok ok view gen (w1\<lparr>run_env := e\<rparr>)" "v_status (view e) i = Some Processing"
    by auto
  from rotate_fresh_law [OF assms e(2)] w(4) e(3) obtain w2 where
    w2: "rotate cl gen (w1\<lparr>run_env := e\<rparr>) Fresh = Some w2"
    "world_ok ok view gen w2" "w_relay w1 \<noteq> w_relay w2" "w_relay w1 \<noteq> w_admin w2"
    "v_status (view (run_env w2)) i = Some Processing" by (auto simp: known_addresses_def)
  from admitted_step [OF w2(2,5) _ table_entries(2), of "w_relay w2"] obtain e2 where
    "step_expecting cl w2 Op_Complete i (w_relay w2) (Inr ()) = Some (w2\<lparr>run_env := e2\<rparr>)"
    by auto
  with w(1,2) e(1) w2(1,5) refused_step [OF w2(2,5,3,4)] status_law [OF w2(2)] show ?thesis
    by (simp add: rotation_between_processing_and_completion_def)
qed

lemma pause_passes:
  assumes "inj gen"
  shows "rotation_during_pause_still_drains cl gen = Some ()"
proof -
  from registered_law [OF assms] obtain w0 i w1 where w: "new_run cl gen = Some w0"
    "register_now cl w0 = Some (i, w1)" "world_ok ok view gen w1" "\<not> v_paused (view (run_env w1))"
    "unat (next_tx w1) = 1" "v_status (view (run_env w1)) i = Some Pending" by blast
  from pause [OF _ w(4)] w(3) obtain e where e: "k_pause cl (run_env w1) = Some e" "ok e"
    "view e = (view (run_env w1))\<lparr>v_paused := True\<rparr>" by (auto simp: world_ok_def)
  from world_ok_env [OF w(3) e(2,3)] have we: "world_ok ok view gen (w1\<lparr>run_env := e\<rparr>)" .
  from rotate_fresh_law [OF assms we] w(5,6) e(3) obtain w2 where
    w2: "rotate cl gen (w1\<lparr>run_env := e\<rparr>) Fresh = Some w2" "world_ok ok view gen w2" "unat (next_tx w2) = 1"
    "v_paused (view (run_env w2))" "v_status (view (run_env w2)) i = Some Pending" by auto
  from payload_law [OF w2(2)] w2(3) obtain n where n: "payload_id w2 = Some (tx_name (unat n), w2\<lparr>next_tx := n\<rparr>)"
    "world_ok ok view gen (w2\<lparr>next_tx := n\<rparr>)" by auto
  have "k_register_callback cl (run_env w2) None (tx_name (unat n)) = Some (Inl ContractPaused, run_env w2)"
    using w2(2,4) by (intro register_paused) (simp_all add: world_ok_def)
  moreover from finish_now [OF n(2), of i Pending] w2(5) obtain w' where
    "assert_can_finish cl (w2\<lparr>next_tx := n\<rparr>) i = Some w'" by auto
  ultimately show ?thesis using w(1,2) e(1) w2(1) n(1)
    by (simp add: rotation_during_pause_still_drains_def)
qed

lemma rotation_keeps:
  assumes "world_ok ok view gen w" "\<not> v_paused (view (run_env w))"
  obtains w' where "rotate cl gen w kind = Some w'" "world_ok ok view gen w'" "next_tx w' = next_tx w"
    "\<not> v_paused (view (run_env w'))" "v_status (view (run_env w')) = v_status (view (run_env w))"
  using rotate_law [OF assms(1), of kind] assms(2) by auto

lemma auth_rotations:
  assumes "world_ok ok view gen w" "\<not> v_paused (view (run_env w))" "unat (next_tx w) + length kinds < 2 ^ 32"
  shows "\<exists>w'. fold_host (auth_stage cl gen) w kinds = Some w'"
  using assms
proof (induction kinds arbitrary: w)
  case (Cons kind kinds)
  from rotation_keeps [OF Cons.prems(1,2)] obtain w1 where w1: "rotate cl gen w kind = Some w1"
    "world_ok ok view gen w1" "next_tx w1 = next_tx w" "\<not> v_paused (view (run_env w1))" by metis
  have "unat (next_tx w1) < 2 ^ 32 - 1" using w1(3) Cons.prems(3) by simp
  from register_now_law [OF w1(2,4) this] obtain i n e where
    e: "register_now cl w1 = Some (i, w1\<lparr>next_tx := n, run_env := e\<rparr>)" "unat n = Suc (unat (next_tx w1))"
    "world_ok ok view gen (w1\<lparr>next_tx := n, run_env := e\<rparr>)" "\<not> v_paused (view e)"
    "k_auths cl e = [w_relay w1]" using w1(4) by auto
  from Cons.IH [OF e(3)] e(2,4) w1(3) Cons.prems(3) obtain w' where
    "fold_host (auth_stage cl gen) (w1\<lparr>next_tx := n, run_env := e\<rparr>) kinds = Some w'" by auto
  with w1(1) e(1,5) show ?case by (simp add: auth_stage_def [of cl gen w])
qed simp

lemma auth_passes:
  assumes "inj gen"
  shows "registration_auth_always_names_the_current_signer cl gen = Some ()"
proof -
  from new_run_law [OF assms] obtain w0 where w0: "new_run cl gen = Some w0" "world_ok ok view gen w0"
    "next_tx w0 = 0" "\<not> v_paused (view (run_env w0))" by blast
  then have "unat (next_tx w0) + length ROTATION_KINDS < 2 ^ 32" by (simp add: ROTATION_KINDS_def)
  with auth_rotations [OF w0(2,4)] w0(1) show ?thesis
    by (fastforce simp: registration_auth_always_names_the_current_signer_def)
qed

text \<open>One stage of the flight registers a transaction and leaves every earlier one readable.\<close>

definition flying :: "(nat \<Rightarrow> Address) \<Rightarrow> string list \<Rightarrow> 'e Run \<Rightarrow> bool" where
  "flying gen ids w \<longleftrightarrow> world_ok ok view gen w \<and> \<not> v_paused (view (run_env w)) \<and>
     (\<forall>i \<in> set ids. v_status (view (run_env w)) i \<noteq> None)"

lemma flying_moved:
  assumes "flying gen ids w" "world_ok ok view gen (w\<lparr>run_env := e\<rparr>)"
    and "view e = (view (run_env w))\<lparr>v_status := (v_status (view (run_env w)))(i \<mapsto> t)\<rparr>"
  shows "flying gen ids (w\<lparr>run_env := e\<rparr>)"
  using assms by (auto simp: flying_def)

lemma stage_moves:
  assumes "flying gen ids w" "v_status (view (run_env w)) i = Some Pending"
  shows "\<exists>e. (if stage mod 3 = 0 then Some w
       else if stage mod 3 = 1 then step_expecting cl w Op_Start i (w_relay w) (Inr ())
       else do {
         w' \<leftarrow> step_expecting cl w Op_Start i (w_relay w) (Inr ());
         complete_now cl w' i ''h'' (w_relay w') }) = Some (w\<lparr>run_env := e\<rparr>) \<and> flying gen ids (w\<lparr>run_env := e\<rparr>)"
proof -
  from assms(1) have w: "world_ok ok view gen w" by (simp add: flying_def)
  from admitted_step [OF w assms(2) _ table_entries(1), of "w_relay w"] obtain e1 where
    e1: "step_expecting cl w Op_Start i (w_relay w) (Inr ()) = Some (w\<lparr>run_env := e1\<rparr>)"
    "world_ok ok view gen (w\<lparr>run_env := e1\<rparr>)"
    "view e1 = (view (run_env w))\<lparr>v_status := (v_status (view (run_env w)))(i \<mapsto> Processing)\<rparr>" by auto
  note f1 = flying_moved [OF assms(1) e1(2,3)]
  from complete_now_law [OF e1(2), of i "w_relay w" "''h''"] e1(3) obtain e2 where
    e2: "complete_now cl (w\<lparr>run_env := e1\<rparr>) i ''h'' (w_relay w) = Some (w\<lparr>run_env := e2\<rparr>)"
    "world_ok ok view gen (w\<lparr>run_env := e2\<rparr>)"
    "view e2 = (view e1)\<lparr>v_status := (v_status (view e1))(i \<mapsto> Completed)\<rparr>" by auto
  from flying_moved [OF f1, of e2] e2(2,3) have "flying gen ids (w\<lparr>run_env := e2\<rparr>)" by simp
  moreover have "w\<lparr>run_env := run_env w\<rparr> = w" by simp
  ultimately show ?thesis using assms(1) e1(1) e2(1) f1
    by (cases "stage mod 3 = 0"; cases "stage mod 3 = 1") (auto intro: exI [of _ "run_env w"])
qed

lemma flight_stage_law:
  assumes "flying gen ids w" "unat (next_tx w) < 2 ^ 32 - 1"
  shows "\<exists>ids' w'. flight_stage cl gen (ids, w) stage = Some (ids', w') \<and> flying gen ids' w' \<and>
    unat (next_tx w') = Suc (unat (next_tx w))"
proof -
  from assms(1) have w: "world_ok ok view gen w" "\<not> v_paused (view (run_env w))" by (simp_all add: flying_def)
  from register_now_law [OF w assms(2)] obtain i n e where
    e: "register_now cl w = Some (i, w\<lparr>next_tx := n, run_env := e\<rparr>)" "unat n = Suc (unat (next_tx w))"
    "world_ok ok view gen (w\<lparr>next_tx := n, run_env := e\<rparr>)"
    "view e = (view (run_env w))\<lparr>v_status := (v_status (view (run_env w)))(i \<mapsto> Pending)\<rparr>" by blast
  let ?w1 = "w\<lparr>next_tx := n, run_env := e\<rparr>"
  have "flying gen (ids @ [i]) ?w1" using assms(1) e(3,4) by (auto simp: flying_def)
  from stage_moves [OF this, of i stage] e(4) obtain e2 where
    e2: "(if stage mod 3 = 0 then Some ?w1
       else if stage mod 3 = 1 then step_expecting cl ?w1 Op_Start i (w_relay ?w1) (Inr ())
       else do {
         w' \<leftarrow> step_expecting cl ?w1 Op_Start i (w_relay ?w1) (Inr ());
         complete_now cl w' i ''h'' (w_relay w') }) = Some (?w1\<lparr>run_env := e2\<rparr>)"
    "flying gen (ids @ [i]) (?w1\<lparr>run_env := e2\<rparr>)" by auto
  from e2(2) have w2: "world_ok ok view gen (?w1\<lparr>run_env := e2\<rparr>)" "\<not> v_paused (view e2)"
    by (simp_all add: flying_def)
  from rotation_keeps [OF w2(1), of "ROTATION_KINDS ! (stage mod 4)"] w2(2) obtain w3 where
    w3: "rotate cl gen (?w1\<lparr>run_env := e2\<rparr>) (ROTATION_KINDS ! (stage mod 4)) = Some w3"
    "world_ok ok view gen w3" "next_tx w3 = n" "\<not> v_paused (view (run_env w3))"
    "v_status (view (run_env w3)) = v_status (view e2)" by auto
  with e2(2) have "flying gen (ids @ [i]) w3" by (simp add: flying_def)
  with e(1,2) e2(1) w3(1,3) show ?thesis by (simp add: flight_stage_def)
qed

lemma flight_law:
  assumes "flying gen ids w" "unat (next_tx w) + length stages < 2 ^ 32"
  shows "\<exists>ids' w'. fold_host (flight_stage cl gen) (ids, w) stages = Some (ids', w') \<and> flying gen ids' w'"
  using assms
proof (induction stages arbitrary: ids w)
  case (Cons stage stages)
  then have "unat (next_tx w) < 2 ^ 32 - 1" by simp
  from flight_stage_law [OF Cons.prems(1) this, of stage] obtain ids1 w1 where
    w1: "flight_stage cl gen (ids, w) stage = Some (ids1, w1)" "flying gen ids1 w1"
    "unat (next_tx w1) = Suc (unat (next_tx w))" by blast
  from Cons.IH [OF w1(2)] w1(1,3) Cons.prems(2) show ?case by simp
qed simp

lemma flight_passes:
  assumes "inj gen"
  shows "many_transactions_in_flight_across_repeated_rotations cl gen = Some ()"
proof -
  from new_run_law [OF assms] obtain w0 where w0: "new_run cl gen = Some w0" "world_ok ok view gen w0"
    "next_tx w0 = 0" "\<not> v_paused (view (run_env w0))" by blast
  then have "flying gen [] w0" by (simp add: flying_def)
  from flight_law [OF this, of "[0..<9]"] w0(3) obtain ids w where
    f: "fold_host (flight_stage cl gen) ([], w0) [0..<9] = Some (ids, w)" "flying gen ids w"
    by (auto simp del: upt_rec_numeral)
  have "\<exists>w'. fold_host (\<lambda>w i. do { w' \<leftarrow> stale_signers_cannot cl w Op_Fail i; assert_can_finish cl w' i }) w ids =
      Some w' \<and> flying gen ids w'"
  proof (rule fold_host_inv [where I = "flying gen ids"])
    fix u i
    assume i: "i \<in> set ids" and u: "flying gen ids u"
    then have wu: "world_ok ok view gen u" by (simp add: flying_def)
    from i u obtain s where s: "v_status (view (run_env u)) i = Some s" by (auto simp: flying_def)
    from finish_law [OF wu s] obtain e t where e: "assert_can_finish cl u i = Some (u\<lparr>run_env := e\<rparr>)"
      "world_ok ok view gen (u\<lparr>run_env := e\<rparr>)"
      "view e = (view (run_env u))\<lparr>v_status := (v_status (view (run_env u)))(i \<mapsto> t)\<rparr>" by blast
    with flying_moved [OF u e(2,3)] stale_signers_refused [OF wu s]
    show "\<exists>u'. do { w' \<leftarrow> stale_signers_cannot cl u Op_Fail i; assert_can_finish cl w' i } = Some u' \<and>
      flying gen ids u'" by simp
  qed (rule f(2))
  with w0(1) f(1) show ?thesis
    by (auto simp: many_transactions_in_flight_across_repeated_rotations_def simp del: upt_rec_numeral)
qed

lemma transfer_passes:
  assumes "inj gen"
  shows "admin_transfer_interleaved_with_rotation cl gen = Some ()"
proof -
  from registered_law [OF assms] obtain w0 i w1 where w: "new_run cl gen = Some w0"
    "register_now cl w0 = Some (i, w1)" "world_ok ok view gen w1" "w_relay w1 \<noteq> w_admin w1"
    "v_status (view (run_env w1)) i = Some Pending" by blast
  from rotate_fresh_law [OF assms w(3)] w(5) obtain w2 where w2: "rotate cl gen w1 Fresh = Some w2"
    "world_ok ok view gen w2" "w_relay w2 \<noteq> w_admin w2" "v_status (view (run_env w2)) i = Some Pending"
    by (auto simp: known_addresses_def)
  let ?new = "gen (generated w2)" and ?w3 = "w2\<lparr>generated := Suc (generated w2)\<rparr>"
  have known: "known_addresses w2 \<subseteq> gen ` {..<generated w2}" using w2(2) by (simp add: world_ok_def)
  then have new: "?new \<notin> known_addresses w2" using assms by (auto dest: injD)
  from propose_admin [of "run_env w2" ?new] w2(2) obtain e1 where
    e1: "k_propose_admin cl (run_env w2) ?new = Some e1" "ok e1"
    "view e1 = (view (run_env w2))\<lparr>v_pending := Some ?new\<rparr>" by (auto simp: world_ok_def)
  with world_ok_generated [OF w2(2)] have w3: "world_ok ok view gen (?w3\<lparr>run_env := e1\<rparr>)"
    by (simp add: world_ok_def)
  from admitted_step [OF w3 _ _ table_entries(1), of i "w_admin w2"] e1(3) w2(4) obtain e2 where
    e2: "step_expecting cl (?w3\<lparr>run_env := e1\<rparr>) Op_Start i (w_admin w2) (Inr ()) = Some (?w3\<lparr>run_env := e2\<rparr>)"
    "world_ok ok view gen (?w3\<lparr>run_env := e2\<rparr>)"
    "view e2 = (view (run_env w2))\<lparr>v_pending := Some ?new,
       v_status := (v_status (view (run_env w2)))(i \<mapsto> Processing)\<rparr>" by auto
  from accept_admin [of e2 ?new] e2(2,3) obtain e3 where e3: "k_accept_admin cl e2 ?new = Some e3" "ok e3"
    "view e3 = (view e2)\<lparr>v_admin := ?new, v_pending := None\<rparr>" by (auto simp: world_ok_def)
  let ?w5 = "?w3\<lparr>run_env := e3, w_admin := ?new\<rparr>"
  have "known_addresses ?w5 \<subseteq> gen ` {..<Suc (generated w2)}"
    using known by (auto simp: known_addresses_def)
  moreover have "?new \<notin> set (stale_relays w2)" using new by (simp add: known_addresses_def)
  ultimately have w5: "world_ok ok view gen ?w5" using e2(2,3) e3(2,3) by (simp add: world_ok_def)
  have st: "v_status (view (run_env ?w5)) i = Some Processing" using e2(3) e3(3) by simp
  have old: "w_admin w2 \<noteq> w_relay ?w5" "w_admin w2 \<noteq> w_admin ?w5"
    using w2(3) new by (auto simp: known_addresses_def)
  from rotate_fresh_law [OF assms w5] st obtain w7 where w7: "rotate cl gen ?w5 Fresh = Some w7"
    "world_ok ok view gen w7" "w_admin w7 = ?new" "v_status (view (run_env w7)) i = Some Processing" by auto
  from admitted_step [OF w7(2,4) _ table_entries(2), of ?new] w7(3) obtain e4 where
    "step_expecting cl w7 Op_Complete i ?new (Inr ()) = Some (w7\<lparr>run_env := e4\<rparr>)" by auto
  with w(1,2) w2(1) e1(1) e2(1) e3(1) refused_step [OF w5 st old] w7(1) show ?thesis
    by (simp add: admin_transfer_interleaved_with_rotation_def fresh_address_def Let_def)
qed

lemma seeded_chaos_law:
  assumes "inj gen"
  shows "seeded_chaos_against_model cl gen seeds_var steps_var = Some ()"
proof -
  have "\<exists>u. fold_host (\<lambda>_ seed. run_chaos cl gen (word_of_nat seed) n) () xs = Some u \<and> True" for n xs
    by (rule fold_host_inv [where I = "\<lambda>_. True"]) (simp_all add: run_chaos_law [OF assms])
  then show ?thesis unfolding seeded_chaos_against_model_def Let_def by (metis old.unit.exhaust)
qed

lemma named_scenarios_law:
  "inj gen \<Longrightarrow> list_all (\<lambda>r. r = Some ()) (named_scenarios cl gen)"
  by (simp add: named_scenarios_def before_registration_passes while_pending_passes between_passes
      auth_passes flight_passes transfer_passes pause_passes)

end

end
