(* ===== verification/Chaos_Instance.thy ===== *)
theory Chaos_Instance
  imports Chaos_Scenarios Accounts
begin

text \<open>
  A contract for the chaos scenarios, put together from the modelled code: the registration
  of \<open>lib.rs\<close>, the role check of \<open>admin.rs\<close> and the lifecycle operations of \<open>storage.rs\<close>.  The
  entry points that would join them are not in the repository; the joints (a lifecycle call
  checks the role and then moves the transaction, the admin, relay and pause settings are
  kept as told) are what their callers expect.  The properties of the scenarios follow.
\<close>

record Chain =
  ch_env :: "(unit, unit) Env"
  ch_admin :: Address
  ch_relay :: Address
  ch_pending :: "Address option"
  ch_paused :: bool
  ch_keys :: "string \<rightharpoonup> string"
  ch_auths :: "Address list"

definition mock_auths :: "Address option \<Rightarrow> Chain \<Rightarrow> Chain" where
  "mock_auths signer e = e\<lparr>ch_env := (ch_env e)\<lparr>authorized :=
     (case signer of None \<Rightarrow> (\<lambda>_. True) | Some a \<Rightarrow> (\<lambda>x. x = a))\<rparr>\<rparr>"









lemma mock_again [simp]: "mock_auths s (mock_auths s' e) = mock_auths s e"
  by (simp add: mock_auths_def)





subsection \<open>Properties\<close>









end
