(* ===== verification/State_Machine_Tests.thy ===== *)
theory State_Machine_Tests
  imports Lifecycle_Calls Accounts Events
begin





subsection \<open>The tests\<close>













subsection \<open>The contract the tests call\<close>






definition status_logged :: "Event list \<Rightarrow> bool" where
  "status_logged es \<longleftrightarrow> list_ex (\<lambda>(topics, _). list_ex (\<lambda>t. t = TSym ''status'') topics) es"


subsection \<open>The laws hold together\<close>












lemma status_of_frame [simp]:
  "status_of (emit_status env i s) = status_of env"
  "status_of (env\<lparr>authorized := a\<rparr>) = status_of env"
  "status_of (empty_env a) = Map.empty"
  by (simp_all add: fun_eq_iff status_of_def emit_status_def tier_defs publish_def empty_env_def)

lemma tx_wf_frame [simp]:
  "tx_wf (emit_status env i s) = tx_wf env"
  "tx_wf (env\<lparr>authorized := a\<rparr>) = tx_wf env"
  "tx_wf (empty_env a)"
  by (simp_all add: tx_wf_def emit_status_def tier_defs publish_def empty_env_def)

lemma emit_status_frame [simp]:
  "authorized (emit_status env i s) = authorized env"
  "status_logged (events (emit_status env i s))"
  by (simp_all add: emit_status_def status_logged_def TOPIC_STATUS_def)


lemma events_set_transaction [simp]: "events (set_transaction env tx) = events env"
  by (simp add: set_transaction_def persistent_set_def)


subsection \<open>Properties\<close>



end
