(* ===== verification/Callback_Payload.thy ===== *)
theory Callback_Payload
  imports Register Rust_Text
begin

text \<open>
  The payload the integration tests register, and how a test reads the answer of a call.
  \<open>types.rs\<close> is an empty file at this commit; the fields are those of the struct literal in
  \<open>src/tests_hot_path.rs\<close>, which the other tests build too.
\<close>

record HotPayload = CallbackPayload +
  cp_stellar_account :: string
  cp_amount :: i128
  cp_asset_code :: string
  cp_asset_issuer :: string
  cp_anchor_transaction_id :: string
  cp_callback_type :: CallbackType
  cp_callback_status :: string

definition G_VALID_STR :: string where
  "G_VALID_STR = ''GA7QYNF7SOWQ3GLR2BGMZEHXAVIRZA4KVWLTJJFC7MGXUA74P7UJVSGZ''"

lemma G_VALID_STR_length [simp]: "length G_VALID_STR = 56"
  by (simp add: G_VALID_STR_def)

text \<open>A call without \<open>try_\<close> panics on an error; a \<open>try_\<close> call hands it to the test.  A trapped
  call is an error of another kind.\<close>

definition called :: "((ContractError + 'a) \<times> 'e) host \<Rightarrow> ('a \<times> 'e) host" where
  "called r = (case r of Some (Inr a, e) \<Rightarrow> Some (a, e) | _ \<Rightarrow> None)"

definition refused_as :: "((ContractError + 'a) \<times> 'e) host \<Rightarrow> ContractError \<Rightarrow> 'e host" where
  "refused_as r err = (case r of Some (Inl x, e) \<Rightarrow> if x = err then Some e else None | _ \<Rightarrow> None)"

end
