(* ===== verification/Invalid_Fields.thy ===== *)
theory Invalid_Fields
  imports Callback_Payload
begin

unbundle bit_operations_syntax

text \<open>
  The exhaustive test of \<open>src/test_amount_ceiling.rs\<close> over the 256 combinations of eight invalid
  payload fields, over a record of the calls it makes, and what it asks of a validator when
  the registration is \<open>register_callback\<close> of \<open>src/lib.rs\<close>, whose validator is a parameter.  The
  ceiling tests of the file call entry points that are not in the repository.
\<close>

subsection \<open>The client and the helpers\<close>

record 'e CeilingClient =
  c_mock_all_auths :: "'e \<Rightarrow> 'e"
  c_initialize :: "'e \<Rightarrow> Address \<Rightarrow> Address \<Rightarrow> 'e host"
  c_set_param :: "'e \<Rightarrow> string \<Rightarrow> i128 \<Rightarrow> 'e host"
  c_register_callback :: "'e \<Rightarrow> HotPayload \<Rightarrow> ((ContractError + string) \<times> 'e) host"

definition ANCHOR_A :: string where
  "ANCHOR_A = ''GA7QYNF7SOWQ3GLR2BGMZEHXAVIRZA4KVWLTJJFC7MGXUA74P7UJVSGZ''"

text \<open>The environment and the two generated addresses are parameters.\<close>

definition ceiling_setup :: "'e CeilingClient \<Rightarrow> 'e \<Rightarrow> Address \<Rightarrow> Address \<Rightarrow> 'e host" where
  "ceiling_setup cl e admin relay = c_initialize cl (c_mock_all_auths cl e) admin relay"

definition set_global :: "'e CeilingClient \<Rightarrow> 'e \<Rightarrow> i128 \<Rightarrow> 'e host" where
  "set_global cl e value = c_set_param cl e ''global_max_amount'' value"

subsection \<open>The fields and the payloads\<close>

datatype BadField = Amount | TxIdTooLong | AnchorTxIdTooLong | AssetCode | StellarAccount
  | AssetIssuer | IdempotencyKeyEmpty | CallbackStatus

definition BAD_FIELDS :: "BadField list" where
  "BAD_FIELDS = [Amount, TxIdTooLong, AnchorTxIdTooLong, AssetCode, StellarAccount, AssetIssuer,
     IdempotencyKeyEmpty, CallbackStatus]"

definition ceiling_payload :: "string \<Rightarrow> string \<Rightarrow> i128 \<Rightarrow> HotPayload" where
  "ceiling_payload tx anchor amount =
     \<lparr>cp_transaction_id = tx, cp_idempotency_key = tx, cp_stellar_account = ANCHOR_A,
      cp_amount = amount, cp_asset_code = ''USDC'', cp_asset_issuer = anchor,
      cp_anchor_transaction_id = ''anchor-1'', cp_callback_type = Deposit,
      cp_callback_status = ''pending_external''\<rparr>"

definition valid_payload :: "string \<Rightarrow> HotPayload" where
  "valid_payload tx = ceiling_payload tx ANCHOR_A 100"

fun apply_bad :: "HotPayload \<Rightarrow> BadField \<Rightarrow> HotPayload" where
  "apply_bad p Amount = p\<lparr>cp_amount := -1\<rparr>"
| "apply_bad p TxIdTooLong = p\<lparr>cp_transaction_id := replicate 200 CHR ''x''\<rparr>"
| "apply_bad p AnchorTxIdTooLong = p\<lparr>cp_anchor_transaction_id := replicate 200 CHR ''y''\<rparr>"
| "apply_bad p AssetCode = p\<lparr>cp_asset_code := ''TOOLONGCODE''\<rparr>"
| "apply_bad p StellarAccount = p\<lparr>cp_stellar_account := ''not-a-strkey''\<rparr>"
| "apply_bad p AssetIssuer = p\<lparr>cp_asset_issuer := ''not-a-strkey''\<rparr>"
| "apply_bad p IdempotencyKeyEmpty = p\<lparr>cp_idempotency_key := ''''\<rparr>"
| "apply_bad p CallbackStatus = p\<lparr>cp_callback_status := ''''\<rparr>"

fun expected_error :: "BadField \<Rightarrow> ContractError" where
  "expected_error Amount = InvalidAmount"
| "expected_error TxIdTooLong = InvalidPayload"
| "expected_error AnchorTxIdTooLong = InvalidPayload"
| "expected_error AssetCode = InvalidAssetCode"
| "expected_error StellarAccount = InvalidStellarAccount"
| "expected_error AssetIssuer = InvalidStellarAccount"
| "expected_error IdempotencyKeyEmpty = InvalidPayload"
| "expected_error CallbackStatus = InvalidPayload"

text \<open>The inner loop, with the payload and the first bad field.\<close>

fun apply_mask ::
    "nat \<Rightarrow> HotPayload \<times> BadField option \<Rightarrow> (nat \<times> BadField) list \<Rightarrow> HotPayload \<times> BadField option"
  where
  "apply_mask m s [] = s"
| "apply_mask m (p, first) ((i, field) # rest) = apply_mask m
     (if m AND push_bit i 1 \<noteq> 0
      then (apply_bad p field, if first = None then Some field else first) else (p, first)) rest"

definition combo :: "nat \<Rightarrow> HotPayload \<times> BadField option" where
  "combo m = apply_mask m (valid_payload (''combo-'' @ map char_of (digits m)), None)
     (enumerate 0 BAD_FIELDS)"

definition combo_step :: "'e CeilingClient \<Rightarrow> 'e \<Rightarrow> nat \<Rightarrow> 'e host" where
  "combo_step cl e m = (case combo m of (p, first) \<Rightarrow>
     let result = c_register_callback cl e p
     in case first of None \<Rightarrow> map_option snd (called result)
        | Some f \<Rightarrow> refused_as result (expected_error f))"

definition exhaustive_2_pow_8_invalid_field_combinations ::
    "'e CeilingClient \<Rightarrow> 'e \<Rightarrow> Address \<Rightarrow> Address \<Rightarrow> unit host" where
  "exhaustive_2_pow_8_invalid_field_combinations cl e admin relay = do {
     e1 \<leftarrow> ceiling_setup cl e admin relay;
     e2 \<leftarrow> set_global cl e1 1000000;
     fold_host (combo_step cl) e2 [0..<256];
     Some () }"

subsection \<open>The masks\<close>

text \<open>The loop leaves a field invalid exactly when its bit is set, and remembers the first.\<close>

lemma mask_bit:
  "(m :: nat) AND push_bit i 1 = 0 \<longleftrightarrow> \<not> bit m i"
  "(m :: nat) AND 2 ^ i = 0 \<longleftrightarrow> \<not> bit m i" "0 < (m :: nat) AND 2 ^ i \<longleftrightarrow> bit m i"
proof -
  show *: "(m :: nat) AND 2 ^ i = 0 \<longleftrightarrow> \<not> bit m i" by (rule and_exp_eq_0_iff_not_bit)
  then show "0 < (m :: nat) AND 2 ^ i \<longleftrightarrow> bit m i" by auto
  from * show "(m :: nat) AND push_bit i 1 = 0 \<longleftrightarrow> \<not> bit m i" by (simp add: push_bit_eq_mult)
qed

lemma apply_mask_foldl:
  "fst (apply_mask m s xs) = foldl (\<lambda>p (i, f). if bit m i then apply_bad p f else p) (fst s) xs"
  by (induction m s xs rule: apply_mask.induct) (simp_all add: mask_bit)

lemma apply_mask_first:
  "snd (apply_mask m s xs) =
     (if snd s = None then map_option snd (find (\<lambda>(i, f). bit m i) xs) else snd s)"
  by (induction m s xs rule: apply_mask.induct) (auto simp: mask_bit)

lemma BAD_FIELDS_enumerate:
  "enumerate 0 BAD_FIELDS = [(0, Amount), (1, TxIdTooLong), (2, AnchorTxIdTooLong), (3, AssetCode),
     (4, StellarAccount), (5, AssetIssuer), (6, IdempotencyKeyEmpty), (7, CallbackStatus)]"
  by (simp add: BAD_FIELDS_def)

text \<open>A payload by its fields, for the loop unrolled on symbolic bits.\<close>

definition payload_of :: "string \<Rightarrow> string \<Rightarrow> string \<Rightarrow> i128 \<Rightarrow> string \<Rightarrow> string \<Rightarrow> string \<Rightarrow> string \<Rightarrow> HotPayload"
  where
  "payload_of a k s n c i t z =
     \<lparr>cp_transaction_id = a, cp_idempotency_key = k, cp_stellar_account = s, cp_amount = n,
      cp_asset_code = c, cp_asset_issuer = i, cp_anchor_transaction_id = t,
      cp_callback_type = Deposit, cp_callback_status = z\<rparr>"

lemma if_bad:
  "(if b then apply_bad (payload_of a k s n c i t z) Amount else payload_of a k s n c i t z) =
     payload_of a k s (if b then -1 else n) c i t z"
  "(if b then apply_bad (payload_of a k s n c i t z) TxIdTooLong else payload_of a k s n c i t z) =
     payload_of (if b then replicate 200 CHR ''x'' else a) k s n c i t z"
  "(if b then apply_bad (payload_of a k s n c i t z) AnchorTxIdTooLong else payload_of a k s n c i t z) =
     payload_of a k s n c i (if b then replicate 200 CHR ''y'' else t) z"
  "(if b then apply_bad (payload_of a k s n c i t z) AssetCode else payload_of a k s n c i t z) =
     payload_of a k s n (if b then ''TOOLONGCODE'' else c) i t z"
  "(if b then apply_bad (payload_of a k s n c i t z) StellarAccount else payload_of a k s n c i t z) =
     payload_of a k (if b then ''not-a-strkey'' else s) n c i t z"
  "(if b then apply_bad (payload_of a k s n c i t z) AssetIssuer else payload_of a k s n c i t z) =
     payload_of a k s n c (if b then ''not-a-strkey'' else i) t z"
  "(if b then apply_bad (payload_of a k s n c i t z) IdempotencyKeyEmpty else payload_of a k s n c i t z) =
     payload_of a (if b then '''' else k) s n c i t z"
  "(if b then apply_bad (payload_of a k s n c i t z) CallbackStatus else payload_of a k s n c i t z) =
     payload_of a k s n c i t (if b then '''' else z)"
  by (simp_all add: payload_of_def)

text \<open>The payload of a mask, field by field.\<close>

definition masked_payload :: "nat \<Rightarrow> HotPayload" where
  "masked_payload m =
     \<lparr>cp_transaction_id = if bit m 1 then replicate 200 CHR ''x'' else ''combo-'' @ map char_of (digits m),
      cp_idempotency_key = if bit m 6 then '''' else ''combo-'' @ map char_of (digits m),
      cp_stellar_account = if bit m 4 then ''not-a-strkey'' else ANCHOR_A,
      cp_amount = if bit m 0 then -1 else 100,
      cp_asset_code = if bit m 3 then ''TOOLONGCODE'' else ''USDC'',
      cp_asset_issuer = if bit m 5 then ''not-a-strkey'' else ANCHOR_A,
      cp_anchor_transaction_id = if bit m 2 then replicate 200 CHR ''y'' else ''anchor-1'',
      cp_callback_type = Deposit,
      cp_callback_status = if bit m 7 then '''' else ''pending_external''\<rparr>"

lemma combo_payload: "fst (combo m) = masked_payload m"
  unfolding combo_def apply_mask_foldl BAD_FIELDS_enumerate masked_payload_def
    valid_payload_def ceiling_payload_def payload_of_def [symmetric]
  by (simp only: foldl.simps prod.case if_bad fst_conv)

text \<open>The lowest set bit below eight.\<close>

definition first_bit :: "nat \<Rightarrow> nat option" where
  "first_bit m = find (bit m) [0..<8]"

lemma upt_8: "[0..<8] = [0, 1, 2, 3, 4, 5, 6, 7 :: nat]"
  by (simp add: upt_rec numeral_eq_Suc)

lemma combo_first: "snd (combo m) = map_option (nth BAD_FIELDS) (first_bit m)"
  unfolding combo_def apply_mask_first BAD_FIELDS_enumerate first_bit_def upt_8
  by (simp add: BAD_FIELDS_def)

lemma first_bit_None: "m < 256 \<Longrightarrow> first_bit m = None \<longleftrightarrow> m = 0"
proof -
  assume "m < 256"
  then have "take_bit 8 m = m" by (simp add: take_bit_nat_eq_self_iff)
  then have "bit m i \<Longrightarrow> i < 8" for i by (metis bit_take_bit_iff)
  moreover have "first_bit m = None \<longleftrightarrow> (\<forall>i<8. \<not> bit m i)"
    by (auto simp: first_bit_def find_None_iff)
  ultimately show ?thesis by (auto simp: bit_eq_iff)
qed

text \<open>The error the test expects of a mask.\<close>

definition masked_error :: "nat \<Rightarrow> ContractError" where
  "masked_error m =
     (if bit m 0 then InvalidAmount
      else if bit m 1 \<or> bit m 2 then InvalidPayload
      else if bit m 3 then InvalidAssetCode
      else if bit m 4 \<or> bit m 5 then InvalidStellarAccount
      else InvalidPayload)"

lemma combo_expected:
  assumes "m < 256"
  shows "snd (combo m) = None \<longleftrightarrow> m = 0"
    and "snd (combo m) = Some f \<Longrightarrow> expected_error f = masked_error m"
  using first_bit_None [OF assms]
  by (auto simp: combo_first first_bit_def masked_error_def upt_8 BAD_FIELDS_def split: if_splits)

subsection \<open>The test on \<open>register_callback\<close>\<close>

text \<open>A registration that reaches the validator.\<close>

definition reaches_validator :: "('e, 'm) Client \<Rightarrow> 'e \<Rightarrow> bool" where
  "reaches_validator rc e \<longleftrightarrow> \<not> is_paused rc e \<and>
     (\<exists>relay. client_relay_signer rc e = Inr relay \<and> client_auth rc e relay = Some ())"

lemma register_reached:
  assumes "reaches_validator rc e"
  shows "validate_payload rc e p = Inl err \<Longrightarrow> register_callback rc e p = Some (Inl err, e)"
    and "validate_payload rc e p = Inr () \<Longrightarrow>
      \<exists>r e'. register_callback rc e p = Some (r, e') \<and> (\<forall>err. r = Inl err \<longrightarrow> err = DuplicateRequest)"
  using assms by (auto simp: register_callback_def reaches_validator_def split: prod.splits)

lemma combo_step_bad:
  assumes r: "c_register_callback cl = register_callback rc" "reaches_validator rc e"
    and m: "m < 256" "m \<noteq> 0"
  shows "combo_step cl e m =
    (if validate_payload rc e (masked_payload m) = Inl (masked_error m) then Some e else None)"
proof -
  from combo_expected(1) [OF m(1)] m(2) obtain f where f: "snd (combo m) = Some f" by auto
  note x = combo_expected(2) [OF m(1) f]
  have n: "masked_error m \<noteq> DuplicateRequest" by (simp add: masked_error_def)
  show ?thesis
  proof (cases "validate_payload rc e (masked_payload m)")
    case (Inl err)
    with register_reached(1) [OF r(2) this] r(1) f x show ?thesis
      by (simp add: combo_step_def split_beta combo_payload refused_as_def Let_def)
  next
    case (Inr u)
    then have "validate_payload rc e (masked_payload m) = Inr ()" by simp
    with register_reached(2) [OF r(2) this] r(1) f x n show ?thesis
      by (auto simp: combo_step_def split_beta combo_payload refused_as_def Let_def split: sum.split)
  qed
qed

lemma combo_fold:
  assumes "c_register_callback cl = register_callback rc" "reaches_validator rc e"
    and "\<And>m. m \<in> set ms \<Longrightarrow> m < 256 \<and> m \<noteq> 0"
  shows "fold_host (combo_step cl) e ms = Some e' \<longleftrightarrow>
    e' = e \<and> (\<forall>m \<in> set ms. validate_payload rc e (masked_payload m) = Inl (masked_error m))"
  using assms(3) by (induction ms) (auto simp: combo_step_bad [OF assms(1,2)])

lemma char_of_48: "char_of (48 :: nat) = CHR ''0''"
  by (simp add: char_of_def bit_0)

lemma combo_step_good:
  assumes r: "c_register_callback cl = register_callback rc" "reaches_validator rc e"
    and f: "get_idempotency_key rc e ''combo-0'' = None" "\<not> transaction_exists rc e ''combo-0''"
    and w: "write_pending rc e (masked_payload 0) = (i, e')"
  shows "combo_step cl e 0 =
    (if validate_payload rc e (masked_payload 0) = Inr () then Some e' else None)"
proof -
  have c: "snd (combo 0) = None" using combo_expected(1) [of 0] by simp
  have p: "cp_transaction_id (masked_payload 0) = ''combo-0''"
    "cp_idempotency_key (masked_payload 0) = ''combo-0''"
    by (simp_all add: masked_payload_def digits.simps char_of_48)
  show ?thesis
  proof (cases "validate_payload rc e (masked_payload 0)")
    case (Inl err)
    with register_reached(1) [OF r(2) this] r(1) c show ?thesis
      by (simp add: combo_step_def split_beta combo_payload called_def Let_def)
  next
    case (Inr u)
    with r(2) have "admitted rc e (masked_payload 0)" by (simp add: admitted_def reaches_validator_def)
    from register_callback_admitted [OF this] f w p
    have "register_callback rc e (masked_payload 0) = Some (Inr i, e')" by simp
    with r(1) c Inr show ?thesis
      by (simp add: combo_step_def split_beta combo_payload called_def Let_def)
  qed
qed

subsection \<open>Properties\<close>

text \<open>A validator that meets the exhaustive test, and a client with it.\<close>

definition ordered_validate :: "HotPayload \<Rightarrow> ContractError + unit" where
  "ordered_validate p =
     (if sint (cp_amount p) \<le> 0 then Inl InvalidAmount
      else if length (cp_transaction_id p) > 64 then Inl InvalidPayload
      else if length (cp_anchor_transaction_id p) > 64 then Inl InvalidPayload
      else if length (cp_asset_code p) > 10 then Inl InvalidAssetCode
      else if length (cp_stellar_account p) \<noteq> 56 then Inl InvalidStellarAccount
      else if length (cp_asset_issuer p) \<noteq> 56 then Inl InvalidStellarAccount
      else if cp_idempotency_key p = '''' then Inl InvalidPayload
      else if cp_callback_status p = '''' then Inl InvalidPayload
      else Inr ())"

lemma length_digits: "n < 1000 \<Longrightarrow> length (digits n) \<le> 3"
  by (simp add: digits.simps [of n] digits.simps [of "n div 10"] digits.simps [of "n div 10 div 10"])

definition field_client :: "((string \<times> string) list, unit HotPayload_ext) Client" where
  "field_client = \<lparr>is_paused = (\<lambda>_. False), client_relay_signer = (\<lambda>_. Inr ''GRELAY''),
     client_auth = (\<lambda>_ _. Some ()), validate_payload = (\<lambda>_. ordered_validate),
     get_idempotency_key = (\<lambda>e k. map_option fst (find (\<lambda>x. snd x = k) e)),
     transaction_exists = (\<lambda>e i. i \<in> set (map fst e)),
     write_pending = (\<lambda>e p. (cp_transaction_id p, (cp_transaction_id p, cp_idempotency_key p) # e))\<rparr>"

lemma ordered_validate_masked:
  assumes "m < 256"
  shows "ordered_validate (masked_payload m) = (if m = 0 then Inr () else Inl (masked_error m))"
proof -
  have n: "m = 0 \<longleftrightarrow> (\<forall>i \<in> set [0..<8]. \<not> bit m i)"
    using first_bit_None [OF assms] by (auto simp: first_bit_def find_None_iff)
  show ?thesis
    using assms length_digits [of m] n unfolding upt_8
    by (simp add: ordered_validate_def masked_payload_def masked_error_def ANCHOR_A_def)
qed

text \<open>C28. What the exhaustive test asks of the validator. When the contract registers with
  \<open>register_callback\<close> on any client, after a set-up that leaves the contract unpaused with a relay
  that signs, the test passes exactly when the validator accepts the payload with no invalid
  field and, in the state that registration leaves, refuses each of the 255 others with the
  error of the first group of invalid fields: the amount, the two long ids, the asset code, the
  two addresses, the empty key and status. So it fails, for one, on every validator that lets
  \<open>TOOLONGCODE\<close> pass.\<close>

theorem exhaustive_test_exact:
  assumes "c_register_callback cl = register_callback rc"
    and "c_initialize cl (c_mock_all_auths cl e) admin relay = Some e1"
    and "c_set_param cl e1 ''global_max_amount'' 1000000 = Some e2"
    and "write_pending rc e2 (masked_payload 0) = (i, e3)"
    and "reaches_validator rc e2" "reaches_validator rc e3"
    and "get_idempotency_key rc e2 ''combo-0'' = None" "\<not> transaction_exists rc e2 ''combo-0''"
  shows "exhaustive_2_pow_8_invalid_field_combinations cl e admin relay = Some () \<longleftrightarrow>
    validate_payload rc e2 (masked_payload 0) = Inr () \<and>
    (\<forall>m. 0 < m \<and> m < 256 \<longrightarrow> validate_payload rc e3 (masked_payload m) = Inl
       (if bit m 0 then InvalidAmount
        else if bit m 1 \<or> bit m 2 then InvalidPayload
        else if bit m 3 then InvalidAssetCode
        else if bit m 4 \<or> bit m 5 then InvalidStellarAccount
        else InvalidPayload))"
proof -
  have u: "[0..<256] = 0 # [1..<256]" by (simp add: upt_conv_Cons)
  have "(\<exists>e'. fold_host (combo_step cl) e3 [1..<256] = Some e') \<longleftrightarrow>
      (\<forall>m. 0 < m \<and> m < 256 \<longrightarrow> validate_payload rc e3 (masked_payload m) = Inl (masked_error m))"
    by (subst combo_fold [OF assms(1,6)]) (auto simp: Suc_le_eq)
  with assms(2,3) combo_step_good [OF assms(1,5,7,8,4)] show ?thesis
    unfolding exhaustive_2_pow_8_invalid_field_combinations_def u masked_error_def [symmetric]
    by (auto simp: ceiling_setup_def set_global_def bind_eq_Some_conv simp del: upt.simps)
qed

theorem exhaustive_test_exact_witness:
  "exhaustive_2_pow_8_invalid_field_combinations
     \<lparr>c_mock_all_auths = (\<lambda>e. e), c_initialize = (\<lambda>e _ _. Some e), c_set_param = (\<lambda>e _ _. Some e),
      c_register_callback = register_callback field_client\<rparr> [] ''GADMIN'' ''GRELAY'' = Some ()"
proof -
  let ?cl = "\<lparr>c_mock_all_auths = (\<lambda>e. e), c_initialize = (\<lambda>e _ _. Some e), c_set_param = (\<lambda>e _ _. Some e),
      c_register_callback = register_callback field_client\<rparr>"
  have "reaches_validator field_client e" for e by (simp add: reaches_validator_def field_client_def)
  note t = exhaustive_test_exact [where cl = ?cl and rc = field_client and e = "[]" and ?e1.0 = "[]"
      and ?e2.0 = "[]" and admin = "''GADMIN''" and relay = "''GRELAY''", OF _ _ _ _ this this]
  have v: "validate_payload field_client e = ordered_validate" for e by (simp add: field_client_def)
  show ?thesis
    by (rule t [where ?e3.0 = "[(''combo-0'', ''combo-0'')]" and i = "''combo-0''", THEN iffD2])
      (simp_all add: v ordered_validate_masked masked_error_def,
        simp_all add: field_client_def masked_payload_def digits.simps char_of_48)
qed

end
