(* ===== verification/Batch_Budget.thy ===== *)
theory Batch_Budget
  imports Callback_Payload
begin

text \<open>
  The batches of \<open>src/test_batch_budget.rs\<close>: payloads with every capped field at its maximal
  length, the batch padded to an exact write estimate, and the tests of the estimate.  The
  estimator, the size cap and the budgets stand in \<open>validation.rs\<close> and \<open>types.rs\<close>, which are
  empty; they are parameters, and that the write estimate grows by one with every byte of an
  idempotency key is what the tests say of the estimator.
\<close>

subsection \<open>The payloads\<close>

record BatchCost =
  write_bytes :: nat
  event_bytes :: nat

text \<open>The loop that pads a string, and the assertion on its length.\<close>

function pad_to :: "nat \<Rightarrow> string \<Rightarrow> string" where
  "pad_to len s = (if length s < len then pad_to len (s @ ''x'') else s)"
  by pat_completeness auto
termination by (relation "measure (\<lambda>(len, s). len - length s)") auto

declare pad_to.simps [simp del]

definition padded :: "string \<Rightarrow> nat \<Rightarrow> string host" where
  "padded prefix len = do {
     let s = pad_to len prefix;
     assert_that (length s = len);
     Some s }"

definition max_payload :: "string \<Rightarrow> nat \<Rightarrow> HotPayload host" where
  "max_payload tag idem_len = do {
     transaction_id \<leftarrow> padded tag 64;
     idempotency_key \<leftarrow> padded tag idem_len;
     anchor_transaction_id \<leftarrow> padded ''anchor'' 64;
     callback_status \<leftarrow> padded ''status'' 32;
     Some \<lparr>cp_transaction_id = transaction_id, cp_idempotency_key = idempotency_key,
       cp_stellar_account = G_VALID_STR, cp_amount = 1000, cp_asset_code = ''ABCDEFGHIJKL'',
       cp_asset_issuer = G_VALID_STR, cp_anchor_transaction_id = anchor_transaction_id,
       cp_callback_type = Deposit, cp_callback_status = callback_status\<rparr> }"

text \<open>The tag of an item: the prefix, the index with at least two digits, a hyphen.\<close>

definition two_digits :: "nat \<Rightarrow> string" where
  "two_digits i = (if i < 10 then ''0'' else []) @ map char_of (digits i)"

definition batch_tag :: "string \<Rightarrow> nat \<Rightarrow> string" where
  "batch_tag prefix i = prefix @ two_digits i @ ''-''"

subsection \<open>The batch at the budget\<close>

text \<open>A loop that pushes the items, with the index.\<close>

fun collect_host :: "(nat \<Rightarrow> 'a host) \<Rightarrow> nat list \<Rightarrow> 'a list host" where
  "collect_host f [] = Some []"
| "collect_host f (i # is) = do { x \<leftarrow> f i; xs \<leftarrow> collect_host f is; Some (x # xs) }"

definition u32_add :: "nat \<Rightarrow> nat \<Rightarrow> nat host" where
  "u32_add a b = (if a + b < 2 ^ 32 then Some (a + b) else None)"

definition u32_sub :: "nat \<Rightarrow> nat \<Rightarrow> nat host" where
  "u32_sub a b = (if b \<le> a then Some (a - b) else None)"

definition batch_at_write_budget ::
    "(HotPayload list \<Rightarrow> BatchCost) \<Rightarrow> nat \<Rightarrow> nat \<Rightarrow> string \<Rightarrow> nat \<Rightarrow> HotPayload list host" where
  "batch_at_write_budget estimate_batch_cost max_batch_size write_budget prefix extra = do {
     let n = max_batch_size;
     let base_idem = 8;
     v \<leftarrow> collect_host (\<lambda>i. max_payload (batch_tag prefix i) base_idem) [0..<n];
     let base = write_bytes (estimate_batch_cost v);
     sum' \<leftarrow> u32_add write_budget extra;
     slack \<leftarrow> u32_sub sum' base;
     collect_host (\<lambda>i.
       let extra_len = slack div n + (if i = n - 1 then slack mod n else 0)
       in max_payload (batch_tag prefix i) (base_idem + extra_len)) [0..<n] }"

subsection \<open>The tests of the estimate\<close>

definition estimate_grows_with_every_weighted_field :: "(HotPayload list \<Rightarrow> BatchCost) \<Rightarrow> unit host"
  where
  "estimate_grows_with_every_weighted_field estimate_batch_cost = do {
     p0 \<leftarrow> max_payload ''w-'' 16;
     let base = estimate_batch_cost [p0];
     p \<leftarrow> max_payload ''w-'' 16;
     tx \<leftarrow> padded ''w-'' 65;
     let c = estimate_batch_cost [p\<lparr>cp_transaction_id := tx\<rparr>];
     assert_that (write_bytes c = write_bytes base + 2);
     assert_that (event_bytes c = event_bytes base + 2);
     p' \<leftarrow> max_payload ''w-'' 16;
     key \<leftarrow> padded ''w-'' 17;
     let c' = estimate_batch_cost [p'\<lparr>cp_idempotency_key := key\<rparr>];
     assert_that (write_bytes c' = write_bytes base + 1);
     assert_that (event_bytes c' = event_bytes base) }"

text \<open>The estimates the batch tests assert before they call the contract.\<close>

definition max_count_max_length_estimate ::
    "(HotPayload list \<Rightarrow> BatchCost) \<Rightarrow> nat \<Rightarrow> nat \<Rightarrow> nat \<Rightarrow> unit host" where
  "max_count_max_length_estimate estimate_batch_cost max_batch_size write_budget event_budget = do {
     v \<leftarrow> collect_host (\<lambda>i. max_payload (batch_tag ''t'' i) 36) [0..<max_batch_size];
     let cost = estimate_batch_cost v;
     assert_that (write_bytes cost \<le> write_budget);
     assert_that (event_bytes cost \<le> event_budget) }"

definition at_budget_estimate ::
    "(HotPayload list \<Rightarrow> BatchCost) \<Rightarrow> nat \<Rightarrow> nat \<Rightarrow> string \<Rightarrow> nat \<Rightarrow> unit host" where
  "at_budget_estimate estimate_batch_cost max_batch_size write_budget prefix extra = do {
     batch \<leftarrow> batch_at_write_budget estimate_batch_cost max_batch_size write_budget prefix extra;
     assert_that (write_bytes (estimate_batch_cost batch) = write_budget + extra) }"

definition over_event_budget_estimate ::
    "(HotPayload list \<Rightarrow> BatchCost) \<Rightarrow> nat \<Rightarrow> nat \<Rightarrow> nat \<Rightarrow> unit host" where
  "over_event_budget_estimate estimate_batch_cost max_batch_size write_budget event_budget = do {
     v \<leftarrow> collect_host (\<lambda>i. do {
       p \<leftarrow> max_payload (batch_tag ''e'' i) 36;
       a \<leftarrow> padded ''anchor'' 200;
       Some (p\<lparr>cp_anchor_transaction_id := a\<rparr>) }) [0..<max_batch_size];
     let cost = estimate_batch_cost v;
     assert_that (write_bytes cost \<le> write_budget);
     assert_that (event_budget < event_bytes cost) }"

subsection \<open>Padding\<close>

lemma pad_to_eq: "pad_to len s = s @ replicate (len - length s) CHR ''x''"
proof (induction len s rule: pad_to.induct)
  case (1 len s)
  show ?case
  proof (cases "length s < len")
    case True
    then have "len - length s = Suc (len - Suc (length s))" by simp
    with True 1 show ?thesis by (simp add: pad_to.simps [of len s])
  qed (simp add: pad_to.simps [of len s])
qed

lemma padded_eq:
  "padded prefix len =
     (if length prefix \<le> len then Some (prefix @ replicate (len - length prefix) CHR ''x'') else None)"
  by (auto simp: padded_def pad_to_eq assert_that_def)

lemma collect_host_Some:
  assumes "\<And>i. i \<in> set is \<Longrightarrow> f i = Some (g i)"
  shows "collect_host f is = Some (map g is)"
  using assms by (induction "is") simp_all

lemma length_two_digits: "i < 100 \<Longrightarrow> length (two_digits i) = 2"
  using less_mult_imp_div_less [of i 10 10]
  by (simp add: two_digits_def digits.simps [of i] digits.simps [of "i div 10"])

text \<open>The payload \<open>max_payload\<close> builds when no prefix is too long.\<close>

definition full_payload :: "string \<Rightarrow> nat \<Rightarrow> HotPayload" where
  "full_payload tag k =
     \<lparr>cp_transaction_id = pad_to 64 tag, cp_idempotency_key = pad_to k tag,
      cp_stellar_account = G_VALID_STR, cp_amount = 1000, cp_asset_code = ''ABCDEFGHIJKL'',
      cp_asset_issuer = G_VALID_STR, cp_anchor_transaction_id = pad_to 64 ''anchor'',
      cp_callback_type = Deposit, cp_callback_status = pad_to 32 ''status''\<rparr>"

lemma max_payload_full:
  "length tag \<le> k \<Longrightarrow> length tag \<le> 64 \<Longrightarrow> max_payload tag k = Some (full_payload tag k)"
  by (simp add: max_payload_def padded_eq full_payload_def pad_to_eq)

lemma length_batch_tag: "i < 100 \<Longrightarrow> length (batch_tag prefix i) = length prefix + 3"
  by (simp add: batch_tag_def length_two_digits)

lemma full_batch:
  assumes "length prefix \<le> 5" "n \<le> 100" "\<And>i. 8 \<le> k i"
  shows "collect_host (\<lambda>i. max_payload (batch_tag prefix i) (k i)) [0..<n] =
    Some (map (\<lambda>i. full_payload (batch_tag prefix i) (k i)) [0..<n])"
  by (rule collect_host_Some, rule max_payload_full)
    (use assms length_batch_tag [of _ prefix] in \<open>auto intro: order_trans [OF _ assms(3)]\<close>)

subsection \<open>The batch meets its estimate\<close>

text \<open>The write estimate counts every byte of an idempotency key once, and depends on the rest
  of the batch in any way.\<close>

definition strip_key :: "HotPayload \<Rightarrow> HotPayload" where
  "strip_key p = p\<lparr>cp_idempotency_key := ''''\<rparr>"

definition weighs_keys :: "(HotPayload list \<Rightarrow> BatchCost) \<Rightarrow> bool" where
  "weighs_keys estimate_batch_cost \<longleftrightarrow> (\<exists>f. \<forall>ps. write_bytes (estimate_batch_cost ps) =
     f (map strip_key ps) + sum_list (map (\<lambda>p. length (cp_idempotency_key p)) ps))"

lemma strip_full_payload: "strip_key (full_payload tag k) = strip_key (full_payload tag k')"
  by (simp add: strip_key_def full_payload_def)

lemma key_full_payload: "length tag \<le> k \<Longrightarrow> length (cp_idempotency_key (full_payload tag k)) = k"
  by (simp add: full_payload_def pad_to_eq)

lemma spread_slack:
  assumes "0 < (n :: nat)"
  shows "sum_list (map (\<lambda>i. b + (slack div n + (if i = n - 1 then slack mod n else 0))) [0..<n]) =
    n * b + slack"
proof -
  obtain m where n: "n = Suc m" using assms by (cases n) simp_all
  have "sum_list (map (\<lambda>i. b + (slack div n + (if i = n - 1 then slack mod n else 0))) [0..<m]) =
      m * (b + slack div n)"
  proof -
    have "map (\<lambda>i. b + (slack div n + (if i = n - 1 then slack mod n else 0))) [0..<m] =
        map (\<lambda>i. b + slack div n) [0..<m]" by (simp add: n)
    then show ?thesis by (simp only: sum_list_triv length_upt) simp
  qed
  then show ?thesis using n div_mult_mod_eq [of slack n] by (simp add: algebra_simps)
qed

lemma two_digits_inj: "two_digits i = two_digits j \<Longrightarrow> i < 100 \<Longrightarrow> j < 100 \<Longrightarrow> i = j"
proof -
  have *: "two_digits k = map char_of [48 + k div 10, 48 + k mod 10 :: nat]" if "k < 100" for k
  proof (cases "k < 10")
    case True
    then show ?thesis by (simp add: two_digits_def digits.simps [of k]) (simp add: char_of_def bit_0)
  next
    case False
    then show ?thesis using less_mult_imp_div_less [of k 10 10] that
      by (simp add: two_digits_def digits.simps [of k] digits.simps [of "k div 10"])
  qed
  assume "two_digits i = two_digits j" and ij: "i < 100" "j < 100"
  then have e: "map of_char (two_digits i) = (map of_char (two_digits j) :: nat list)" by simp
  have "i div 10 = j div 10 \<and> i mod 10 = j mod 10"
    using e ij unfolding * [OF ij(1)] * [OF ij(2)] by (simp add: less_mult_imp_div_less)
  then show "i = j" by (metis div_mult_mod_eq)
qed

lemma batch_tag_inj: "n \<le> 100 \<Longrightarrow> inj_on (batch_tag prefix) {0..<n}"
proof (rule inj_onI)
  fix i j assume "n \<le> 100" "i \<in> {0..<n}" "j \<in> {0..<n}" "batch_tag prefix i = batch_tag prefix j"
  then show "i = j" by (intro two_digits_inj) (simp_all add: batch_tag_def)
qed

text \<open>Padding keeps the tags apart, whatever the lengths.\<close>

lemma padded_tags_inj:
  assumes "n \<le> 100"
  shows "inj_on (\<lambda>i. pad_to (k i) (batch_tag prefix i)) {0..<n}"
proof (rule inj_onI)
  fix i j assume ij: "i \<in> {0..<n}" "j \<in> {0..<n}"
    and e: "pad_to (k i) (batch_tag prefix i) = pad_to (k j) (batch_tag prefix j)"
  have "take (length prefix + 3) (pad_to (k l) (batch_tag prefix l)) = batch_tag prefix l"
    if "l \<in> {0..<n}" for l
    using that assms length_batch_tag [of l prefix] by (simp add: pad_to_eq)
  with ij e have "batch_tag prefix i = batch_tag prefix j" by metis
  from inj_onD [OF batch_tag_inj [OF assms] this ij] show "i = j" .
qed

lemma distinct_batch:
  assumes "n \<le> 100"
  shows "distinct (map cp_transaction_id (map (\<lambda>i. full_payload (batch_tag prefix i) (k i)) [0..<n]))"
    "distinct (map cp_idempotency_key (map (\<lambda>i. full_payload (batch_tag prefix i) (k i)) [0..<n]))"
  using padded_tags_inj [OF assms, of "\<lambda>_. 64" prefix] padded_tags_inj [OF assms, of k prefix]
  by (simp_all add: distinct_map full_payload_def comp_def)

subsection \<open>Properties\<close>

text \<open>C29. For any estimator that counts every byte of an idempotency key, the padded batch
  has the requested size and exactly the write estimate asked for, its capped fields are all at
  their caps, and its transaction ids and keys are distinct, so that nothing but the budget can
  refuse it; the estimate assertion of the budget tests holds.  The sum of budget and excess
  must fit 32 bits and cover the unpadded batch.\<close>

theorem batch_at_write_budget_exact:
  assumes w: "weighs_keys est" and p: "length prefix \<le> 5" and n: "0 < n" "n \<le> 100"
    and fits: "budget + extra < 2 ^ 32"
      "write_bytes (est (map (\<lambda>i. full_payload (batch_tag prefix i) 8) [0..<n])) \<le> budget + extra"
  shows "\<exists>batch. batch_at_write_budget est n budget prefix extra = Some batch \<and> length batch = n \<and>
    write_bytes (est batch) = budget + extra \<and>
    distinct (map cp_transaction_id batch) \<and> distinct (map cp_idempotency_key batch) \<and>
    list_all (\<lambda>p. length (cp_transaction_id p) = 64 \<and> length (cp_anchor_transaction_id p) = 64 \<and>
      length (cp_callback_status p) = 32 \<and> length (cp_asset_code p) = 12) batch \<and>
    at_budget_estimate est n budget prefix extra = Some ()"
proof -
  let ?tag = "batch_tag prefix"
  let ?v = "map (\<lambda>i. full_payload (?tag i) 8) [0..<n]"
  define slack where "slack = budget + extra - write_bytes (est ?v)"
  define k where "k i = 8 + (slack div n + (if i = n - 1 then slack mod n else 0))" for i
  have k_eq: "(\<lambda>i. 8 + (slack div n + (if i = n - 1 then slack mod n else 0))) = k"
    by (simp add: fun_eq_iff k_def)
  let ?b = "map (\<lambda>i. full_payload (?tag i) (k i)) [0..<n]"
  have k8: "8 \<le> k i" for i by (simp add: k_def)
  have tag: "length (?tag i) \<le> 8" "length (?tag i) = length prefix + 3" if "i < n" for i
    using that p n(2) by (simp_all add: length_batch_tag)
  have first: "collect_host (\<lambda>i. max_payload (?tag i) 8) [0..<n] = Some ?v"
    by (rule full_batch [OF p n(2) order_refl])
  have second: "collect_host (\<lambda>i. max_payload (?tag i)
      (8 + (slack div n + (if i = n - 1 then slack mod n else 0)))) [0..<n] = Some ?b"
    using full_batch [OF p n(2), of k] k8 by (simp only: k_def)
  have sub: "u32_add budget extra = Some (budget + extra)"
    "u32_sub (budget + extra) (write_bytes (est ?v)) = Some slack"
    using fits by (simp_all add: u32_add_def u32_sub_def slack_def)
  have run: "batch_at_write_budget est n budget prefix extra = Some ?b"
    unfolding batch_at_write_budget_def Let_def
    by (simp only: first second sub Option.bind_lunit option.simps)
  obtain f where f: "write_bytes (est ps) = f (map strip_key ps) +
      sum_list (map (\<lambda>p. length (cp_idempotency_key p)) ps)" for ps
    using w unfolding weighs_keys_def by blast
  have "map strip_key ?b = map strip_key ?v"
    using strip_full_payload by (simp add: comp_def)
  moreover have "map (\<lambda>p. length (cp_idempotency_key p)) ?v = map (\<lambda>_. 8) [0..<n]"
    using tag(1) by (simp add: key_full_payload)
  then have "sum_list (map (\<lambda>p. length (cp_idempotency_key p)) ?v) = n * 8"
    by (simp only: sum_list_triv length_upt) simp
  moreover have "map (\<lambda>p. length (cp_idempotency_key p)) ?b = map k [0..<n]"
    using tag k8 by (auto intro!: key_full_payload order_trans [OF _ k8])
  then have "sum_list (map (\<lambda>p. length (cp_idempotency_key p)) ?b) = n * 8 + slack"
    using spread_slack [OF n(1), of 8 slack] unfolding k_eq by (rule trans [OF arg_cong])
  ultimately have "write_bytes (est ?b) = write_bytes (est ?v) + slack" by (simp only: f)
  then have cost: "write_bytes (est ?b) = budget + extra" using fits(2) by (simp add: slack_def)
  note distinct_batch [OF n(2), of prefix k]
  moreover have "list_all (\<lambda>p. length (cp_transaction_id p) = 64 \<and>
      length (cp_anchor_transaction_id p) = 64 \<and> length (cp_callback_status p) = 32 \<and>
      length (cp_asset_code p) = 12) ?b"
    using tag(2) p by (auto simp: list_all_iff full_payload_def pad_to_eq)
  ultimately show ?thesis using run cost by (simp add: at_budget_estimate_def)
qed

theorem batch_at_write_budget_exact_witness:
  "let est = \<lambda>ps. \<lparr>write_bytes = 500 * length ps + sum_list (map (\<lambda>p. length (cp_idempotency_key p)) ps),
        event_bytes = 0\<rparr>
   in at_budget_estimate est 3 2000 ''b'' 1 = Some ()"
proof -
  let ?est = "\<lambda>ps :: HotPayload list. \<lparr>write_bytes = 500 * length ps +
    sum_list (map (\<lambda>p. length (cp_idempotency_key p)) ps), event_bytes = 0\<rparr>"
  have w: "weighs_keys ?est" unfolding weighs_keys_def
    by (rule exI [of _ "\<lambda>qs. 500 * length qs"]) simp
  have "write_bytes (?est (map (\<lambda>i. full_payload (batch_tag ''b'' i) 8) [0..<3])) \<le> 2000 + 1"
    by (simp add: comp_def key_full_payload length_batch_tag upt_rec numeral_eq_Suc)
  with batch_at_write_budget_exact [OF w, of "''b''" 3 2000 1] show ?thesis by auto
qed

text \<open>An estimator that counts the transaction id twice for both costs and the key once for the
  writes passes the growth test.\<close>

theorem growth_test_passes:
  "estimate_grows_with_every_weighted_field (\<lambda>ps. \<lparr>write_bytes =
       sum_list (map (\<lambda>p. 2 * length (cp_transaction_id p) + length (cp_idempotency_key p) + c p) ps),
     event_bytes = sum_list (map (\<lambda>p. 2 * length (cp_transaction_id p) + d p) ps)\<rparr>) = Some ()"
  if "\<And>p t. c (p\<lparr>cp_transaction_id := t\<rparr>) = c p" "\<And>p t. c (p\<lparr>cp_idempotency_key := t\<rparr>) = c p"
    "\<And>p t. d (p\<lparr>cp_transaction_id := t\<rparr>) = d p" "\<And>p t. d (p\<lparr>cp_idempotency_key := t\<rparr>) = d p"
  using that by (simp add: estimate_grows_with_every_weighted_field_def max_payload_full padded_eq
      Let_def full_payload_def pad_to_eq)

end
