(* ===== verification/Spec2Isabelle.thy ===== *)
theory Spec2Isabelle
  imports Store_Typing Migration Size_Gate Gate_Tests Bench_Runs Harness Export_Main Fees Packing
    Profile_Corpus Event_Snapshots Event_Manifest Chaos_Instance State_Machine_Tests
    Invalid_Fields Batch_Budget
begin

text \<open>
  The Synapse core contract and its host-side tools.

  The contract is a Soroban contract in Rust.  At this commit \<open>src/lib.rs\<close> is prose with one
  code block, \<open>src/types.rs\<close> and \<open>src/validation.rs\<close> are empty, and the contract's logic is the
  storage layer \<open>src/storage.rs\<close>, the emission helpers \<open>src/events.rs\<close>, the role checks
  \<open>src/admin.rs\<close> and the migration metadata \<open>src/migration.rs\<close>.  Around it stand the
  resource gate (\<open>src/bench_resources.rs\<close>), the event-cost gates (\<open>src/bench_events.rs\<close>), the
  size-gate fixture, the test-vector exporter (\<open>tools/export-test-vectors\<close>), a chaos test with
  a reference model (\<open>src/test_rotation_chaos.rs\<close>), the rendering and trace helpers of the
  snapshot tests (\<open>src/test_support.rs\<close>, \<open>src/test_profile_diff.rs\<close>), the event snapshots and
  the event conformance tests with the documents they read (\<open>src/test_event_snapshots.rs\<close>,
  \<open>src/test_events_conformance.rs\<close>, \<open>EVENTS.md\<close>, \<open>event_conformance_manifest.toml\<close>), the tests
  of the state machine (\<open>src/tests_state_machine.rs\<close>), of invalid payload fields
  (\<open>src/test_amount_ceiling.rs\<close>), of the batch budget (\<open>src/test_batch_budget.rs\<close>) and of the fee
  arithmetic (\<open>src/test_fee_treasury.rs\<close>).

  \<^bold>\<open>Conventions.\<close>  A host trap (panic, failed \<open>require_auth\<close>, a stored value of another type,
  an arithmetic overflow) is \<open>None\<close> of the type \<open>host\<close>; a Rust \<open>Result\<close> is a sum with \<open>Inl\<close>
  the error.  Integers of the contract are words; sizes, which the host bounds by 32 bits,
  are natural numbers.  A constant, function or client the code names but the repository
  does not define (\<open>MAX_REASON_LEN\<close>, \<open>MAX_STATUS_PAGE_LIMIT\<close>, the migration ids,
  \<open>put_transaction\<close>, \<open>get_relay_signer_set\<close>, \<open>StorageClient\<close>, \<open>Validator\<close>, \<open>write_pending\<close>,
  \<open>events::relay_signer_added\<close>) is an argument of the definitions that use it.

  \<^bold>\<open>Theories.\<close>
  \<^item> \<open>Prelude\<close>: machine integers, the \<open>host\<close> type, list lemmas.
  \<^item> \<open>Contract_Types\<close>, \<open>Event_Types\<close>: records, keys, values and errors, reconstructed from
    their uses where \<open>types.rs\<close> would define them.
  \<^item> \<open>Host\<close>: the SDK's \<open>Env\<close> as a record; the storage tiers, whose laws are the locale
    \<open>kv_tier\<close>, and the locale \<open>cell\<close> for a setting under one key.
  \<^item> \<open>Treasury\<close>, \<open>Accounts\<close>: treasury cells, withdrawals and ids; relayers, admin, flags,
    tags, bonds; the role checks of \<open>admin.rs\<close> (locale \<open>role_check\<close>).
  \<^item> \<open>Lifecycle\<close>, \<open>Lifecycle_Spec\<close>, \<open>Lifecycle_Calls\<close>: transactions and their transitions;
    the abstract status machine and the locale \<open>guarded_transition\<close>, interpreted for
    \<open>start_processing\<close>, \<open>complete_transaction\<close>, \<open>cancel_transaction\<close> and \<open>fail_transaction\<close>;
    sequences of calls, their refinement, paths, bounds and frame.
  \<^item> \<open>Relay\<close>, \<open>Relay_Quorum\<close>: the signer set and the approval quorum; its abstraction to sets
    of approvers, refinement, safety and exactness.
  \<^item> \<open>Status_Index\<close>: pagination over the status index.
  \<^item> \<open>Events\<close>: the emission helpers and the locale \<open>emitter\<close>.
  \<^item> \<open>Storage_System\<close>, \<open>Storage_Invariants\<close>, \<open>Store_Typing\<close>: every writing operation as a
    rule of \<open>storage_step\<close>, reachable stores, the typing invariant under which no read
    traps, the monotone withdrawal counter, and the operations that cannot succeed.
  \<^item> \<open>Migration\<close>, \<open>Register\<close>, \<open>Size_Gate\<close>: schema diffs, registry and snapshot;
    \<open>register_callback\<close>; the pseudo-random table.
  \<^item> \<open>Rust_Text\<close>, \<open>Baseline_File\<close>, \<open>Resource_Gate\<close>, \<open>Scenarios\<close>: strings as Unicode scalar
    values and ordered maps (locale \<open>ordered_map\<close>); the parser and renderer of the baseline
    and their round trip; comparison, injection, the gate; the metered scenarios and the
    committed baseline.
  \<^item> \<open>Harness\<close>: the metering harness, the scenarios run through it and \<open>measure_call\<close>, over a
    record of SDK operations; a measurement is the charge of the measured calls alone.
  \<^item> \<open>Gate_Tests\<close>: the unit tests of the gate, on the modelled functions.
  \<^item> \<open>Bench_Events\<close>, \<open>Bench_Runs\<close>: the arithmetic and the assertions of the event-cost gates;
    every benchmark with the call it measures, the line it prints and its verdict.
  \<^item> \<open>Vectors\<close>, \<open>Vector_Conformance\<close>, \<open>Export_Main\<close>, \<open>Fees\<close>: the exported test vectors, their
    well-formedness and the exporter's \<open>main\<close>; the arithmetic tests of \<open>src/test_fee_treasury.rs\<close>
    over a parameter for \<open>compute_fee\<close>.
  \<^item> \<open>Packing\<close>: the unit tests of \<open>storage.rs\<close> over a parameter for the packed representation.
  \<^item> \<open>Chaos_Model\<close>, \<open>Chaos_World\<close>, \<open>Chaos_Run\<close>, \<open>Chaos_Scenarios\<close>, \<open>Chaos_Instance\<close>: the chaos
    test's transition table and bookkeeping; its world over a client record and the locale
    \<open>chaos_contract\<close> of the laws it relies on; the interleavings, the seeded run and the named
    scenarios, whose assertions all hold under these laws; the interpretation on a contract
    put together from \<open>register_callback\<close>, the role check and the storage operations.
  \<^item> \<open>Test_Support\<close>, \<open>Test_Rendering\<close>, \<open>Profile_Trace\<close>, \<open>Profile_Corpus\<close>: hexadecimal text, the
    FNV-1a digest and the line diff; the renderings of values, events and ledger; the trace
    recorder; which differences each of them shows; the corpus of recorded calls, run against any
    build of the contract.
  \<^item> \<open>Text_Scan\<close>, \<open>Event_Snapshots\<close>: the remaining string methods and ordered sets (locale
    \<open>ordered_set\<close>); the fixture text, the snapshot gate over a map of files, and the test that
    every catalogued event has a snapshot, with the committed \<open>EVENTS.md\<close>.
  \<^item> \<open>Event_Conformance\<close>, \<open>Event_Manifest\<close>: the names and the data of a log, the ordering tests,
    what they accept, and which emitters meet them; the committed manifest, the scan of it, and
    how it agrees with the topics of the code and with the exported vectors.
  \<^item> \<open>State_Machine_Tests\<close>: the nine tests of that file over a client record; the locale
    \<open>tested_contract\<close> of the laws of single calls, and which role predicates and transition
    tables the tests accept.
  \<^item> \<open>Callback_Payload\<close>, \<open>Invalid_Fields\<close>, \<open>Batch_Budget\<close>: the payload the integration tests
    build; the test of \<open>src/test_amount_ceiling.rs\<close> over all combinations of invalid fields and
    what it asks of the validator of \<open>register_callback\<close>; the batches of
    \<open>src/test_batch_budget.rs\<close> with their estimate.

  \<^bold>\<open>Loops.\<close>  Every loop terminates and is a total function: the page loop by the distance to
  its end, the table loop by its index, digits by the number, the seeded run by its steps; no
  fuel is used.  A test is a computation that traps when an assertion fails.

  \<^bold>\<open>Faults of the code the model keeps.\<close>  \<open>add_relay_signer\<close> reads the admin from the instance
  tier while \<open>set_admin\<close> writes the persistent one; nothing writes the status index; a met
  quorum can be met again; the tag cap is not enforced; the fee hook does nothing; \<open>run\<close> of
  the migration registry runs nothing.  The header of \<open>set_transaction\<close> stands twice, once
  over the body of \<open>get_transaction\<close>; \<open>set_transaction_status\<close> passes a third argument, which
  the model drops.  The coverage tests of the event documents fail on the committed documents:
  \<open>EVENTS.md\<close> has no row the scan recognises, and the manifest has more topics than the decoder
  test has constants.  The batch ordering test reads the data of a \<open>reg\<close> event as a symbol, while
  \<open>emit_reg\<close> publishes an integer.  A long reason is refused as an invalid transition, not as a
  long string; the exhaustive invalid-field test contradicts the caps of the other tests.

  \<^bold>\<open>Not modelled.\<close>  The entry points \<open>lib.rs\<close> no longer contains.  Where a test calls them, the
  call is a field of a client record, and what is proved of the test is stated for every record
  that keeps given laws of single calls, or without laws; the instances that show the laws hold
  together (\<open>chain_contract\<close>, \<open>instance_client\<close>) stand for no code.  So the scenarios of the snapshot,
  conformance and recovery tests and the hot-path, boundary, ceiling, batch, pause, upgrade,
  dispute, treasury and accepted-risk tests are left out, apart from the gates, checks and
  builders that stand on their own; the decision record of the treasury, which no code follows;
  the SDK's budget and the compiled contract, which are parameters of the harness; \<open>serde_json\<close>'s
  printers; \<open>pack\<close> and \<open>unpack\<close> of the unit tests of \<open>storage.rs\<close>, \<open>compute_fee\<close>, the
  \<open>EVENT_*\<close> constants and \<open>check_conformance\<close>, which are defined nowhere; the shell scripts;
  ledger TTL beyond the expiry of temporary entries.
  Every function of the contract and of its host-side tools that the repository contains has its
  definition, apart from repeated ones and one-line conversions; what is left of their lines is
  comments, imports and attributes.
\<close>

end
